(* ===== verification/Prelude.thy ===== *)
theory Prelude
  imports Main "HOL-Library.Word" "HOL-Library.List_Lexorder"
begin

text \<open>
  Shared vocabulary of the development: the machine integers of the Rust sources, the outcome of a
  fallible Rust function (\<open>Ok\<close>, \<open>Err\<close>, or a panic), the generic lemmas on lists and options used
  by several components, and the locale of deterministic state machines whose \<open>run\<close> folds a step
  function over a list of events.
\<close>

named_theorems outcome_simps \<open>evaluation rules for fallible computations\<close>
named_theorems sm_defs \<open>definitions of the handlers of the state machines\<close>

section \<open>Machine integers and bytes\<close>

type_synonym u8 = "8 word"
type_synonym u16 = "16 word"
type_synonym u32 = "32 word"
type_synonym u64 = "64 word"
type_synonym bytes = "u8 list"

text \<open>
  Keys and indices. A compressed secp256k1 key is 33 bytes, an x-only key 32; both are compared
  bytewise, which is the order of the words. \<open>P2POperatorPubKey\<close> wraps a byte vector.
\<close>

type_synonym operator_idx = u32
type_synonym block_height = u64
type_synonym p2p_key = bytes
type_synonym btc_key = "264 word"
type_synonym xonly_key = "256 word"

text \<open>
  The \<open>n\<close> low bytes of a word, most significant byte first; \<open>u32::to_be_bytes\<close>, \<open>u64::to_be_bytes\<close> and
  the byte array behind a 256-bit hash or key are instances.
\<close>

definition be_bytes :: "nat \<Rightarrow> 'a::len word \<Rightarrow> bytes" where
  "be_bytes n w = map (\<lambda>i. ucast (drop_bit (8 * i) w)) (rev [0..<n])"

definition u32_to_be_bytes :: "u32 \<Rightarrow> bytes" where
  "u32_to_be_bytes w = be_bytes 4 w"

definition u64_to_be_bytes :: "u64 \<Rightarrow> bytes" where
  "u64_to_be_bytes w = be_bytes 8 w"

lemma length_be_bytes [simp]: "length (be_bytes n w) = n"
  by (simp add: be_bytes_def)

lemma length_u32_to_be_bytes [simp]: "length (u32_to_be_bytes w) = 4"
  by (simp add: u32_to_be_bytes_def)

lemma length_u64_to_be_bytes [simp]: "length (u64_to_be_bytes w) = 8"
  by (simp add: u64_to_be_bytes_def)

lemma be_bytes_inj:
  fixes a b :: "'a::len word"
  assumes "be_bytes n a = be_bytes n b" and "LENGTH('a) \<le> 8 * n"
  shows "a = b"
proof (rule bit_eqI)
  fix m :: nat
  assume "possible_bit TYPE('a word) m"
  then have "m < 8 * n"
    using assms(2) by (simp add: possible_bit_word)
  then have k: "m div 8 < n"
    by simp
  have "map (\<lambda>i. ucast (drop_bit (8 * i) a) :: u8) [0..<n] =
        map (\<lambda>i. ucast (drop_bit (8 * i) b) :: u8) [0..<n]"
    using assms(1) by (simp add: be_bytes_def flip: rev_map)
  then have "\<forall>i<n. (ucast (drop_bit (8 * i) a) :: u8) = ucast (drop_bit (8 * i) b)"
    by (simp add: list_eq_iff_nth_eq)
  with k have "(ucast (drop_bit (8 * (m div 8)) a) :: u8) = ucast (drop_bit (8 * (m div 8)) b)"
    by blast
  then have "bit (ucast (drop_bit (8 * (m div 8)) a) :: u8) (m mod 8) =
             bit (ucast (drop_bit (8 * (m div 8)) b) :: u8) (m mod 8)"
    by simp
  then show "bit a m = bit b m"
    by (simp add: bit_ucast_iff possible_bit_word bit_drop_bit_eq)
qed

lemma u32_to_be_bytes_inj [simp]: "u32_to_be_bytes a = u32_to_be_bytes b \<longleftrightarrow> a = b"
  using be_bytes_inj [of 4 a b] by (auto simp: u32_to_be_bytes_def)

lemma u64_to_be_bytes_inj [simp]: "u64_to_be_bytes a = u64_to_be_bytes b \<longleftrightarrow> a = b"
  using be_bytes_inj [of 8 a b] by (auto simp: u64_to_be_bytes_def)

section \<open>Outcomes of fallible functions\<close>

text \<open>
  A Rust function of type \<open>Result<T, E>\<close> returns \<open>Ok\<close> or \<open>Err\<close>; an \<open>expect\<close>, \<open>unwrap\<close>,
  \<open>panic!\<close> or a failed \<open>assert!\<close> is neither and is the third constructor.
\<close>

datatype ('e, 'a) outcome = Ok 'a | Err 'e | Panic

fun bind_outcome :: "('e, 'a) outcome \<Rightarrow> ('a \<Rightarrow> ('e, 'b) outcome) \<Rightarrow> ('e, 'b) outcome" where
  "bind_outcome (Ok a) f = f a"
| "bind_outcome (Err e) f = Err e"
| "bind_outcome Panic f = Panic"

fun map_outcome_ok :: "('a \<Rightarrow> 'b) \<Rightarrow> ('e, 'a) outcome \<Rightarrow> ('e, 'b) outcome" where
  "map_outcome_ok f (Ok a) = Ok (f a)"
| "map_outcome_ok f (Err e) = Err e"
| "map_outcome_ok f Panic = Panic"

text \<open>\<open>Option::expect\<close> and \<open>Option::ok_or\<close>.\<close>

definition expect :: "'a option \<Rightarrow> ('e, 'a) outcome" where
  "expect x = (case x of None \<Rightarrow> Panic | Some a \<Rightarrow> Ok a)"

definition ok_or :: "'e \<Rightarrow> 'a option \<Rightarrow> ('e, 'a) outcome" where
  "ok_or e x = (case x of None \<Rightarrow> Err e | Some a \<Rightarrow> Ok a)"

text \<open>\<open>Result::expect\<close> and \<open>Result::unwrap\<close>.\<close>

fun expect_ok :: "('e, 'a) outcome \<Rightarrow> ('f, 'a) outcome" where
  "expect_ok (Ok a) = Ok a"
| "expect_ok (Err e) = Panic"
| "expect_ok Panic = Panic"

fun is_ok :: "('e, 'a) outcome \<Rightarrow> bool" where
  "is_ok (Ok a) = True"
| "is_ok (Err e) = False"
| "is_ok Panic = False"

lemma bind_outcome_Ok_iff [outcome_simps]:
  "bind_outcome x f = Ok b \<longleftrightarrow> (\<exists>a. x = Ok a \<and> f a = Ok b)"
  by (cases x) auto

lemma bind_outcome_Err_iff [outcome_simps]:
  "bind_outcome x f = Err e \<longleftrightarrow> x = Err e \<or> (\<exists>a. x = Ok a \<and> f a = Err e)"
  by (cases x) auto

lemma bind_outcome_Panic_iff [outcome_simps]:
  "bind_outcome x f = Panic \<longleftrightarrow> x = Panic \<or> (\<exists>a. x = Ok a \<and> f a = Panic)"
  by (cases x) auto

lemma map_outcome_ok_iff [outcome_simps]:
  "map_outcome_ok f x = Ok b \<longleftrightarrow> (\<exists>a. x = Ok a \<and> b = f a)"
  "map_outcome_ok f x = Err e \<longleftrightarrow> x = Err e"
  "map_outcome_ok f x = Panic \<longleftrightarrow> x = Panic"
  by (cases x; auto)+

lemma expect_iff [outcome_simps]:
  "expect x = Ok a \<longleftrightarrow> x = Some a"
  "expect x = Err e \<longleftrightarrow> False"
  "expect x = Panic \<longleftrightarrow> x = None"
  by (auto simp: expect_def split: option.splits)

lemma ok_or_iff [outcome_simps]:
  "ok_or e x = Ok a \<longleftrightarrow> x = Some a"
  "ok_or e x = Err e' \<longleftrightarrow> x = None \<and> e' = e"
  "ok_or e x = Panic \<longleftrightarrow> False"
  by (auto simp: ok_or_def split: option.splits)

lemma expect_ok_iff [outcome_simps]:
  "expect_ok x = Ok a \<longleftrightarrow> x = Ok a"
  "expect_ok x = Err e \<longleftrightarrow> False"
  by (cases x; auto)+

lemma expect_simps [simp]: "expect (Some a) = Ok a" "expect None = Panic"
  by (simp_all add: expect_def)

lemma ok_or_simps [simp]: "ok_or e (Some a) = Ok a" "ok_or e None = Err e"
  by (simp_all add: ok_or_def)

lemma bind_outcome_assoc:
  "bind_outcome (bind_outcome x f) g = bind_outcome x (\<lambda>a. bind_outcome (f a) g)"
  by (cases x) auto

lemma bind_outcome_Ok [simp]: "bind_outcome x Ok = x"
  by (cases x) auto

lemma map_outcome_ok_bind:
  "map_outcome_ok f (bind_outcome x g) = bind_outcome x (\<lambda>a. map_outcome_ok f (g a))"
  by (cases x) auto

section \<open>Collecting fallible iterators\<close>

text \<open>
  \<open>iter.map(f).collect::<Result<Vec<_>, _>>()\<close> stops at the first failure.
\<close>

fun traverse :: "('a \<Rightarrow> ('e, 'b) outcome) \<Rightarrow> 'a list \<Rightarrow> ('e, 'b list) outcome" where
  "traverse f [] = Ok []"
| "traverse f (x # xs) =
     bind_outcome (f x) (\<lambda>y. bind_outcome (traverse f xs) (\<lambda>ys. Ok (y # ys)))"

lemma traverse_Ok_iff:
  "traverse f xs = Ok ys \<longleftrightarrow> list_all2 (\<lambda>x y. f x = Ok y) xs ys"
  by (induction xs arbitrary: ys)
     (auto simp: outcome_simps list_all2_Cons1)

lemma traverse_all_Ok:
  assumes "\<And>x. x \<in> set xs \<Longrightarrow> f x = Ok (g x)"
  shows "traverse f xs = Ok (map g xs)"
  using assms by (induction xs) auto

lemma traverse_map_Ok_iff: "traverse f xs = Ok ys \<longleftrightarrow> length ys = length xs \<and> (\<forall>i < length xs. f (xs ! i) = Ok (ys ! i))"
  by (auto simp: traverse_Ok_iff list_all2_conv_all_nth)

lemma traverse_append_Panic:
  assumes "\<And>x. x \<in> set xs \<Longrightarrow> \<exists>y. f x = Ok y" and "f x = Panic"
  shows "traverse f (xs @ x # zs) = Panic"
  using assms by (induction xs) (auto simp: outcome_simps)

lemma traverse_length: "traverse f xs = Ok ys \<Longrightarrow> length ys = length xs"
  by (simp add: traverse_map_Ok_iff)

lemma concat_lengths: "\<forall>x \<in> set xs. length x = n \<Longrightarrow> length (concat xs) = length xs * n"
  by (induction xs) simp_all

lemma traverse_not_Panic:
  "(\<And>x. x \<in> set xs \<Longrightarrow> f x \<noteq> Panic) \<Longrightarrow> traverse f xs \<noteq> Panic"
  by (induction xs) (auto simp: outcome_simps)

text \<open>\<open>collect::<Option<Vec<_>>>()\<close>.\<close>

fun sequence_list :: "'a option list \<Rightarrow> 'a list option" where
  "sequence_list [] = Some []"
| "sequence_list (x # xs) =
     (case x of None \<Rightarrow> None
      | Some a \<Rightarrow> (case sequence_list xs of None \<Rightarrow> None | Some as \<Rightarrow> Some (a # as)))"

lemma sequence_list_map_Some [simp]: "sequence_list (map Some ys) = Some ys"
  by (induction ys) auto

lemma sequence_list_Some_iff: "sequence_list xs = Some ys \<longleftrightarrow> xs = map Some ys"
  by (induction xs arbitrary: ys) (auto split: option.splits)

lemma sequence_list_None_iff: "sequence_list xs = None \<longleftrightarrow> None \<in> set xs"
  by (induction xs) (auto split: option.splits)

section \<open>Options and lists\<close>

lemma option_eqI: "(\<And>v. x = Some v \<longleftrightarrow> y = Some v) \<Longrightarrow> x = y"
  by (cases x; cases y) auto

text \<open>\<open>slice.get(i)\<close> and \<open>slice.get(a..b)\<close>.\<close>

definition list_get :: "'a list \<Rightarrow> nat \<Rightarrow> 'a option" where
  "list_get xs i = (if i < length xs then Some (xs ! i) else None)"

definition slice_get :: "'a list \<Rightarrow> nat \<Rightarrow> nat \<Rightarrow> 'a list option" where
  "slice_get xs a b = (if a \<le> b \<and> b \<le> length xs then Some (take (b - a) (drop a xs)) else None)"

lemma list_get_Some_iff: "list_get xs i = Some x \<longleftrightarrow> i < length xs \<and> xs ! i = x"
  by (auto simp: list_get_def)

lemma list_get_Cons [simp]:
  "list_get (x # xs) 0 = Some x"
  "list_get (x # xs) (Suc i) = list_get xs i"
  "list_get [] i = None"
  by (auto simp: list_get_def)

lemma slice_get_append:
  assumes "length a = m" and "length b = n"
  shows "slice_get (a @ b @ c) m (m + n) = Some b"
  using assms by (simp add: slice_get_def)

lemma slice_get_Some_iff:
  "slice_get xs a b = Some ys \<longleftrightarrow>
     (\<exists>pre post. xs = pre @ ys @ post \<and> length pre = a \<and> a + length ys = b)" (is "?L \<longleftrightarrow> ?R")
proof
  assume ?L
  then have ab: "a \<le> b" "b \<le> length xs" and ys: "ys = take (b - a) (drop a xs)"
    by (auto simp: slice_get_def split: if_splits)
  have "xs = take a xs @ ys @ drop (b - a) (drop a xs)"
    unfolding ys by (simp only: append_take_drop_id)
  moreover have "length (take a xs) = a" "a + length ys = b"
    using ab ys by auto
  ultimately show ?R by blast
next
  assume ?R
  then show ?L by (auto simp: slice_get_def)
qed

section \<open>Deterministic state machines\<close>

text \<open>
  The state machines of the repository are driven by an event loop that feeds one event at a time.
  A machine is given by its initial states, its step function and a state predicate; the law is the
  preservation of the predicate by one step, the conclusion is that it holds along every run.
\<close>

locale invariant_machine =
  fixes init :: "'s \<Rightarrow> bool"
    and step :: "'s \<Rightarrow> 'e \<Rightarrow> 's"
    and inv :: "'s \<Rightarrow> bool"
  assumes inv_init: "init s \<Longrightarrow> inv s"
    and inv_step: "inv s \<Longrightarrow> inv (step s e)"
begin

lemma inv_run: "inv s \<Longrightarrow> inv (foldl step s es)"
  by (induction es arbitrary: s) (auto intro: inv_step)

lemma inv_reachable: "init s \<Longrightarrow> inv (foldl step s es)"
  by (blast intro: inv_run inv_init)

end

end
