(* ===== verification/BTree_Map.thy ===== *)
theory BTree_Map
  imports Prelude
begin

text \<open>
  \<open>std::collections::BTreeMap\<close>, the container of every component: a finite map that iterates in
  increasing key order. It is the type of the association lists whose keys are strictly increasing,
  so that equality of maps is equality of their contents, as \<open>PartialEq\<close> is for \<open>BTreeMap\<close>. The
  laws a client relies on are the locale \<open>finite_map\<close>; the clients' lemmas are proved there once and
  reach the components through its interpretation \<open>bt\<close>. \<open>std::collections::HashMap\<close> is modelled by
  the same type: the sources never iterate over the one they keep.
\<close>

named_theorems btree_simps \<open>evaluation rules of the BTreeMap operations\<close>

section \<open>Strictly increasing association lists\<close>

fun insert_sorted :: "'k::linorder \<Rightarrow> 'v \<Rightarrow> ('k \<times> 'v) list \<Rightarrow> ('k \<times> 'v) list" where
  "insert_sorted k v [] = [(k, v)]"
| "insert_sorted k v ((k', v') # xs) =
     (if k < k' then (k, v) # (k', v') # xs
      else if k = k' then (k, v) # xs
      else (k', v') # insert_sorted k v xs)"

abbreviation strictly_increasing :: "('k::linorder \<times> 'v) list \<Rightarrow> bool" where
  "strictly_increasing xs \<equiv> sorted_wrt (<) (map fst xs)"

lemma fst_insert_sorted: "fst ` set (insert_sorted k v xs) = insert k (fst ` set xs)"
  by (induction k v xs rule: insert_sorted.induct) auto

lemma insert_sorted_increasing:
  "strictly_increasing xs \<Longrightarrow> strictly_increasing (insert_sorted k v xs)"
proof (induction k v xs rule: insert_sorted.induct)
  case (2 k v k' v' xs)
  show ?case
  proof (cases "k' < k")
    case True
    then have "strictly_increasing (insert_sorted k v xs)"
      using "2.IH" "2.prems" by auto
    moreover have "\<forall>x\<in>fst ` set (insert_sorted k v xs). k' < x"
      using True "2.prems" by (simp add: fst_insert_sorted)
    ultimately show ?thesis
      using True by auto
  next
    case False
    with "2.prems" show ?thesis by (auto intro: less_trans)
  qed
qed simp

lemma map_of_insert_sorted: "map_of (insert_sorted k v xs) = (map_of xs)(k \<mapsto> v)"
  by (induction k v xs rule: insert_sorted.induct) auto

lemma filter_increasing: "strictly_increasing xs \<Longrightarrow> strictly_increasing (filter P xs)"
  by (induction xs) auto

lemma map_of_filter_key: "map_of (filter (\<lambda>e. fst e \<noteq> k) xs) = (map_of xs)(k := None)"
  by (induction xs) auto

lemma strictly_increasing_distinct: "strictly_increasing xs \<Longrightarrow> distinct (map fst xs)"
  by (simp add: strict_sorted_iff)

lemma strictly_increasing_unique:
  assumes "strictly_increasing xs" and "strictly_increasing ys" and "map_of xs = map_of ys"
  shows "xs = ys"
proof -
  have "set xs = set ys"
    using assms by (metis map_of_inject_set strictly_increasing_distinct)
  moreover have "sorted (map fst xs)" "distinct (map fst xs)"
    "sorted (map fst ys)" "distinct (map fst ys)"
    using assms by (auto simp: strict_sorted_iff)
  ultimately show ?thesis
    by (intro map_sorted_distinct_set_unique [where f = fst]) (auto simp: distinct_map)
qed

section \<open>The container\<close>

typedef (overloaded) ('k, 'v) btree_map =
  "{xs :: ('k::linorder \<times> 'v) list. strictly_increasing xs}"
  morphisms bt_entries Abs_btree_map
  by (rule exI [of _ "[]"]) simp

setup_lifting type_definition_btree_map

lift_definition bt_empty :: "('k::linorder, 'v) btree_map" is "[]"
  by simp

lift_definition bt_insert :: "'k::linorder \<Rightarrow> 'v \<Rightarrow> ('k, 'v) btree_map \<Rightarrow> ('k, 'v) btree_map"
  is insert_sorted
  by (rule insert_sorted_increasing)

lift_definition bt_remove :: "'k::linorder \<Rightarrow> ('k, 'v) btree_map \<Rightarrow> ('k, 'v) btree_map"
  is "\<lambda>k xs. filter (\<lambda>e. fst e \<noteq> k) xs"
  by (rule filter_increasing)

lift_definition bt_retain ::
    "('k::linorder \<Rightarrow> 'v \<Rightarrow> bool) \<Rightarrow> ('k, 'v) btree_map \<Rightarrow> ('k, 'v) btree_map"
  is "\<lambda>p xs. filter (\<lambda>e. p (fst e) (snd e)) xs"
  by (rule filter_increasing)

definition bt_get :: "('k::linorder, 'v) btree_map \<Rightarrow> 'k \<Rightarrow> 'v option" where
  "bt_get m k = map_of (bt_entries m) k"

definition bt_keys :: "('k::linorder, 'v) btree_map \<Rightarrow> 'k list" where
  "bt_keys m = map fst (bt_entries m)"

definition bt_values :: "('k::linorder, 'v) btree_map \<Rightarrow> 'v list" where
  "bt_values m = map snd (bt_entries m)"

definition bt_len :: "('k::linorder, 'v) btree_map \<Rightarrow> nat" where
  "bt_len m = length (bt_entries m)"

text \<open>\<open>iter.collect::<BTreeMap<_, _>>()\<close>: a later entry replaces an earlier one.\<close>

definition bt_collect :: "('k::linorder \<times> 'v) list \<Rightarrow> ('k, 'v) btree_map" where
  "bt_collect xs = foldl (\<lambda>m (k, v). bt_insert k v m) bt_empty xs"

lift_definition bt_map_values :: "('v \<Rightarrow> 'w) \<Rightarrow> ('k::linorder, 'v) btree_map \<Rightarrow> ('k, 'w) btree_map"
  is "\<lambda>f xs. map (\<lambda>(k, v). (k, f v)) xs"
  by (simp add: comp_def case_prod_unfold)

section \<open>The laws of a finite map\<close>

locale finite_map =
  fixes empty :: "'m"
    and insert :: "'k \<Rightarrow> 'v \<Rightarrow> 'm \<Rightarrow> 'm"
    and remove :: "'k \<Rightarrow> 'm \<Rightarrow> 'm"
    and get :: "'m \<Rightarrow> 'k \<Rightarrow> 'v option"
    and len :: "'m \<Rightarrow> nat"
  assumes get_empty: "get empty k = None"
    and get_insert: "get (insert k v m) k' = (if k = k' then Some v else get m k')"
    and get_remove: "get (remove k m) k' = (if k = k' then None else get m k')"
    and finite_dom: "finite {k. get m k \<noteq> None}"
    and len_card: "len m = card {k. get m k \<noteq> None}"
    and get_ext: "(\<And>k. get m k = get m' k) \<Longrightarrow> m = m'"
begin

lemma len_empty: "len empty = 0"
  by (simp add: len_card get_empty)

lemma len_insert: "len (insert k v m) = (if get m k = None then Suc (len m) else len m)"
proof -
  have "{k'. get (insert k v m) k' \<noteq> None} = Set.insert k {k'. get m k' \<noteq> None}"
    by (auto simp: get_insert)
  then show ?thesis
    using finite_dom [of m] by (auto simp: len_card card_insert_if)
qed

lemma len_0_iff: "len m = 0 \<longleftrightarrow> m = empty"
proof
  assume "len m = 0"
  then have "get m k = get empty k" for k
    using finite_dom [of m] by (auto simp: len_card get_empty)
  then show "m = empty" by (rule get_ext)
qed (simp add: len_empty)

lemma insert_insert: "insert k v (insert k v' m) = insert k v m"
  by (rule get_ext) (simp add: get_insert)

lemma insert_commute:
  "k \<noteq> k' \<Longrightarrow> insert k v (insert k' v' m) = insert k' v' (insert k v m)"
  by (rule get_ext) (auto simp: get_insert)

lemma insert_same: "get m k = Some v \<Longrightarrow> insert k v m = m"
  by (rule get_ext) (auto simp: get_insert)

lemma remove_insert: "get m k = None \<Longrightarrow> remove k (insert k v m) = m"
  by (rule get_ext) (auto simp: get_insert get_remove)

lemma remove_absent: "get m k = None \<Longrightarrow> remove k m = m"
  by (rule get_ext) (auto simp: get_remove)

lemma insert_not_empty: "insert k v m \<noteq> empty"
  using get_empty [of k] get_insert [of k v m k] by (metis option.distinct(1))

lemma len_le_if_keys_subset:
  assumes "finite S" and "{k. get m k \<noteq> None} \<subseteq> S"
  shows "len m \<le> card S"
  using assms by (simp add: len_card card_mono)

lemma len_eq_if_keys:
  assumes "{k. get m k \<noteq> None} = S"
  shows "len m = card S"
  using assms by (simp add: len_card)

lemma all_keys_if_len:
  assumes "finite S" and "{k. get m k \<noteq> None} \<subseteq> S" and "len m = card S" and "k \<in> S"
  shows "get m k \<noteq> None"
  using assms by (metis (mono_tags, lifting) card_subset_eq len_card mem_Collect_eq)

end

section \<open>The interpretation on the container\<close>

lemma strictly_increasing_entries [simp]: "strictly_increasing (bt_entries m)"
  using bt_entries [of m] by simp

lemma distinct_keys_entries [simp]: "distinct (map fst (bt_entries m))"
  by (simp add: strictly_increasing_distinct)

lemma bt_entries_empty [simp, btree_simps]: "bt_entries bt_empty = []"
  by (rule bt_empty.rep_eq)

lemma bt_entries_insert [btree_simps]:
  "bt_entries (bt_insert k v m) = insert_sorted k v (bt_entries m)"
  by (rule bt_insert.rep_eq)

lemma bt_entries_remove [btree_simps]:
  "bt_entries (bt_remove k m) = filter (\<lambda>e. fst e \<noteq> k) (bt_entries m)"
  by (rule bt_remove.rep_eq)

lemma bt_entries_retain [btree_simps]:
  "bt_entries (bt_retain p m) = filter (\<lambda>e. p (fst e) (snd e)) (bt_entries m)"
  by (rule bt_retain.rep_eq)

lemma bt_entries_map_values [btree_simps]:
  "bt_entries (bt_map_values f m) = map (\<lambda>(k, v). (k, f v)) (bt_entries m)"
  by (rule bt_map_values.rep_eq)

lemma bt_eq_iff: "m = m' \<longleftrightarrow> bt_entries m = bt_entries m'"
  by (simp add: bt_entries_inject)

lemma bt_dom_keys: "{k. bt_get m k \<noteq> None} = set (bt_keys m)"
  by (auto simp: bt_get_def bt_keys_def map_of_eq_None_iff)

interpretation bt: finite_map bt_empty bt_insert bt_remove bt_get bt_len
proof unfold_locales
  fix k k' :: "'a" and v :: "'b" and m m' :: "('a, 'b) btree_map"
  show "bt_get bt_empty k = (None :: 'b option)"
    by (simp add: bt_get_def)
  show "bt_get (bt_insert k v m) k' = (if k = k' then Some v else bt_get m k')"
    by (simp add: bt_get_def bt_entries_insert map_of_insert_sorted)
  show "bt_get (bt_remove k m) k' = (if k = k' then None else bt_get m k')"
    by (simp add: bt_get_def bt_entries_remove map_of_filter_key)
  show "finite {k. bt_get m k \<noteq> None}"
    unfolding bt_dom_keys by simp
  show "bt_len m = card {k. bt_get m k \<noteq> None}"
    unfolding bt_dom_keys bt_len_def bt_keys_def
    by (simp only: distinct_card [OF distinct_keys_entries] length_map)
  show "m = m'" if "\<And>k. bt_get m k = bt_get m' k"
    using that by (auto simp: bt_eq_iff bt_get_def fun_eq_iff
        intro!: strictly_increasing_unique)
qed

declare bt.get_empty [simp] bt.get_insert [simp] bt.get_remove [simp] bt.len_empty [simp]

lemma bt_get_Some_iff: "bt_get m k = Some v \<longleftrightarrow> (k, v) \<in> set (bt_entries m)"
  by (simp add: bt_get_def)

lemma bt_get_in_values: "bt_get m k = Some v \<Longrightarrow> v \<in> set (bt_values m)"
  by (force simp: bt_get_Some_iff bt_values_def)

lemma bt_values_get: "v \<in> set (bt_values m) \<Longrightarrow> \<exists>k. bt_get m k = Some v"
  by (force simp: bt_get_Some_iff bt_values_def)

lemma bt_set_values: "set (bt_values m) = {v. \<exists>k. bt_get m k = Some v}"
  using bt_get_in_values bt_values_get by fastforce

lemma bt_keys_get: "k \<in> set (bt_keys m) \<longleftrightarrow> bt_get m k \<noteq> None"
  using bt_dom_keys [of m] by blast

lemma bt_keys_sorted [simp]: "sorted_wrt (<) (bt_keys m)"
  by (simp add: bt_keys_def)

lemma bt_keys_distinct [simp]: "distinct (bt_keys m)"
  by (simp add: bt_keys_def)

lemma length_bt_keys [simp]: "length (bt_keys m) = bt_len m"
  by (simp add: bt_keys_def bt_len_def)

lemma length_bt_values [simp]: "length (bt_values m) = bt_len m"
  by (simp add: bt_values_def bt_len_def)

lemma bt_values_map_keys: "bt_values m = map (\<lambda>k. the (bt_get m k)) (bt_keys m)"
  by (auto simp: bt_values_def bt_keys_def bt_get_def)

lemma bt_keys_eq_if_same_dom:
  assumes "\<And>k. bt_get m k = None \<longleftrightarrow> bt_get m' k = None"
  shows "bt_keys m = bt_keys m'"
proof -
  have "set (bt_keys m) = set (bt_keys m')"
    using assms by (auto simp: bt_keys_get)
  then show ?thesis
    by (intro strict_sorted_equal) simp_all
qed

lemma bt_get_map_values [simp]: "bt_get (bt_map_values f m) k = map_option f (bt_get m k)"
  by (simp add: bt_get_def bt_entries_map_values map_of_map)

lemma bt_keys_map_values [simp]: "bt_keys (bt_map_values f m) = bt_keys m"
  by (simp add: bt_keys_def bt_entries_map_values comp_def case_prod_unfold)

lemma bt_values_map_values [simp]: "bt_values (bt_map_values f m) = map f (bt_values m)"
  by (simp add: bt_values_def bt_entries_map_values comp_def case_prod_unfold)

lemma bt_len_map_values [simp]: "bt_len (bt_map_values f m) = bt_len m"
  by (simp add: bt_len_def bt_entries_map_values)

lemma map_of_filter_entries:
  "distinct (map fst xs) \<Longrightarrow>
   map_of (filter (\<lambda>e. p (fst e) (snd e)) xs) k =
     (case map_of xs k of None \<Rightarrow> None | Some v \<Rightarrow> if p k v then Some v else None)"
  by (induction xs) (auto split: option.splits simp: map_of_eq_None_iff)

lemma bt_get_retain:
  "bt_get (bt_retain p m) k =
     (case bt_get m k of None \<Rightarrow> None | Some v \<Rightarrow> if p k v then Some v else None)"
  by (simp add: bt_get_def bt_entries_retain map_of_filter_entries)

section \<open>Collecting an iterator\<close>

lemma bt_get_foldl_insert:
  "bt_get (foldl (\<lambda>m (k, v). bt_insert k v m) m0 xs) k =
     (case map_of (rev xs) k of None \<Rightarrow> bt_get m0 k | Some v \<Rightarrow> Some v)"
  by (induction xs arbitrary: m0)
     (auto simp: map_add_def split: option.splits)

lemma bt_get_collect: "bt_get (bt_collect xs) k = map_of (rev xs) k"
  by (simp add: bt_collect_def bt_get_foldl_insert split: option.splits)

lemma map_of_eqI_rev: "distinct (map fst xs) \<Longrightarrow> map_of (rev xs) = map_of xs"
  by (simp add: map_of_inject_set rev_map [symmetric])

lemma bt_get_collect_distinct:
  "distinct (map fst xs) \<Longrightarrow> bt_get (bt_collect xs) k = map_of xs k"
  by (simp add: bt_get_collect map_of_eqI_rev)

lemma bt_collect_entries [simp]: "bt_collect (bt_entries m) = m"
  by (rule bt.get_ext) (simp add: bt_get_collect_distinct, simp add: bt_get_def)

lemma bt_collect_dom: "{k. bt_get (bt_collect xs) k \<noteq> None} = fst ` set xs"
  by (auto simp: bt_get_collect map_of_eq_None_iff image_iff)

lemma bt_len_collect_distinct: "distinct (map fst xs) \<Longrightarrow> bt_len (bt_collect xs) = length xs"
  unfolding bt.len_card bt_collect_dom using distinct_card [of "map fst xs"] by simp

text \<open>\<open>iter().find_map\<close> on the entries: the first match in key order.\<close>

definition bt_find_key :: "('k::linorder, 'v) btree_map \<Rightarrow> 'v \<Rightarrow> 'k option" where
  "bt_find_key m v = map_option fst (find (\<lambda>e. snd e = v) (bt_entries m))"

lemma bt_find_key_Some: "bt_find_key m v = Some k \<Longrightarrow> bt_get m k = Some v"
  by (auto simp: bt_find_key_def find_Some_iff bt_get_Some_iff)
     (metis nth_mem prod.collapse fst_conv snd_conv)

lemma bt_find_key_None: "bt_find_key m v = None \<longleftrightarrow> v \<notin> set (bt_values m)"
  by (force simp: bt_find_key_def find_None_iff bt_values_def)

end
