(* ===== verification/Algebra.thy ===== *)
theory Algebra
  imports BTree_Map
begin

text \<open>
  The crate \<open>crates/algebra\<close>: semigroups and monoids (\<open>semigroup.rs\<close>, \<open>monoid.rs\<close>), two-way lookups
  (\<open>bijection.rs\<close>), the retry loop (\<open>retry.rs\<close>) and the generic state machine (\<open>state_machine.rs\<close>).
  The laws that the crate states as documentation and tests are the locales \<open>merge_semigroup\<close>,
  \<open>merge_monoid\<close> and \<open>key_index\<close>; the implementations of the crate are their interpretations.
\<close>

section \<open>Semigroups and monoids: definitions\<close>

definition sconcat :: "('a \<Rightarrow> 'a \<Rightarrow> 'a) \<Rightarrow> 'a list \<Rightarrow> 'a option" where
  "sconcat merge xs =
     foldl (\<lambda>opt x. Some (case opt of Some acc \<Rightarrow> merge acc x | None \<Rightarrow> x)) None xs"

definition concat_monoid :: "'a \<Rightarrow> ('a \<Rightarrow> 'a \<Rightarrow> 'a) \<Rightarrow> 'a list \<Rightarrow> 'a" where
  "concat_monoid emp merge xs = foldl merge emp xs"

definition fold_map :: "'a \<Rightarrow> ('a \<Rightarrow> 'a \<Rightarrow> 'a) \<Rightarrow> ('b \<Rightarrow> 'a) \<Rightarrow> 'b list \<Rightarrow> 'a" where
  "fold_map emp merge f xs = concat_monoid emp merge (map f xs)"

definition merge_unit :: "unit \<Rightarrow> unit \<Rightarrow> unit" where
  "merge_unit a b = ()"

definition merge_vec :: "'a list \<Rightarrow> 'a list \<Rightarrow> 'a list" where
  "merge_vec xs ys = xs @ ys"

fun merge_option :: "('a \<Rightarrow> 'a \<Rightarrow> 'a) \<Rightarrow> 'a option \<Rightarrow> 'a option \<Rightarrow> 'a option" where
  "merge_option f None None = None"
| "merge_option f None (Some b) = Some b"
| "merge_option f (Some a) None = Some a"
| "merge_option f (Some a) (Some b) = Some (f a b)"

fun merge_result :: "'e + 'a \<Rightarrow> 'e + 'a \<Rightarrow> 'e + 'a" where
  "merge_result (Inr a) other = Inr a"
| "merge_result (Inl e) other = other"

section \<open>Bijections: definitions\<close>

record ('a, 'b) bijection =
  bij_forward :: "'a \<Rightarrow> 'b option"
  bij_reverse :: "'b \<Rightarrow> 'a option"

definition bijection_lookup :: "('a, 'b) bijection \<Rightarrow> 'a \<Rightarrow> 'b option" where
  "bijection_lookup bj a = bij_forward bj a"

definition bijection_invert :: "('a, 'b) bijection \<Rightarrow> ('b, 'a) bijection" where
  "bijection_invert bj = \<lparr>bij_forward = bij_reverse bj, bij_reverse = bij_forward bj\<rparr>"

definition bijection_comp ::
    "('a, 'b) bijection \<Rightarrow> ('b, 'c) bijection \<Rightarrow> ('a, 'c) bijection" where
  "bijection_comp f g =
     \<lparr>bij_forward = (\<lambda>a. Option.bind (bij_forward f a) (bij_forward g)),
      bij_reverse = (\<lambda>c. Option.bind (bij_reverse g c) (bij_reverse f))\<rparr>"

fun reverse_entries ::
    "('a \<times> 'b::linorder) list \<Rightarrow> ('b, 'a) btree_map \<Rightarrow> ('b, ('b, 'a) btree_map) outcome" where
  "reverse_entries [] r = Ok r"
| "reverse_entries ((a, b) # es) r =
     (if bt_get r b \<noteq> None then Err b else reverse_entries es (bt_insert b a r))"

definition bijection_try_from ::
    "('a::linorder, 'b::linorder) btree_map \<Rightarrow> ('b, ('a, 'b) bijection) outcome" where
  "bijection_try_from m =
     map_outcome_ok
       (\<lambda>r. let f = bt_collect (map (\<lambda>(b, a). (a, b)) (bt_entries r)) in
             \<lparr>bij_forward = bt_get f, bij_reverse = bt_get r\<rparr>)
       (reverse_entries (bt_entries m) bt_empty)"

section \<open>Retry strategies: definitions\<close>

text \<open>
  A generator is a \<open>FnMut\<close> that is called once per attempt; its captured state is threaded
  explicitly. Durations are numbers of milliseconds. The trace of the delays slept through is
  returned with the result. Attempts are counted in a \<open>usize\<close> that cannot overflow before \<open>2 ^ 64\<close>
  attempts and is modelled by a natural number.
\<close>

datatype retry_action = Retry nat | Stop

record 'e strategy =
  error_handler :: "'e \<Rightarrow> nat \<Rightarrow> retry_action"
  max_retries :: "nat option"

definition strategy_new :: "('e \<Rightarrow> nat \<Rightarrow> retry_action) \<Rightarrow> 'e strategy" where
  "strategy_new h = \<lparr>error_handler = h, max_retries = None\<rparr>"

definition with_max_retries :: "nat \<Rightarrow> 'e strategy \<Rightarrow> 'e strategy" where
  "with_max_retries n s = s\<lparr>max_retries := Some n\<rparr>"

definition fixed_delay :: "nat \<Rightarrow> 'e strategy" where
  "fixed_delay d = strategy_new (\<lambda>_ _. Retry d)"

definition no_retry :: "'e strategy" where
  "no_retry = strategy_new (\<lambda>_ _. Stop)"

definition strategy_or :: "'e strategy \<Rightarrow> ('e \<Rightarrow> nat \<Rightarrow> retry_action) \<Rightarrow> 'e strategy" where
  "strategy_or s other =
     \<lparr>error_handler = (\<lambda>e n. case error_handler s e n of Stop \<Rightarrow> other e n | Retry d \<Rightarrow> Retry d),
      max_retries = max_retries s\<rparr>"

partial_function (option) retry_loop ::
    "'e strategy \<Rightarrow> ('g \<Rightarrow> ('e + 'a) \<times> 'g) \<Rightarrow> 'g \<Rightarrow> nat \<Rightarrow> nat list \<Rightarrow>
       (('e + 'a) \<times> 'g \<times> nat list) option" where
  "retry_loop s generator g attempt slept =
     (case generator g of
        (Inr a, g') \<Rightarrow> Some (Inr a, g', slept)
      | (Inl e, g') \<Rightarrow>
          (if (case max_retries s of None \<Rightarrow> False | Some n \<Rightarrow> attempt \<ge> n)
           then Some (Inl e, g', slept)
           else (case error_handler s e attempt of
                   Retry d \<Rightarrow> retry_loop s generator g' (attempt + 1) (slept @ [d])
                 | Stop \<Rightarrow> Some (Inl e, g', slept))))"

definition retry_with ::
    "'e strategy \<Rightarrow> ('g \<Rightarrow> ('e + 'a) \<times> 'g) \<Rightarrow> 'g \<Rightarrow> (('e + 'a) \<times> 'g \<times> nat list) option" where
  "retry_with s generator g = retry_loop s generator g 0 []"

section \<open>The generic state machine: definitions\<close>

text \<open>
  \<open>StateMachine::feed\<close>: the transition function sees the configuration, mutates the state and
  returns a result; the state hook is called with the new state exactly when the result is \<open>Ok\<close>. The
  hook is observed through the list of the states it was called with. \<open>poll_next\<close> on a finite input
  stream whose hook futures are ready is \<open>sm_run\<close>: one \<open>feed\<close> per input, errors do not stop the
  stream.
\<close>

record ('c, 's) state_machine =
  sm_config :: 'c
  sm_state :: 's
  sm_hooked :: "'s list"

definition sm_restore :: "'c \<Rightarrow> 's \<Rightarrow> ('c, 's) state_machine" where
  "sm_restore c s = \<lparr>sm_config = c, sm_state = s, sm_hooked = []\<rparr>"

definition sm_feed ::
    "('c \<Rightarrow> 's \<Rightarrow> 'i \<Rightarrow> 's \<times> ('e + 'o)) \<Rightarrow> ('c, 's) state_machine \<Rightarrow> 'i \<Rightarrow>
       ('c, 's) state_machine \<times> ('e + 'o)" where
  "sm_feed stf m i =
     (case stf (sm_config m) (sm_state m) i of (s', res) \<Rightarrow>
        (m\<lparr>sm_state := s',
           sm_hooked := (case res of Inr _ \<Rightarrow> sm_hooked m @ [s'] | Inl _ \<Rightarrow> sm_hooked m)\<rparr>, res))"

fun sm_run ::
    "('c \<Rightarrow> 's \<Rightarrow> 'i \<Rightarrow> 's \<times> ('e + 'o)) \<Rightarrow> ('c, 's) state_machine \<Rightarrow> 'i list \<Rightarrow>
       ('c, 's) state_machine \<times> ('e + 'o) list" where
  "sm_run stf m [] = (m, [])"
| "sm_run stf m (i # is) =
     (case sm_feed stf m i of (m', r) \<Rightarrow> case sm_run stf m' is of (m'', rs) \<Rightarrow> (m'', r # rs))"

section \<open>Semigroups and monoids: laws\<close>

locale merge_semigroup =
  fixes merge :: "'a \<Rightarrow> 'a \<Rightarrow> 'a"
  assumes merge_assoc: "merge (merge a b) c = merge a (merge b c)"
begin

lemma foldl_Some:
  "foldl (\<lambda>opt x. Some (case opt of Some acc \<Rightarrow> merge acc x | None \<Rightarrow> x)) (Some a) xs =
     Some (foldl merge a xs)"
  by (induction xs arbitrary: a) auto

lemma foldl_merge: "foldl merge (merge a b) xs = merge a (foldl merge b xs)"
  by (induction xs arbitrary: b) (auto simp: merge_assoc)

lemma sconcat_Nil: "sconcat merge [] = None"
  by (simp add: sconcat_def)

lemma sconcat_Cons: "sconcat merge (x # xs) = Some (foldl merge x xs)"
  by (simp add: sconcat_def foldl_Some)

lemma sconcat_append:
  "sconcat merge (xs @ ys) = merge_option merge (sconcat merge xs) (sconcat merge ys)"
proof (cases xs)
  case Nil
  then show ?thesis
    by (cases ys) (simp_all add: sconcat_Nil sconcat_Cons)
next
  case (Cons x xs')
  then show ?thesis
    by (cases ys) (simp_all add: sconcat_Nil sconcat_Cons foldl_merge)
qed

lemma merge_option_assoc:
  "merge_option merge (merge_option merge a b) c = merge_option merge a (merge_option merge b c)"
  by (cases a; cases b; cases c) (simp_all add: merge_assoc)

end

locale merge_monoid = merge_semigroup +
  fixes emp :: "'a"
  assumes merge_left_identity: "merge emp a = a"
    and merge_right_identity: "merge a emp = a"
begin

lemma concat_monoid_append:
  "concat_monoid emp merge (xs @ ys) = merge (concat_monoid emp merge xs) (concat_monoid emp merge ys)"
  unfolding concat_monoid_def foldl_append
  using foldl_merge [of "foldl merge emp xs" emp ys] by (simp only: merge_right_identity)

lemma concat_monoid_sconcat:
  "concat_monoid emp merge xs = (case sconcat merge xs of None \<Rightarrow> emp | Some a \<Rightarrow> a)"
  by (cases xs) (simp_all add: concat_monoid_def sconcat_Nil sconcat_Cons merge_left_identity)

end

interpretation vec: merge_monoid merge_vec "[]"
  by unfold_locales (simp_all add: merge_vec_def)

interpretation unit_sg: merge_semigroup merge_unit
  by unfold_locales (simp add: merge_unit_def)

interpretation result_sg: merge_semigroup "merge_result :: 'e + 'a \<Rightarrow> 'e + 'a \<Rightarrow> 'e + 'a"
proof unfold_locales
  fix a b c :: "'e + 'a"
  show "merge_result (merge_result a b) c = merge_result a (merge_result b c)"
    by (cases a; cases b) simp_all
qed

interpretation option_vec_sg: merge_semigroup "merge_option merge_vec"
  by unfold_locales (rule vec.merge_option_assoc)

lemma fold_map_vec: "fold_map [] merge_vec f xs = concat (map f xs)"
proof -
  have "foldl merge_vec acc ys = acc @ concat ys" for acc :: "'a list" and ys
    by (induction ys arbitrary: acc) (simp_all add: merge_vec_def)
  then show ?thesis
    by (simp add: fold_map_def concat_monoid_def)
qed

section \<open>Two-way lookups: laws\<close>

locale key_index =
  fixes valid :: "'t \<Rightarrow> bool"
    and fwd :: "'t \<Rightarrow> 'a::linorder \<Rightarrow> 'b::linorder option"
    and bwd :: "'t \<Rightarrow> 'b \<Rightarrow> 'a option"
  assumes inverse: "valid t \<Longrightarrow> fwd t a = Some b \<longleftrightarrow> bwd t b = Some a"
begin

lemma fwd_inj: "valid t \<Longrightarrow> fwd t a = Some b \<Longrightarrow> fwd t a' = Some b \<Longrightarrow> a = a'"
  by (simp add: inverse)

lemma bwd_inj: "valid t \<Longrightarrow> bwd t b = Some a \<Longrightarrow> bwd t b' = Some a \<Longrightarrow> b = b'"
  by (simp flip: inverse)

end

definition bijective :: "('a, 'b) bijection \<Rightarrow> bool" where
  "bijective bj \<longleftrightarrow> (\<forall>a b. bij_forward bj a = Some b \<longleftrightarrow> bij_reverse bj b = Some a)"

interpretation bij: key_index bijective bij_forward bij_reverse
  by unfold_locales (simp add: bijective_def)

lemma bijective_invert: "bijective bj \<Longrightarrow> bijective (bijection_invert bj)"
  by (simp add: bijective_def bijection_invert_def)

lemma bijective_comp: "bijective f \<Longrightarrow> bijective g \<Longrightarrow> bijective (bijection_comp f g)"
  by (auto simp: bijective_def bijection_comp_def bind_eq_Some_conv)

lemma reverse_entries_fresh:
  "reverse_entries es r = Ok r' \<Longrightarrow>
   distinct (map snd es) \<and> (\<forall>b \<in> snd ` set es. bt_get r b = None)"
  by (induction es r rule: reverse_entries.induct) (auto split: if_splits)

lemma reverse_entries_get:
  "reverse_entries es r = Ok r' \<Longrightarrow>
   bt_get r' b = Some a \<longleftrightarrow> bt_get r b = Some a \<or> (a, b) \<in> set es"
proof (induction es r rule: reverse_entries.induct)
  case (2 a' b' es r)
  from "2.prems" have fresh: "bt_get r b' = None" "b' \<notin> snd ` set es"
    using reverse_entries_fresh [OF "2.prems"] by simp_all
  then have "bt_get r' b = Some a \<longleftrightarrow> bt_get (bt_insert b' a' r) b = Some a \<or> (a, b) \<in> set es"
    using "2.IH" "2.prems" by simp
  also have "\<dots> \<longleftrightarrow> bt_get r b = Some a \<or> (a, b) \<in> set ((a', b') # es)"
    using fresh by (cases "b = b'") auto
  finally show ?case .
qed simp

lemma reverse_entries_Err:
  assumes "reverse_entries es r = Err b"
  shows "bt_get r b \<noteq> None \<and> b \<in> snd ` set es \<or>
         (\<exists>i j. i < j \<and> j < length es \<and> snd (es ! i) = b \<and> snd (es ! j) = b)"
  using assms
proof (induction es r rule: reverse_entries.induct)
  case (2 a b' es r)
  show ?case
  proof (cases "bt_get r b' = None")
    case True
    with "2.IH" "2.prems" consider
      "bt_get (bt_insert b' a r) b \<noteq> None \<and> b \<in> snd ` set es"
      | i j where "i < j" "j < length es" "snd (es ! i) = b" "snd (es ! j) = b"
      by auto
    then show ?thesis
    proof cases
      case 1
      show ?thesis
      proof (cases "b = b'")
        case True
        with 1 obtain j where "j < length es" "snd (es ! j) = b"
          by (auto simp: in_set_conv_nth)
        with True show ?thesis
          by (intro disjI2 exI [of _ 0] exI [of _ "Suc j"]) simp
      qed (use 1 in auto)
    next
      case 2
      then show ?thesis
        by (intro disjI2 exI [of _ "Suc i"] exI [of _ "Suc j"]) simp
    qed
  qed (use "2.prems" in auto)
qed simp

lemma reverse_entries_not_Panic: "reverse_entries es r \<noteq> Panic"
  by (induction es r rule: reverse_entries.induct) auto

lemma nth_snd_in_set: "i < length xs \<Longrightarrow> snd (xs ! i) = b \<Longrightarrow> (fst (xs ! i), b) \<in> set xs"
  by (metis nth_mem prod.collapse)

lemma bijection_try_from_bijective:
  assumes "bijection_try_from m = Ok bj"
  shows "bijective bj \<and> bij_forward bj = bt_get m"
proof -
  obtain r where r: "reverse_entries (bt_entries m) bt_empty = Ok r"
    and bj: "bj = \<lparr>bij_forward = bt_get (bt_collect (map (\<lambda>(b, a). (a, b)) (bt_entries r))),
                  bij_reverse = bt_get r\<rparr>"
    using assms by (auto simp: bijection_try_from_def Let_def outcome_simps)
  have get_r: "bt_get r b = Some a \<longleftrightarrow> bt_get m a = Some b" for a b
    using reverse_entries_get [OF r, of b a] by (simp add: bt_get_Some_iff)
  have "inj_on (\<lambda>(b, a). a) (set (bt_entries r))"
    by (auto intro!: inj_onI simp: bt_get_Some_iff [symmetric] get_r)
  then have "distinct (map fst (map (\<lambda>(b, a). (a, b)) (bt_entries r)))"
    using strictly_increasing_distinct [OF strictly_increasing_entries]
    by (auto simp: distinct_map comp_def case_prod_unfold)
  then have "bt_get (bt_collect (map (\<lambda>(b, a). (a, b)) (bt_entries r))) a = Some b \<longleftrightarrow>
             bt_get r b = Some a" for a b
    by (auto simp: bt_get_collect_distinct bt_get_Some_iff)
  note get_f = this
  have "bt_get (bt_collect (map (\<lambda>(b, a). (a, b)) (bt_entries r))) = bt_get m"
    by (intro ext option_eqI) (simp only: get_f get_r)
  then show ?thesis
    by (simp add: bj bijective_def get_r)
qed

text \<open>
  Turning a map into a bijection succeeds exactly when no value occurs under two keys. The
  result then looks up exactly what the map holds and its two directions are inverse to each other;
  otherwise the error is a value that two different keys share.
\<close>

theorem bijection_try_from_spec:
  "case bijection_try_from m of
     Ok bj \<Rightarrow> bijective bj \<and> bij_forward bj = bt_get m \<and> distinct (bt_values m)
   | Err b \<Rightarrow> (\<exists>a a'. a \<noteq> a' \<and> bt_get m a = Some b \<and> bt_get m a' = Some b)
   | Panic \<Rightarrow> False"
proof (cases "bijection_try_from m")
  case (Ok bj)
  then have "distinct (bt_values m)"
    using reverse_entries_fresh [of "bt_entries m" bt_empty]
    by (auto simp: bijection_try_from_def outcome_simps bt_values_def)
  then show ?thesis
    using Ok bijection_try_from_bijective by auto
next
  case (Err b)
  then obtain i j where ij: "i < j" "j < bt_len m" "snd (bt_entries m ! i) = b" "snd (bt_entries m ! j) = b"
    using reverse_entries_Err [of "bt_entries m" bt_empty b]
    by (auto simp: bijection_try_from_def outcome_simps bt_len_def)
  then have "(bt_keys m ! i, b) \<in> set (bt_entries m)" "(bt_keys m ! j, b) \<in> set (bt_entries m)"
    by (auto simp: bt_keys_def bt_len_def intro: nth_snd_in_set)
  moreover have "bt_keys m ! i \<noteq> bt_keys m ! j"
    using ij by (simp add: nth_eq_iff_index_eq)
  ultimately show ?thesis
    using Err by (auto simp: bt_get_Some_iff)
next
  case Panic
  then show ?thesis
    by (simp add: bijection_try_from_def outcome_simps reverse_entries_not_Panic)
qed

section \<open>The retry loop\<close>

text \<open>\<open>nth_result generator g n\<close>: the result of the \<open>n\<close>-th call (from 0), and the state after it.\<close>

fun nth_result :: "('g \<Rightarrow> ('e + 'a) \<times> 'g) \<Rightarrow> 'g \<Rightarrow> nat \<Rightarrow> ('e + 'a) \<times> 'g" where
  "nth_result generator g 0 = generator g"
| "nth_result generator g (Suc n) = nth_result generator (snd (generator g)) n"

text \<open>
  \<open>retry_trace s generator g attempt k r g' ds\<close>: starting at \<open>attempt\<close>, the first \<open>k\<close> calls fail with
  errors that the handler asks to retry after the delays \<open>ds\<close>, and the next call returns \<open>r\<close>.
\<close>

definition retry_trace ::
    "'e strategy \<Rightarrow> ('g \<Rightarrow> ('e + 'a) \<times> 'g) \<Rightarrow> 'g \<Rightarrow> nat \<Rightarrow> nat \<Rightarrow> 'e + 'a \<Rightarrow> 'g \<Rightarrow> nat list \<Rightarrow> bool" where
  "retry_trace s generator g attempt k r g' ds \<longleftrightarrow>
     length ds = k \<and> nth_result generator g k = (r, g') \<and>
     (\<forall>i < k. \<exists>e. fst (nth_result generator g i) = Inl e \<and>
                 error_handler s e (attempt + i) = Retry (ds ! i))"

lemma retry_trace_0: "generator g = (r, g') \<Longrightarrow> retry_trace s generator g attempt 0 r g' []"
  by (simp add: retry_trace_def)

lemma retry_trace_Suc:
  assumes "generator g = (Inl e, g1)" and "error_handler s e attempt = Retry d"
    and "retry_trace s generator g1 (Suc attempt) k r g' ds"
  shows "retry_trace s generator g attempt (Suc k) r g' (d # ds)"
proof -
  have "\<exists>e. fst (nth_result generator g i) = Inl e \<and>
            error_handler s e (attempt + i) = Retry ((d # ds) ! i)" if "i < Suc k" for i
    using that assms by (cases i) (auto simp: retry_trace_def)
  then show ?thesis
    using assms by (simp add: retry_trace_def)
qed

lemma retry_loop_bounded:
  assumes "max_retries s = Some n" and "attempt \<le> n"
  shows "\<exists>r g' ds k. retry_loop s generator g attempt slept = Some (r, g', slept @ ds) \<and>
           attempt + k \<le> n \<and> retry_trace s generator g attempt k r g' ds \<and>
           (\<forall>e. r = Inl e \<longrightarrow> attempt + k = n \<or> error_handler s e (attempt + k) = Stop)"
  using assms(2)
proof (induction "n - attempt" arbitrary: attempt g slept rule: less_induct)
  case (less attempt g slept)
  note unfold = retry_loop.simps [of s generator g attempt slept]
  obtain r g1 where gen: "generator g = (r, g1)" by fastforce
  show ?case
  proof (cases "\<exists>e d. r = Inl e \<and> attempt < n \<and> error_handler s e attempt = Retry d")
    case False
    then have "retry_loop s generator g attempt slept = Some (r, g1, slept @ [])"
      using gen assms(1) by (cases r) (auto simp: unfold split: retry_action.splits)
    moreover have "attempt = n \<or> error_handler s e attempt = Stop" if "r = Inl e" for e
      using False less.prems that by (cases "error_handler s e attempt") auto
    moreover have "retry_trace s generator g attempt 0 r g1 []"
      by (rule retry_trace_0 [where generator = generator and g = g]) (rule gen)
    ultimately show ?thesis
      using less.prems by (intro exI [of _ r] exI [of _ g1] exI [of _ "[]"] exI [of _ 0]) simp
  next
    case True
    then obtain e d where e: "r = Inl e" "attempt < n" "error_handler s e attempt = Retry d" by blast
    have step: "retry_loop s generator g attempt slept =
                retry_loop s generator g1 (Suc attempt) (slept @ [d])"
      using gen assms(1) e by (simp add: unfold)
    obtain r' g' ds k where IH:
      "retry_loop s generator g1 (Suc attempt) (slept @ [d]) = Some (r', g', (slept @ [d]) @ ds)"
      "Suc attempt + k \<le> n" "retry_trace s generator g1 (Suc attempt) k r' g' ds"
      "\<forall>e. r' = Inl e \<longrightarrow> Suc attempt + k = n \<or> error_handler s e (Suc attempt + k) = Stop"
      using less.hyps [OF diff_less_mono2 [OF lessI e(2)] Suc_leI [OF e(2)], of g1 "slept @ [d]"]
      by blast
    have "retry_trace s generator g attempt (Suc k) r' g' (d # ds)"
      by (rule retry_trace_Suc [where generator = generator and g = g and e = e, OF _ e(3) IH(3)])
         (simp add: gen e(1))
    with step IH show ?thesis
      by (intro exI [of _ r'] exI [of _ g'] exI [of _ "d # ds"] exI [of _ "Suc k"]) simp
  qed
qed

text \<open>
  With a maximum number of retries \<open>n\<close> the retry loop always returns. It calls the generator
  \<open>k + 1 \<le> n + 1\<close> times: every call before the last one failed with an error the handler asked to
  retry, and the delays slept are the handler's; the result is that of the last call, and it is an
  error only if the attempts are used up or the handler said stop.
\<close>

theorem retry_with_max_retries:
  assumes "max_retries s = Some n"
  shows "\<exists>r g' ds k. retry_with s generator g = Some (r, g', ds) \<and>
           k \<le> n \<and> retry_trace s generator g 0 k r g' ds \<and>
           (\<forall>e. r = Inl e \<longrightarrow> k = n \<or> error_handler s e k = Stop)"
  using retry_loop_bounded [OF assms, of 0 generator g "[]"] by (simp add: retry_with_def)

text \<open>A generator that counts its calls and succeeds on the third one, as in the crate's test.\<close>

definition third_time :: "nat \<Rightarrow> (bool + nat) \<times> nat" where
  "third_time c = (if c < 2 then (Inl True, c + 1) else (Inr 42, c + 1))"

theorem retry_with_max_retries_witness:
  "max_retries (with_max_retries 2 (fixed_delay 10) :: bool strategy) = Some 2 \<and>
   (\<exists>r g' ds. retry_with (with_max_retries 2 (fixed_delay 10)) third_time 0 = Some (r, g', ds) \<and>
     (\<exists>k \<le> 2. retry_trace (with_max_retries 2 (fixed_delay 10)) third_time 0 0 k r g' ds))"
proof -
  have "max_retries (with_max_retries 2 (fixed_delay 10) :: bool strategy) = Some 2"
    by (simp add: with_max_retries_def)
  then show ?thesis
    using retry_with_max_retries [of "with_max_retries 2 (fixed_delay 10)" 2 third_time 0] by blast
qed

section \<open>The generic state machine\<close>

lemma sm_run_append:
  "sm_run stf m (is @ js) =
     (case sm_run stf m is of (m', rs) \<Rightarrow> case sm_run stf m' js of (m'', rs') \<Rightarrow> (m'', rs @ rs'))"
  by (induction "is" arbitrary: m) (auto split: prod.splits)

lemma sm_run_hook_count:
  "sm_run stf m is = (m', rs) \<Longrightarrow>
   length (sm_hooked m') = length (sm_hooked m) + length (filter (\<lambda>r. \<not> isl r) rs) \<and> length rs = length is"
  by (induction "is" arbitrary: m m' rs)
     (auto simp: sm_feed_def split: prod.splits sum.splits)

end
