(* ===== verification/Operator_Table.thy ===== *)
theory Operator_Table
  imports Algebra
begin

text \<open>
  The operator table (\<open>crates/primitives/src/operator_table.rs\<close>): three maps that index the same set
  of operators by position, by P2P key and by bitcoin key. \<open>operator_table_wf\<close> is the invariant that
  the constructor establishes: the three maps describe one and the same set of triples, and the
  point-of-view index is one of them. The lemmas about \<open>convert_map\<close> are proved
  once in the locale \<open>key_index\<close> of two-way lookups and used for the three pairs of key kinds.
\<close>

section \<open>Definitions\<close>

type_synonym operator_table_entry = "operator_idx \<times> p2p_key \<times> btc_key"

record operator_table =
  pov :: operator_idx
  idx_key :: "(operator_idx, p2p_key \<times> btc_key) btree_map"
  p2p_map :: "(p2p_key, operator_idx \<times> btc_key) btree_map"
  btc_map :: "(btc_key, operator_idx \<times> p2p_key) btree_map"

text \<open>
  The loop of the constructor: each of the three insertions must hit a fresh key, and the first one
  that does not ends the loop with \<open>None\<close>.
\<close>

fun operator_table_fill :: "operator_table_entry list \<Rightarrow> operator_table \<Rightarrow> operator_table option" where
  "operator_table_fill [] t = Some t"
| "operator_table_fill ((i, p, b) # es) t =
     (if bt_get (idx_key t) i \<noteq> None \<or> bt_get (p2p_map t) p \<noteq> None \<or> bt_get (btc_map t) b \<noteq> None
      then None
      else operator_table_fill es
        (t\<lparr>idx_key := bt_insert i (p, b) (idx_key t),
           p2p_map := bt_insert p (i, b) (p2p_map t),
           btc_map := bt_insert b (i, p) (btc_map t)\<rparr>))"

definition operator_table_new ::
    "operator_table_entry list \<Rightarrow> (operator_table_entry \<Rightarrow> bool) \<Rightarrow> operator_table option" where
  "operator_table_new entries is_us =
     (case find is_us entries of
        None \<Rightarrow> None
      | Some e \<Rightarrow> operator_table_fill entries
          \<lparr>pov = fst e, idx_key = bt_empty, p2p_map = bt_empty, btc_map = bt_empty\<rparr>)"

definition idx_to_p2p_key :: "operator_table \<Rightarrow> operator_idx \<Rightarrow> p2p_key option" where
  "idx_to_p2p_key t i = map_option fst (bt_get (idx_key t) i)"

definition idx_to_btc_key :: "operator_table \<Rightarrow> operator_idx \<Rightarrow> btc_key option" where
  "idx_to_btc_key t i = map_option snd (bt_get (idx_key t) i)"

definition p2p_key_to_idx :: "operator_table \<Rightarrow> p2p_key \<Rightarrow> operator_idx option" where
  "p2p_key_to_idx t p = map_option fst (bt_get (p2p_map t) p)"

definition p2p_key_to_btc_key :: "operator_table \<Rightarrow> p2p_key \<Rightarrow> btc_key option" where
  "p2p_key_to_btc_key t p = map_option snd (bt_get (p2p_map t) p)"

definition btc_key_to_idx :: "operator_table \<Rightarrow> btc_key \<Rightarrow> operator_idx option" where
  "btc_key_to_idx t b = map_option fst (bt_get (btc_map t) b)"

definition btc_key_to_p2p_key :: "operator_table \<Rightarrow> btc_key \<Rightarrow> p2p_key option" where
  "btc_key_to_p2p_key t b = map_option snd (bt_get (btc_map t) b)"

definition pov_idx :: "operator_table \<Rightarrow> operator_idx" where
  "pov_idx t = pov t"

definition pov_p2p_key :: "operator_table \<Rightarrow> ('e, p2p_key) outcome" where
  "pov_p2p_key t = map_outcome_ok fst (expect (bt_get (idx_key t) (pov t)))"

definition pov_btc_key :: "operator_table \<Rightarrow> ('e, btc_key) outcome" where
  "pov_btc_key t = map_outcome_ok snd (expect (bt_get (idx_key t) (pov t)))"

definition cardinality :: "operator_table \<Rightarrow> nat" where
  "cardinality t = bt_len (idx_key t)"

definition btc_keys :: "operator_table \<Rightarrow> btc_key list" where
  "btc_keys t = map snd (bt_values (idx_key t))"

text \<open>The two \<open>BTreeSet\<close>s are represented by their increasing enumeration.\<close>

definition p2p_keys :: "operator_table \<Rightarrow> p2p_key list" where
  "p2p_keys t = bt_keys (p2p_map t)"

definition operator_idxs :: "operator_table \<Rightarrow> operator_idx list" where
  "operator_idxs t = bt_keys (idx_key t)"

definition public_key_table :: "operator_table \<Rightarrow> (operator_idx, btc_key) btree_map" where
  "public_key_table t = bt_map_values snd (idx_key t)"

text \<open>
  \<open>musig2::KeyAggContext::new\<close> followed by \<open>aggregated_pubkey\<close> is the parameter \<open>key_agg\<close>; it fails
  on an empty list of keys.
\<close>

definition aggregated_btc_key ::
    "(btc_key list \<Rightarrow> btc_key option) \<Rightarrow> operator_table \<Rightarrow> ('e, btc_key) outcome" where
  "aggregated_btc_key key_agg t = expect (key_agg (btc_keys t))"

text \<open>
  The six conversions share one body: look every key up in key order, stop at the first unknown one
  and return it as the error, collect the converted entries otherwise.
\<close>

definition convert_map ::
    "('k::linorder \<Rightarrow> 'j::linorder option) \<Rightarrow> ('k, 'v) btree_map \<Rightarrow> ('k, ('j, 'v) btree_map) outcome"
    where
  "convert_map look m =
     map_outcome_ok bt_collect
       (traverse (\<lambda>(k, v). case look k of None \<Rightarrow> Err k | Some j \<Rightarrow> Ok (j, v)) (bt_entries m))"

definition convert_map_p2p_to_btc ::
    "operator_table \<Rightarrow> (p2p_key, 'v) btree_map \<Rightarrow> (p2p_key, (btc_key, 'v) btree_map) outcome" where
  "convert_map_p2p_to_btc t m = convert_map (p2p_key_to_btc_key t) m"

definition convert_map_btc_to_p2p ::
    "operator_table \<Rightarrow> (btc_key, 'v) btree_map \<Rightarrow> (btc_key, (p2p_key, 'v) btree_map) outcome" where
  "convert_map_btc_to_p2p t m = convert_map (btc_key_to_p2p_key t) m"

definition convert_map_p2p_to_idx ::
    "operator_table \<Rightarrow> (p2p_key, 'v) btree_map \<Rightarrow> (p2p_key, (operator_idx, 'v) btree_map) outcome" where
  "convert_map_p2p_to_idx t m = convert_map (p2p_key_to_idx t) m"

definition convert_map_idx_to_p2p ::
    "operator_table \<Rightarrow> (operator_idx, 'v) btree_map \<Rightarrow> (operator_idx, (p2p_key, 'v) btree_map) outcome"
    where
  "convert_map_idx_to_p2p t m = convert_map (idx_to_p2p_key t) m"

definition convert_map_btc_to_idx ::
    "operator_table \<Rightarrow> (btc_key, 'v) btree_map \<Rightarrow> (btc_key, (operator_idx, 'v) btree_map) outcome" where
  "convert_map_btc_to_idx t m = convert_map (btc_key_to_idx t) m"

definition convert_map_idx_to_btc ::
    "operator_table \<Rightarrow> (operator_idx, 'v) btree_map \<Rightarrow> (operator_idx, (btc_key, 'v) btree_map) outcome"
    where
  "convert_map_idx_to_btc t m = convert_map (idx_to_btc_key t) m"

definition select_idx :: "operator_idx \<Rightarrow> operator_table_entry \<Rightarrow> bool" where
  "select_idx i e \<longleftrightarrow> fst e = i"

definition select_p2p :: "p2p_key \<Rightarrow> operator_table_entry \<Rightarrow> bool" where
  "select_p2p p e \<longleftrightarrow> fst (snd e) = p"

definition select_btc :: "btc_key \<Rightarrow> operator_table_entry \<Rightarrow> bool" where
  "select_btc b e \<longleftrightarrow> snd (snd e) = b"

text \<open>
  A compressed public key is a parity byte followed by the x coordinate; \<open>x_only_public_key\<close> drops
  the parity byte.
\<close>

definition x_only_public_key :: "btc_key \<Rightarrow> xonly_key" where
  "x_only_public_key b = ucast b"

definition select_btc_x_only :: "xonly_key \<Rightarrow> operator_table_entry \<Rightarrow> bool" where
  "select_btc_x_only x e \<longleftrightarrow> x_only_public_key (snd (snd e)) = x"

section \<open>The invariant of the table\<close>

text \<open>\<open>describes t E\<close>: the three maps of the table hold exactly the triples of \<open>E\<close>.\<close>

definition describes :: "operator_table \<Rightarrow> operator_table_entry set \<Rightarrow> bool" where
  "describes t E \<longleftrightarrow>
     (\<forall>i p b. bt_get (idx_key t) i = Some (p, b) \<longleftrightarrow> (i, p, b) \<in> E) \<and>
     (\<forall>i p b. bt_get (p2p_map t) p = Some (i, b) \<longleftrightarrow> (i, p, b) \<in> E) \<and>
     (\<forall>i p b. bt_get (btc_map t) b = Some (i, p) \<longleftrightarrow> (i, p, b) \<in> E)"

definition operator_table_wf :: "operator_table \<Rightarrow> bool" where
  "operator_table_wf t \<longleftrightarrow>
     (\<exists>E. describes t E \<and> pov t \<in> fst ` E)"

section \<open>Conversions along a pair of lookups\<close>

text \<open>What \<open>convert_map\<close> does with any lookup function.\<close>

lemma convert_map_Err_iff:
  "convert_map look m = Err k \<longleftrightarrow> find (\<lambda>k. look k = None) (bt_keys m) = Some k"
proof -
  have "traverse (\<lambda>(k, v). case look k of None \<Rightarrow> Err k | Some j \<Rightarrow> Ok (j, v)) xs = Err k \<longleftrightarrow>
        find (\<lambda>k. look k = None) (map fst xs) = Some k" for xs :: "('a \<times> 'c) list"
    by (induction xs) (auto simp: outcome_simps split: option.splits)
  then show ?thesis
    by (simp add: convert_map_def outcome_simps bt_keys_def)
qed

lemma convert_map_not_Panic: "convert_map look m \<noteq> Panic"
proof -
  have "traverse (\<lambda>(k, v). case look k of None \<Rightarrow> Err k | Some j \<Rightarrow> Ok (j, v)) xs \<noteq> Panic"
    for xs :: "('a \<times> 'c) list"
    by (induction xs) (auto simp: outcome_simps split: option.splits)
  then show ?thesis
    by (simp add: convert_map_def outcome_simps)
qed

lemma convert_map_Ok:
  assumes "convert_map look m = Ok m'"
  shows "m' = bt_collect (map (\<lambda>(k, v). (the (look k), v)) (bt_entries m))"
    and "\<forall>k \<in> set (bt_keys m). look k \<noteq> None"
proof -
  have "ys = map (\<lambda>(k, v). (the (look k), v)) xs \<and> (\<forall>k \<in> fst ` set xs. look k \<noteq> None)"
    if "traverse (\<lambda>(k, v). case look k of None \<Rightarrow> Err k | Some j \<Rightarrow> Ok (j, v)) xs = Ok ys"
    for xs :: "('a \<times> 'c) list" and ys
    using that
    by (induction xs arbitrary: ys) (auto simp: outcome_simps split: option.splits)
  note spec = this
  obtain ys where ys:
    "traverse (\<lambda>(k, v). case look k of None \<Rightarrow> Err k | Some j \<Rightarrow> Ok (j, v)) (bt_entries m) = Ok ys"
    "m' = bt_collect ys"
    using assms unfolding convert_map_def map_outcome_ok_iff by blast
  show "m' = bt_collect (map (\<lambda>(k, v). (the (look k), v)) (bt_entries m))"
    using spec [OF ys(1)] ys(2) by simp
  show "\<forall>k \<in> set (bt_keys m). look k \<noteq> None"
    using spec [OF ys(1)] by (simp add: bt_keys_def)
qed

lemma convert_map_get:
  assumes conv: "convert_map look m = Ok m'"
    and inj: "\<And>k k' j. look k = Some j \<Longrightarrow> look k' = Some j \<Longrightarrow> k = k'"
  shows "bt_get m' j = Some v \<longleftrightarrow> (\<exists>k. look k = Some j \<and> bt_get m k = Some v)"
proof -
  note m' = convert_map_Ok(1) [OF conv] and dom = convert_map_Ok(2) [OF conv]
  let ?ys = "map (\<lambda>(k, v). (the (look k), v)) (bt_entries m)"
  have "inj_on (\<lambda>k. the (look k)) (set (bt_keys m))"
    using dom by (auto intro!: inj_onI inj)
  then have "distinct (map (\<lambda>k. the (look k)) (bt_keys m))"
    by (simp add: distinct_map)
  then have "distinct (map fst ?ys)"
    by (simp add: bt_keys_def comp_def case_prod_unfold)
  then have "bt_get m' j = Some v \<longleftrightarrow> (j, v) \<in> set ?ys"
    unfolding m' by (simp add: bt_get_collect_distinct)
  also have "\<dots> \<longleftrightarrow> (\<exists>k. look k = Some j \<and> bt_get m k = Some v)"
    using dom by (force simp: bt_get_Some_iff bt_keys_def)
  finally show ?thesis .
qed

context key_index
begin

lemma convert_map_fwd_get:
  assumes "valid t" and "convert_map (fwd t) m = Ok m'" and "fwd t a = Some b"
  shows "bt_get m' b = bt_get m a"
proof -
  have "bt_get m' b = Some v \<longleftrightarrow> bt_get m a = Some v" for v
    using convert_map_get [OF assms(2), of b v] fwd_inj [OF assms(1)] assms(3) by auto
  then show ?thesis by (rule option_eqI)
qed

lemma convert_map_round_trip:
  assumes valid: "valid t" and conv: "convert_map (fwd t) m = Ok m'"
  shows "convert_map (bwd t) m' = Ok m"
proof -
  have get': "bt_get m' b = Some v \<longleftrightarrow> (\<exists>a. fwd t a = Some b \<and> bt_get m a = Some v)" for b v
    by (rule convert_map_get [OF conv]) (rule fwd_inj [OF valid])
  have known: "bwd t b \<noteq> None" if "b \<in> set (bt_keys m')" for b
    using that get' inverse [OF valid] by (auto simp: bt_keys_get)
  have "convert_map (bwd t) m' \<noteq> Err b" for b
    using known by (auto simp: convert_map_Err_iff find_Some_iff)
  then obtain m'' where m'': "convert_map (bwd t) m' = Ok m''"
    using convert_map_not_Panic by (metis outcome.exhaust)
  have "bt_get m'' a = Some v \<longleftrightarrow> bt_get m a = Some v" for a v
  proof -
    have "bt_get m a = Some v \<Longrightarrow> fwd t a \<noteq> None"
      using convert_map_Ok(2) [OF conv] by (auto simp: bt_keys_get)
    moreover have "bt_get m'' a = Some v \<longleftrightarrow> (\<exists>b. bwd t b = Some a \<and> bt_get m' b = Some v)"
      by (rule convert_map_get [OF m'']) (rule bwd_inj [OF valid])
    ultimately show ?thesis
      unfolding get' inverse [OF valid, symmetric] using fwd_inj [OF valid] by blast
  qed
  then have "m'' = m"
    by (intro bt.get_ext option_eqI)
  with m'' show ?thesis by simp
qed

end

interpretation p2p_btc: key_index operator_table_wf p2p_key_to_btc_key btc_key_to_p2p_key
  by unfold_locales
     (auto simp: operator_table_wf_def describes_def p2p_key_to_btc_key_def btc_key_to_p2p_key_def)

interpretation p2p_idx: key_index operator_table_wf p2p_key_to_idx idx_to_p2p_key
  by unfold_locales
     (auto simp: operator_table_wf_def describes_def p2p_key_to_idx_def idx_to_p2p_key_def)

interpretation idx_btc: key_index operator_table_wf idx_to_btc_key btc_key_to_idx
  by unfold_locales
     (auto simp: operator_table_wf_def describes_def idx_to_btc_key_def btc_key_to_idx_def)

section \<open>The constructor\<close>

lemma describes_unique:
  assumes "describes t E" and "describes t' E" and "pov t = pov t'"
  shows "t = (t' :: operator_table)"
proof -
  have "idx_key t = idx_key t'"
    using assms(1,2) by (intro bt.get_ext option_eqI) (auto simp: describes_def)
  moreover have "p2p_map t = p2p_map t'"
    using assms(1,2) by (intro bt.get_ext option_eqI) (auto simp: describes_def)
  moreover have "btc_map t = btc_map t'"
    using assms(1,2) by (intro bt.get_ext option_eqI) (auto simp: describes_def)
  ultimately show ?thesis
    using assms(3) by simp
qed

lemma describes_fresh:
  assumes "describes t E"
  shows "bt_get (idx_key t) i = None \<longleftrightarrow> i \<notin> fst ` E"
    and "bt_get (p2p_map t) p = None \<longleftrightarrow> p \<notin> (\<lambda>e. fst (snd e)) ` E"
    and "bt_get (btc_map t) b = None \<longleftrightarrow> b \<notin> (\<lambda>e. snd (snd e)) ` E"
proof -
  have "bt_get (idx_key t) i \<noteq> None \<longleftrightarrow> (\<exists>p b. (i, p, b) \<in> E)"
    using assms by (auto simp: describes_def)
  then show "bt_get (idx_key t) i = None \<longleftrightarrow> i \<notin> fst ` E"
    by force
  have "bt_get (p2p_map t) p \<noteq> None \<longleftrightarrow> (\<exists>i b. (i, p, b) \<in> E)"
    using assms by (auto simp: describes_def)
  then show "bt_get (p2p_map t) p = None \<longleftrightarrow> p \<notin> (\<lambda>e. fst (snd e)) ` E"
    by force
  have "bt_get (btc_map t) b \<noteq> None \<longleftrightarrow> (\<exists>i p. (i, p, b) \<in> E)"
    using assms by (auto simp: describes_def)
  then show "bt_get (btc_map t) b = None \<longleftrightarrow> b \<notin> (\<lambda>e. snd (snd e)) ` E"
    by force
qed

lemma describes_insert:
  assumes "describes t E" and "i \<notin> fst ` E" and "p \<notin> (\<lambda>e. fst (snd e)) ` E"
    and "b \<notin> (\<lambda>e. snd (snd e)) ` E"
  shows "describes (t\<lparr>idx_key := bt_insert i (p, b) (idx_key t),
                      p2p_map := bt_insert p (i, b) (p2p_map t),
                      btc_map := bt_insert b (i, p) (btc_map t)\<rparr>) (insert (i, p, b) E)"
  using assms by (auto simp: describes_def image_iff)

text \<open>\<open>no_duplicates es E\<close>: no index and no key occurs twice in \<open>es\<close>, or in \<open>es\<close> and in \<open>E\<close>.\<close>

definition no_duplicates :: "operator_table_entry list \<Rightarrow> operator_table_entry set \<Rightarrow> bool" where
  "no_duplicates es E \<longleftrightarrow>
     distinct (map fst es) \<and> fst ` set es \<inter> fst ` E = {} \<and>
     distinct (map (\<lambda>e. fst (snd e)) es) \<and>
     (\<lambda>e. fst (snd e)) ` set es \<inter> (\<lambda>e. fst (snd e)) ` E = {} \<and>
     distinct (map (\<lambda>e. snd (snd e)) es) \<and>
     (\<lambda>e. snd (snd e)) ` set es \<inter> (\<lambda>e. snd (snd e)) ` E = {}"

lemma no_duplicates_Cons:
  "no_duplicates ((i, p, b) # es) E \<longleftrightarrow>
     i \<notin> fst ` E \<and> p \<notin> (\<lambda>e. fst (snd e)) ` E \<and> b \<notin> (\<lambda>e. snd (snd e)) ` E \<and>
     no_duplicates es (insert (i, p, b) E)"
  by (auto simp: no_duplicates_def)

lemma operator_table_fill_spec:
  assumes "describes t E"
  shows "operator_table_fill es t = Some t' \<longleftrightarrow>
           no_duplicates es E \<and> describes t' (E \<union> set es) \<and> pov t' = pov t"
  using assms
proof (induction es t arbitrary: E rule: operator_table_fill.induct)
  case (1 t)
  then show ?case
    using describes_unique by (auto simp: no_duplicates_def)
next
  case (2 i p b es t)
  note fresh = describes_fresh [OF "2.prems"]
  show ?case
  proof (cases "i \<notin> fst ` E \<and> p \<notin> (\<lambda>e. fst (snd e)) ` E \<and> b \<notin> (\<lambda>e. snd (snd e)) ` E")
    case True
    then have "\<not> (bt_get (idx_key t) i \<noteq> None \<or> bt_get (p2p_map t) p \<noteq> None \<or>
               bt_get (btc_map t) b \<noteq> None)"
      by (simp add: fresh)
    from "2.IH" [OF this describes_insert [OF "2.prems"]] True this show ?thesis
      by (simp add: no_duplicates_Cons)
  next
    case False
    then show ?thesis
      by (auto simp: fresh no_duplicates_Cons simp del: not_None_eq)
  qed
qed

lemma describes_empty:
  "describes \<lparr>pov = i, idx_key = bt_empty, p2p_map = bt_empty, btc_map = bt_empty\<rparr> {}"
  by (simp add: describes_def)

text \<open>
  (C33) The constructor of the operator table succeeds exactly when some entry satisfies the
  point-of-view predicate and no operator index, no P2P key and no bitcoin key occurs twice; the
  table it then returns is the one whose three maps hold exactly the given entries and whose point
  of view is the index of the first entry that satisfies the predicate.
\<close>

theorem operator_table_new_spec:
  "operator_table_new es is_us = Some t \<longleftrightarrow>
     distinct (map fst es) \<and> distinct (map (fst \<circ> snd) es) \<and> distinct (map (snd \<circ> snd) es) \<and>
     describes t (set es) \<and> map_option fst (find is_us es) = Some (pov t)"
  using operator_table_fill_spec [OF describes_empty, of es _ t]
  by (auto simp: operator_table_new_def no_duplicates_def comp_def split: option.splits)

lemma operator_table_new_wf:
  assumes "operator_table_new es is_us = Some t"
  shows "operator_table_wf t"
proof -
  obtain e where e: "find is_us es = Some e"
    and fill: "operator_table_fill es
       \<lparr>pov = fst e, idx_key = bt_empty, p2p_map = bt_empty, btc_map = bt_empty\<rparr> = Some t"
    using assms by (auto simp: operator_table_new_def split: option.splits)
  then have "describes t (set es) \<and> pov t = fst e"
    using operator_table_fill_spec [OF describes_empty, of es _ t] by simp
  moreover have "e \<in> set es"
    using e by (auto simp: find_Some_iff)
  ultimately show ?thesis
    unfolding operator_table_wf_def by blast
qed

section \<open>Lookups on a well-formed table\<close>

lemma wf_lookups:
  assumes "operator_table_wf t"
  shows "idx_to_p2p_key t i = Some p \<longleftrightarrow> p2p_key_to_idx t p = Some i"
    and "idx_to_btc_key t i = Some b \<longleftrightarrow> btc_key_to_idx t b = Some i"
    and "p2p_key_to_btc_key t p = Some b \<longleftrightarrow> btc_key_to_p2p_key t b = Some p"
  by (rule p2p_idx.inverse [OF assms, symmetric] idx_btc.inverse [OF assms]
      p2p_btc.inverse [OF assms])+

lemma wf_triangle:
  assumes "operator_table_wf t" and "idx_to_p2p_key t i = Some p"
  shows "p2p_key_to_btc_key t p = idx_to_btc_key t i"
proof -
  obtain E where E: "describes t E" using assms(1) by (auto simp: operator_table_wf_def)
  obtain b where "bt_get (idx_key t) i = Some (p, b)"
    using assms(2) by (auto simp: idx_to_p2p_key_def)
  moreover from this have "bt_get (p2p_map t) p = Some (i, b)"
    using E by (simp add: describes_def)
  ultimately show ?thesis
    by (simp add: idx_to_btc_key_def p2p_key_to_btc_key_def)
qed

text \<open>
  On a table built by the constructor the point-of-view accessors, which unwrap a map lookup,
  never panic, and they agree with each other and with the index: the P2P key maps to the index and
  to the bitcoin key of this operator.
\<close>

theorem pov_accessors_total:
  assumes "operator_table_new es is_us = Some t"
  shows "\<exists>p b. pov_p2p_key t = (Ok p :: ('e, p2p_key) outcome) \<and>
               pov_btc_key t = (Ok b :: ('e, btc_key) outcome) \<and>
               p2p_key_to_idx t p = Some (pov_idx t) \<and> btc_key_to_idx t b = Some (pov_idx t) \<and>
               p2p_key_to_btc_key t p = Some b"
proof -
  have wf: "operator_table_wf t"
    using assms by (rule operator_table_new_wf)
  then obtain E i p b where "describes t E" "(i, p, b) \<in> E" "pov t = i"
    by (auto simp: operator_table_wf_def)
  then have "bt_get (idx_key t) (pov t) = Some (p, b)"
    by (simp add: describes_def)
  then have "pov_p2p_key t = (Ok p :: ('e, p2p_key) outcome)"
    and "pov_btc_key t = (Ok b :: ('e, btc_key) outcome)"
    and idx: "idx_to_p2p_key t (pov_idx t) = Some p" "idx_to_btc_key t (pov_idx t) = Some b"
    by (simp_all add: pov_p2p_key_def pov_btc_key_def idx_to_p2p_key_def idx_to_btc_key_def pov_idx_def)
  moreover have "p2p_key_to_btc_key t p = Some b"
    using idx wf_triangle [OF wf] by simp
  moreover have "p2p_key_to_idx t p = Some (pov_idx t)" "btc_key_to_idx t b = Some (pov_idx t)"
    using idx wf_lookups(1,2) [OF wf] by simp_all
  ultimately show ?thesis by blast
qed

definition example_entries :: "operator_table_entry list" where
  "example_entries = [(0, [1], 5), (1, [2], 6)]"

lemma example_table_exists: "\<exists>t. operator_table_new example_entries (select_idx 1) = Some t"
  by (simp add: example_entries_def operator_table_new_def select_idx_def)

theorem pov_accessors_total_witness:
  "\<exists>t p b. operator_table_new example_entries (select_idx 1) = Some t \<and>
     pov_p2p_key t = (Ok p :: (unit, p2p_key) outcome) \<and>
     pov_btc_key t = (Ok b :: (unit, btc_key) outcome) \<and> p2p_key_to_btc_key t p = Some b"
  using example_table_exists pov_accessors_total by blast

section \<open>Conversions of maps\<close>

lemmas convert_map_defs = convert_map_p2p_to_btc_def convert_map_btc_to_p2p_def
  convert_map_p2p_to_idx_def convert_map_idx_to_p2p_def
  convert_map_btc_to_idx_def convert_map_idx_to_btc_def

text \<open>
  Converting a map keyed by P2P keys to bitcoin keys and back is the identity whenever the
  first conversion succeeds, and so is the detour through operator indices; the value found under
  the converted key is the value that was stored under the original one.
\<close>

theorem convert_map_round_trips:
  assumes "operator_table_wf t"
  shows "(convert_map_p2p_to_btc t m = Ok m1 \<longrightarrow>
            convert_map_btc_to_p2p t m1 = Ok m \<and>
            (\<forall>p b. p2p_key_to_btc_key t p = Some b \<longrightarrow> bt_get m1 b = bt_get m p)) \<and>
         (convert_map_p2p_to_idx t m = Ok m2 \<longrightarrow>
            convert_map_idx_to_p2p t m2 = Ok m \<and>
            (\<forall>p i. p2p_key_to_idx t p = Some i \<longrightarrow> bt_get m2 i = bt_get m p)) \<and>
         (convert_map_idx_to_btc t m3 = Ok m4 \<longrightarrow>
            convert_map_btc_to_idx t m4 = Ok m3 \<and>
            (\<forall>i b. idx_to_btc_key t i = Some b \<longrightarrow> bt_get m4 b = bt_get m3 i))"
  unfolding convert_map_defs
  by (intro conjI impI allI)
     (rule p2p_btc.convert_map_round_trip [OF assms] p2p_idx.convert_map_round_trip [OF assms]
       idx_btc.convert_map_round_trip [OF assms] p2p_btc.convert_map_fwd_get [OF assms]
       p2p_idx.convert_map_fwd_get [OF assms] idx_btc.convert_map_fwd_get [OF assms]; assumption)+

definition example_table :: operator_table where
  "example_table = the (operator_table_new example_entries (select_idx 1))"

lemma example_table_eq:
  "example_table =
     \<lparr>pov = 1, idx_key = bt_insert 1 ([2], 6) (bt_insert 0 ([1], 5) bt_empty),
      p2p_map = bt_insert [2] (1, 6) (bt_insert [1] (0, 5) bt_empty),
      btc_map = bt_insert 6 (1, [2]) (bt_insert 5 (0, [1]) bt_empty)\<rparr>"
  by (simp add: example_table_def example_entries_def operator_table_new_def select_idx_def)

lemma example_table_wf: "operator_table_wf example_table"
  using example_table_exists operator_table_new_wf by (auto simp: example_table_def)

theorem convert_map_round_trips_witness:
  "operator_table_wf example_table \<and>
   convert_map_p2p_to_btc example_table (bt_insert [2] True bt_empty) = Ok (bt_insert 6 True bt_empty) \<and>
   convert_map_btc_to_p2p example_table (bt_insert 6 True bt_empty) = Ok (bt_insert [2] True bt_empty)"
proof -
  have "convert_map_p2p_to_btc example_table (bt_insert [2] True bt_empty) = Ok (bt_insert 6 True bt_empty)"
    by (simp add: convert_map_p2p_to_btc_def convert_map_def p2p_key_to_btc_key_def example_table_eq
        bt_collect_def btree_simps)
  then show ?thesis
    using convert_map_round_trips [OF example_table_wf] example_table_wf by blast
qed

end
