(* ===== verification/Pog_Musig.thy ===== *)
theory Pog_Musig
  imports Algebra
begin

text \<open>
  \<open>PogMusigF\<close> (\<open>crates/tx-graph/src/pog_musig_functor.rs\<close>): one datum for each MuSig2-signed input of
  the peg-out graph, the shape in which nonces, partial signatures and sighashes travel. The arrays
  of the source are lists whose lengths the invariant \<open>pog_wf\<close> fixes (the type fixes them in the
  source); a pair \<open>[T; 2]\<close> is a product. The unwraps of array conversions in the source cannot fail
  because every operation preserves \<open>pog_wf\<close>.
\<close>

section \<open>Definitions\<close>

definition num_post_assert_inputs :: nat where
  "num_post_assert_inputs = 39"

definition num_payout_optimistic_inputs :: nat where
  "num_payout_optimistic_inputs = 5"

definition num_payout_inputs :: nat where
  "num_payout_inputs = 4"

lemmas num_inputs_defs = num_post_assert_inputs_def num_payout_optimistic_inputs_def num_payout_inputs_def

datatype 'a pog_musig_f = PogMusigF
  (pog_challenge: 'a)
  (pog_pre_assert: 'a)
  (pog_post_assert: "'a list")
  (pog_payout_optimistic: "'a list")
  (pog_payout: "'a list")
  (pog_disprove: 'a)
  (pog_slash_stake: "('a \<times> 'a) list")

definition pog_wf :: "'a pog_musig_f \<Rightarrow> bool" where
  "pog_wf g \<longleftrightarrow> length (pog_post_assert g) = num_post_assert_inputs \<and>
     length (pog_payout_optimistic g) = num_payout_optimistic_inputs \<and>
     length (pog_payout g) = num_payout_inputs"

fun extend_pairs :: "('a \<times> 'a) list \<Rightarrow> 'a list" where
  "extend_pairs [] = []"
| "extend_pairs ((a, b) # ps) = a # b # extend_pairs ps"

definition pack :: "'a pog_musig_f \<Rightarrow> 'a list" where
  "pack g = [pog_challenge g, pog_pre_assert g] @ pog_post_assert g @ pog_payout_optimistic g @
     pog_payout g @ [pog_disprove g] @ extend_pairs (pog_slash_stake g)"

text \<open>
  The cursor of \<open>unpack\<close> is the remaining suffix: \<open>next\<close> takes one element, \<open>take(n).collect()\<close>
  followed by \<open>try_into\<close> fails unless \<open>n\<close> elements were left, and the final loop reads pairs until the
  cursor is exhausted.
\<close>

fun cursor_next :: "'a list \<Rightarrow> ('a \<times> 'a list) option" where
  "cursor_next [] = None"
| "cursor_next (x # xs) = Some (x, xs)"

definition cursor_take :: "nat \<Rightarrow> 'a list \<Rightarrow> ('a list \<times> 'a list) option" where
  "cursor_take n xs = (if length (take n xs) = n then Some (take n xs, drop n xs) else None)"

fun cursor_pairs :: "'a list \<Rightarrow> ('a \<times> 'a) list option" where
  "cursor_pairs [] = Some []"
| "cursor_pairs [a] = None"
| "cursor_pairs (a # b # xs) = map_option (\<lambda>ps. (a, b) # ps) (cursor_pairs xs)"

definition unpack :: "'a list \<Rightarrow> 'a pog_musig_f option" where
  "unpack graph_vec =
     Option.bind (cursor_next graph_vec) (\<lambda>(ch, c1).
     Option.bind (cursor_next c1) (\<lambda>(pre, c2).
     Option.bind (cursor_take num_post_assert_inputs c2) (\<lambda>(post, c3).
     Option.bind (cursor_take num_payout_optimistic_inputs c3) (\<lambda>(opt, c4).
     Option.bind (cursor_take num_payout_inputs c4) (\<lambda>(pay, c5).
     Option.bind (cursor_next c5) (\<lambda>(dis, c6).
     Option.bind (cursor_pairs c6) (\<lambda>slash.
       Some (PogMusigF ch pre post opt pay dis slash))))))))"

definition pog_map :: "('a \<Rightarrow> 'b) \<Rightarrow> 'a pog_musig_f \<Rightarrow> 'b pog_musig_f" where
  "pog_map f g = PogMusigF (f (pog_challenge g)) (f (pog_pre_assert g))
     (map f (pog_post_assert g)) (map f (pog_payout_optimistic g)) (map f (pog_payout g))
     (f (pog_disprove g)) (map (\<lambda>(a, b). (f a, f b)) (pog_slash_stake g))"

definition pog_zip :: "'a pog_musig_f \<Rightarrow> 'b pog_musig_f \<Rightarrow> ('a \<times> 'b) pog_musig_f" where
  "pog_zip g h = PogMusigF (pog_challenge g, pog_challenge h) (pog_pre_assert g, pog_pre_assert h)
     (zip (pog_post_assert g) (pog_post_assert h))
     (zip (pog_payout_optimistic g) (pog_payout_optimistic h))
     (zip (pog_payout g) (pog_payout h))
     (pog_disprove g, pog_disprove h)
     (map (\<lambda>((a0, a1), (b0, b1)). ((a0, b0), (a1, b1))) (zip (pog_slash_stake g) (pog_slash_stake h)))"

definition pog_zip_apply :: "('a \<Rightarrow> 'b) pog_musig_f \<Rightarrow> 'a pog_musig_f \<Rightarrow> 'b pog_musig_f" where
  "pog_zip_apply f g = PogMusigF (pog_challenge f (pog_challenge g)) (pog_pre_assert f (pog_pre_assert g))
     (map (\<lambda>(f, a). f a) (zip (pog_post_assert f) (pog_post_assert g)))
     (map (\<lambda>(f, a). f a) (zip (pog_payout_optimistic f) (pog_payout_optimistic g)))
     (map (\<lambda>(f, a). f a) (zip (pog_payout f) (pog_payout g)))
     (pog_disprove f (pog_disprove g))
     (map (\<lambda>((f0, f1), (a0, a1)). (f0 a0, f1 a1)) (zip (pog_slash_stake f) (pog_slash_stake g)))"

definition pog_zip_with ::
    "('a \<Rightarrow> 'b \<Rightarrow> 'c) \<Rightarrow> 'a pog_musig_f \<Rightarrow> 'b pog_musig_f \<Rightarrow> 'c pog_musig_f" where
  "pog_zip_with f a b = pog_map (\<lambda>(a, b). f a b) (pog_zip a b)"

definition pog_zip_with_3 ::
    "('a \<Rightarrow> 'b \<Rightarrow> 'c \<Rightarrow> 'o) \<Rightarrow> 'a pog_musig_f \<Rightarrow> 'b pog_musig_f \<Rightarrow> 'c pog_musig_f \<Rightarrow>
       'o pog_musig_f" where
  "pog_zip_with_3 f a b c = pog_map (\<lambda>((a, b), c). f a b c) (pog_zip (pog_zip a b) c)"

definition pog_zip_with_4 ::
    "('a \<Rightarrow> 'b \<Rightarrow> 'c \<Rightarrow> 'd \<Rightarrow> 'o) \<Rightarrow> 'a pog_musig_f \<Rightarrow> 'b pog_musig_f \<Rightarrow> 'c pog_musig_f \<Rightarrow>
       'd pog_musig_f \<Rightarrow> 'o pog_musig_f" where
  "pog_zip_with_4 f a b c d =
     pog_map (\<lambda>((a, b), (c, d)). f a b c d) (pog_zip (pog_zip a b) (pog_zip c d))"

definition pog_zip_with_5 ::
    "('a \<Rightarrow> 'b \<Rightarrow> 'c \<Rightarrow> 'd \<Rightarrow> 'e \<Rightarrow> 'o) \<Rightarrow> 'a pog_musig_f \<Rightarrow> 'b pog_musig_f \<Rightarrow> 'c pog_musig_f \<Rightarrow>
       'd pog_musig_f \<Rightarrow> 'e pog_musig_f \<Rightarrow> 'o pog_musig_f" where
  "pog_zip_with_5 f a b c d e =
     pog_map (\<lambda>((((a, b), c), d), e). f a b c d e)
       (pog_zip (pog_zip (pog_zip (pog_zip a b) c) d) e)"

definition pog_zip3 ::
    "'a pog_musig_f \<Rightarrow> 'b pog_musig_f \<Rightarrow> 'c pog_musig_f \<Rightarrow> ('a \<times> 'b \<times> 'c) pog_musig_f" where
  "pog_zip3 a b c = pog_zip_with_3 (\<lambda>a b c. (a, b, c)) a b c"

definition pog_zip4 ::
    "'a pog_musig_f \<Rightarrow> 'b pog_musig_f \<Rightarrow> 'c pog_musig_f \<Rightarrow> 'd pog_musig_f \<Rightarrow>
       ('a \<times> 'b \<times> 'c \<times> 'd) pog_musig_f" where
  "pog_zip4 a b c d = pog_zip_with_4 (\<lambda>a b c d. (a, b, c, d)) a b c d"

definition pog_zip5 ::
    "'a pog_musig_f \<Rightarrow> 'b pog_musig_f \<Rightarrow> 'c pog_musig_f \<Rightarrow> 'd pog_musig_f \<Rightarrow> 'e pog_musig_f \<Rightarrow>
       ('a \<times> 'b \<times> 'c \<times> 'd \<times> 'e) pog_musig_f" where
  "pog_zip5 a b c d e = pog_zip_with_5 (\<lambda>a b c d e. (a, b, c, d, e)) a b c d e"

definition pog_sequence_option :: "'a option pog_musig_f \<Rightarrow> 'a pog_musig_f option" where
  "pog_sequence_option g =
     Option.bind (pog_challenge g) (\<lambda>ch.
     Option.bind (pog_pre_assert g) (\<lambda>pre.
     Option.bind (sequence_list (pog_post_assert g)) (\<lambda>post.
     Option.bind (sequence_list (pog_payout_optimistic g)) (\<lambda>opt.
     Option.bind (sequence_list (pog_payout g)) (\<lambda>pay.
     Option.bind (pog_disprove g) (\<lambda>dis.
     Option.bind (sequence_list
        (map (\<lambda>(a, b). Option.bind a (\<lambda>a. map_option (\<lambda>b. (a, b)) b)) (pog_slash_stake g))) (\<lambda>slash.
       Some (PogMusigF ch pre post opt pay dis slash))))))))"

definition pog_sequence_result :: "('e, 'a) outcome pog_musig_f \<Rightarrow> ('e, 'a pog_musig_f) outcome" where
  "pog_sequence_result g =
     bind_outcome (pog_challenge g) (\<lambda>ch.
     bind_outcome (pog_pre_assert g) (\<lambda>pre.
     bind_outcome (traverse id (pog_post_assert g)) (\<lambda>post.
     bind_outcome (traverse id (pog_payout_optimistic g)) (\<lambda>opt.
     bind_outcome (traverse id (pog_payout g)) (\<lambda>pay.
     bind_outcome (pog_disprove g) (\<lambda>dis.
     bind_outcome (traverse (\<lambda>(ra, rb). bind_outcome ra (\<lambda>a. bind_outcome rb (\<lambda>b. Ok (a, b))))
        (pog_slash_stake g)) (\<lambda>slash.
       Ok (PogMusigF ch pre post opt pay dis slash))))))))"

definition pog_merge :: "('a \<Rightarrow> 'a \<Rightarrow> 'a) \<Rightarrow> 'a pog_musig_f \<Rightarrow> 'a pog_musig_f \<Rightarrow> 'a pog_musig_f" where
  "pog_merge merge g h = pog_zip_with merge g h"

definition pog_sequence_init :: "nat \<Rightarrow> 'a list pog_musig_f" where
  "pog_sequence_init n = PogMusigF [] []
     (replicate num_post_assert_inputs []) (replicate num_payout_optimistic_inputs [])
     (replicate num_payout_inputs []) [] (replicate n ([], []))"

definition sequence_pog_musig_f :: "'a pog_musig_f list \<Rightarrow> 'a list pog_musig_f" where
  "sequence_pog_musig_f graphs =
     foldl (pog_merge merge_vec)
       (pog_sequence_init (case graphs of [] \<Rightarrow> 0 | g # _ \<Rightarrow> length (pog_slash_stake g)))
       (map (pog_map (\<lambda>a. [a])) graphs)"

definition pog_unzip :: "('a \<times> 'b) pog_musig_f \<Rightarrow> 'a pog_musig_f \<times> 'b pog_musig_f" where
  "pog_unzip g =
     (PogMusigF (fst (pog_challenge g)) (fst (pog_pre_assert g))
        (map fst (pog_post_assert g)) (map fst (pog_payout_optimistic g)) (map fst (pog_payout g))
        (fst (pog_disprove g)) (map (\<lambda>((t0, _), (t1, _)). (t0, t1)) (pog_slash_stake g)),
      PogMusigF (snd (pog_challenge g)) (snd (pog_pre_assert g))
        (map snd (pog_post_assert g)) (map snd (pog_payout_optimistic g)) (map snd (pog_payout g))
        (snd (pog_disprove g)) (map (\<lambda>((_, u0), (_, u1)). (u0, u1)) (pog_slash_stake g)))"

text \<open>
  \<open>join_all\<close> awaits the packed futures and unpacks the outputs; \<open>await\<close> is the parameter that gives
  the output of a future.
\<close>

definition pog_join_all :: "('f \<Rightarrow> 'a) \<Rightarrow> 'f pog_musig_f \<Rightarrow> ('e, 'a pog_musig_f) outcome" where
  "pog_join_all await g = expect (unpack (map await (pack g)))"

section \<open>Packing and unpacking\<close>

lemma length_extend_pairs [simp]: "length (extend_pairs ps) = 2 * length ps"
  by (induction ps rule: extend_pairs.induct) auto

lemma cursor_pairs_Some_iff: "cursor_pairs xs = Some ps \<longleftrightarrow> xs = extend_pairs ps"
proof (induction xs arbitrary: ps rule: cursor_pairs.induct)
  case 1
  show ?case by (cases ps rule: extend_pairs.cases) auto
next
  case (2 a)
  show ?case by (cases ps rule: extend_pairs.cases) auto
next
  case (3 a b xs)
  then show ?case by (cases ps rule: extend_pairs.cases) auto
qed

lemma cursor_next_Some_iff: "cursor_next xs = Some (x, ys) \<longleftrightarrow> xs = x # ys"
  by (cases xs) auto

lemma cursor_take_Some_iff: "cursor_take n xs = Some (ys, zs) \<longleftrightarrow> xs = ys @ zs \<and> length ys = n"
  by (auto simp: cursor_take_def append_eq_conv_conj)

lemmas cursor_iffs = cursor_next_Some_iff cursor_take_Some_iff cursor_pairs_Some_iff

lemma unpack_Some_iff: "unpack xs = Some g \<longleftrightarrow> pog_wf g \<and> pack g = xs"
  by (cases g) (auto simp: unpack_def pack_def pog_wf_def bind_eq_Some_conv cursor_iffs)

lemma pog_wf_unpack_pack [simp]: "pog_wf g \<Longrightarrow> unpack (pack g) = Some g"
  by (simp add: unpack_Some_iff)

lemma length_pack: "pog_wf g \<Longrightarrow> length (pack g) = 51 + 2 * length (pog_slash_stake g)"
  by (simp add: pack_def pog_wf_def num_inputs_defs)

lemma pack_inj: "pog_wf g \<Longrightarrow> pog_wf h \<Longrightarrow> pack g = pack h \<longleftrightarrow> g = h"
  by (metis option.inject pog_wf_unpack_pack)

lemma split_exactly: "n \<le> length xs \<Longrightarrow> \<exists>ys zs. xs = ys @ zs \<and> length ys = n"
  by (rule exI [of _ "take n xs"], rule exI [of _ "drop n xs"]) simp

lemma even_extend_pairs: "even (length xs) \<Longrightarrow> \<exists>ps. xs = extend_pairs ps"
proof (induction xs rule: cursor_pairs.induct)
  case 1
  show ?case by (intro exI [of _ "[]"]) simp
next
  case (3 a b xs)
  then obtain ps where "xs = extend_pairs ps" by auto
  then show ?case by (intro exI [of _ "(a, b) # ps"]) simp
qed simp

lemma unpack_exists:
  assumes "51 \<le> length xs" and "odd (length xs)"
  shows "\<exists>g. unpack xs = Some g"
proof -
  obtain ch pre rest1 where xs: "xs = ch # pre # rest1"
    using assms(1) by (cases xs rule: cursor_pairs.cases) auto
  then obtain post rest2 where post: "rest1 = post @ rest2" "length post = 39"
    using split_exactly [of 39 rest1] assms(1) by auto
  then obtain opt rest3 where opt: "rest2 = opt @ rest3" "length opt = 5"
    using split_exactly [of 5 rest2] assms(1) xs by auto
  then obtain pay rest4 where pay: "rest3 = pay @ rest4" "length pay = 4"
    using split_exactly [of 4 rest3] assms(1) xs post by auto
  then obtain dis rest5 where dis: "rest4 = dis # rest5"
    using assms(1) xs post opt by (cases rest4) auto
  moreover have "even (length rest5)"
    using assms(2) by (simp add: xs post opt pay dis)
  then obtain ps where "rest5 = extend_pairs ps"
    using even_extend_pairs by blast
  ultimately have "unpack xs = Some (PogMusigF ch pre post opt pay dis ps)"
    by (simp add: unpack_Some_iff pog_wf_def pack_def num_inputs_defs xs post opt pay)
  then show ?thesis by blast
qed

text \<open>
  Packing and unpacking are inverse to each other: \<open>unpack\<close> returns a graph exactly when that
  graph (with arrays of the right sizes) packs to the given vector, and it succeeds on exactly the
  vectors of odd length at least 51, one entry for each signed input and two for each slash-stake
  transaction.
\<close>

theorem unpack_pack_round_trip:
  "(unpack xs = Some g \<longleftrightarrow> pog_wf g \<and> pack g = xs) \<and>
   ((\<exists>h. unpack xs = Some h) \<longleftrightarrow> 51 \<le> length xs \<and> odd (length xs))"
  using unpack_exists [of xs] by (auto simp: unpack_Some_iff length_pack)

section \<open>Every operation works slot by slot\<close>

lemma pog_wf_map [simp]: "pog_wf (pog_map f g) \<longleftrightarrow> pog_wf g"
  by (simp add: pog_wf_def pog_map_def)

lemma pog_wf_zip [simp]: "pog_wf g \<Longrightarrow> pog_wf h \<Longrightarrow> pog_wf (pog_zip g h)"
  by (simp add: pog_wf_def pog_zip_def)

lemma pog_wf_zip_apply [simp]: "pog_wf f \<Longrightarrow> pog_wf g \<Longrightarrow> pog_wf (pog_zip_apply f g)"
  by (simp add: pog_wf_def pog_zip_apply_def)

lemma pog_wf_zip_with [simp]: "pog_wf g \<Longrightarrow> pog_wf h \<Longrightarrow> pog_wf (pog_zip_with f g h)"
  by (simp add: pog_zip_with_def)

lemma pog_wf_merge [simp]: "pog_wf g \<Longrightarrow> pog_wf h \<Longrightarrow> pog_wf (pog_merge f g h)"
  by (simp add: pog_merge_def)

lemma extend_pairs_map: "extend_pairs (map (\<lambda>(a, b). (f a, f b)) ps) = map f (extend_pairs ps)"
  by (induction ps rule: extend_pairs.induct) auto

lemma extend_pairs_zip:
  "extend_pairs (map (\<lambda>((a0, a1), (b0, b1)). ((a0, b0), (a1, b1))) (zip ps qs)) =
     zip (extend_pairs ps) (extend_pairs qs)"
  by (induction ps qs rule: list_induct2') auto

lemma extend_pairs_inj [simp]: "extend_pairs ps = extend_pairs qs \<longleftrightarrow> ps = qs"
  by (metis cursor_pairs_Some_iff option.inject)

lemma pack_map: "pack (pog_map f g) = map f (pack g)"
  by (simp add: pack_def pog_map_def extend_pairs_map)

lemma pack_zip: "pog_wf g \<Longrightarrow> pog_wf h \<Longrightarrow> pack (pog_zip g h) = zip (pack g) (pack h)"
  by (simp add: pack_def pog_zip_def extend_pairs_zip pog_wf_def)

lemma pack_zip_with:
  "pog_wf g \<Longrightarrow> pog_wf h \<Longrightarrow> pack (pog_zip_with f g h) = map (\<lambda>(a, b). f a b) (zip (pack g) (pack h))"
  by (simp add: pog_zip_with_def pack_map pack_zip)

lemma pog_map_comp: "pog_map f (pog_map g x) = pog_map (f \<circ> g) x"
  by (simp add: pog_map_def comp_def case_prod_unfold)

lemma pog_map_id: "pog_map (\<lambda>a. a) x = x"
  by (cases x) (simp add: pog_map_def)

lemma pog_zip_apply_eq: "pog_zip_apply f g = pog_zip_with (\<lambda>f a. f a) f g"
  by (auto simp: pog_zip_apply_def pog_zip_with_def pog_map_def pog_zip_def comp_def
      case_prod_unfold)

lemma slash_stake_zip_with:
  "length (pog_slash_stake (pog_zip_with f g h)) =
     min (length (pog_slash_stake g)) (length (pog_slash_stake h))"
  by (simp add: pog_zip_with_def pog_map_def pog_zip_def)

text \<open>
  Zipping two graphs with the same number of slash-stake entries and unzipping the result gives
  back both graphs.
\<close>

theorem pog_unzip_zip:
  assumes "pog_wf g" and "pog_wf h"
    and "length (pog_slash_stake g) = length (pog_slash_stake h)"
  shows "pog_unzip (pog_zip g h) = (g, h)"
proof -
  have "map (\<lambda>((t0, _), (t1, _)). (t0, t1))
          (map (\<lambda>((a0, a1), (b0, b1)). ((a0, b0), (a1, b1))) (zip ps qs)) = ps \<and>
        map (\<lambda>((_, u0), (_, u1)). (u0, u1))
          (map (\<lambda>((a0, a1), (b0, b1)). ((a0, b0), (a1, b1))) (zip ps qs)) = qs"
    if "length ps = length qs" for ps :: "('a \<times> 'a) list" and qs :: "('b \<times> 'b) list"
    using that by (induction ps qs rule: list_induct2) auto
  then show ?thesis
    using assms by (cases g; cases h) (simp add: pog_unzip_def pog_zip_def pog_wf_def)
qed

theorem pog_unzip_zip_witness:
  "pog_unzip (pog_zip
     (PogMusigF 0 0 (replicate 39 0) (replicate 5 0) (replicate 4 0) (0::nat) [(1, 2)])
     (PogMusigF True True (replicate 39 True) (replicate 5 True) (replicate 4 True) False [(True, False)])) =
   (PogMusigF 0 0 (replicate 39 0) (replicate 5 0) (replicate 4 0) (0::nat) [(1, 2)],
    PogMusigF True True (replicate 39 True) (replicate 5 True) (replicate 4 True) False [(True, False)])"
  by (rule pog_unzip_zip) (simp_all add: pog_wf_def num_inputs_defs)

section \<open>Sequencing\<close>

lemma bind_pair_Some_iff:
  "Option.bind a (\<lambda>a. map_option (Pair a) b) = Some q \<longleftrightarrow> a = Some (fst q) \<and> b = Some (snd q)"
  by (cases a; cases b; cases q) auto

lemma pairs_Some_iff:
  "map (\<lambda>(a, b). Option.bind a (\<lambda>a. map_option (Pair a) b)) ps = map Some qs \<longleftrightarrow>
     ps = map (\<lambda>(a, b). (Some a, Some b)) qs"
proof (induction ps arbitrary: qs)
  case (Cons p ps)
  then show ?case
    by (cases qs; cases p) (auto simp: bind_pair_Some_iff)
qed auto

lemma pog_sequence_option_Some_iff: "pog_sequence_option g = Some h \<longleftrightarrow> g = pog_map Some h"
  by (cases g; cases h)
     (auto simp: pog_sequence_option_def pog_map_def bind_eq_Some_conv pairs_Some_iff
       sequence_list_Some_iff)

lemma set_extend_pairs: "set (extend_pairs ps) = fst ` set ps \<union> snd ` set ps"
  by (induction ps rule: extend_pairs.induct) auto

lemma map_Some_the: "None \<notin> set xs \<Longrightarrow> map (Some \<circ> the) xs = xs"
  by (rule map_idI) (metis comp_apply option.collapse)

lemma pog_all_Some:
  assumes "None \<notin> set (pack g)"
  shows "g = pog_map Some (pog_map the g)"
proof -
  have "map (\<lambda>(a, b). ((Some \<circ> the) a, (Some \<circ> the) b)) (pog_slash_stake g) = pog_slash_stake g"
    using assms by (intro map_idI) (force simp: pack_def set_extend_pairs)
  then have "pog_map (Some \<circ> the) g = g"
    using assms by (cases g) (auto simp: pog_map_def map_Some_the pack_def)
  then show ?thesis by (simp add: pog_map_comp)
qed

text \<open>
  A graph of optional data turns into an optional graph of data: the result is present exactly
  when every slot is filled, and it then holds the contents of the slots.
\<close>

theorem pog_sequence_option_spec:
  "(pog_sequence_option g = Some h \<longleftrightarrow> g = pog_map Some h) \<and>
   (pog_sequence_option g = None \<longleftrightarrow> None \<in> set (pack g))"
proof -
  have "(\<exists>h. g = pog_map Some h) \<longleftrightarrow> None \<notin> set (pack g)"
  proof
    assume "None \<notin> set (pack g)"
    then show "\<exists>h. g = pog_map Some h" using pog_all_Some by blast
  qed (auto simp: pack_map)
  then show ?thesis
    by (auto simp flip: pog_sequence_option_Some_iff)
qed

text \<open>
  \<open>sequence_result\<close> stops at the first error, in the order of \<open>pack\<close>: it is the traversal of the packed
  vector.
\<close>

lemma traverse_append:
  "traverse f (xs @ ys) =
     bind_outcome (traverse f xs) (\<lambda>as. bind_outcome (traverse f ys) (\<lambda>bs. Ok (as @ bs)))"
  by (induction xs) (auto simp: bind_outcome_assoc)

lemma traverse_pairs:
  "traverse id (extend_pairs ps) =
     bind_outcome (traverse (\<lambda>(ra, rb). bind_outcome ra (\<lambda>a. bind_outcome rb (\<lambda>b. Ok (a, b)))) ps)
       (\<lambda>qs. Ok (extend_pairs qs))"
  by (induction ps rule: extend_pairs.induct) (auto simp: bind_outcome_assoc)

lemma pog_sequence_result_pack:
  "map_outcome_ok pack (pog_sequence_result g) = traverse id (pack g)"
  by (simp add: pog_sequence_result_def pack_def traverse_append traverse_pairs bind_outcome_assoc
      map_outcome_ok_bind)

lemma traverse_id_Err:
  "traverse id xs = Err e \<longleftrightarrow> (\<exists>as ys. xs = map Ok as @ Err e # ys)"
proof (induction xs)
  case (Cons x xs)
  show ?case
  proof (cases x)
    case (Ok a)
    then have "traverse id (x # xs) = Err e \<longleftrightarrow> traverse id xs = Err e"
      by (auto simp: outcome_simps)
    also have "\<dots> \<longleftrightarrow> (\<exists>as ys. x # xs = map Ok as @ Err e # ys)"
      unfolding Cons.IH using Ok by (auto simp: Cons_eq_append_conv map_eq_Cons_conv)
         (metis list.simps(9))
    finally show ?thesis .
  qed (auto simp: Cons_eq_append_conv)
qed simp

lemma traverse_id_Ok: "traverse id xs = Ok ys \<longleftrightarrow> xs = map Ok ys"
  by (simp add: traverse_Ok_iff list_eq_iff_nth_eq list_all2_conv_all_nth) (auto simp: eq_commute)

lemma pog_sequence_result_wf:
  assumes "pog_wf g" and "pog_sequence_result g = Ok h"
  shows "pog_wf h"
proof -
  have len: "traverse f xs = Ok ys \<Longrightarrow> length ys = length xs" for f :: "'c \<Rightarrow> ('d, 'e) outcome" and xs ys
    by (auto simp: traverse_Ok_iff dest: list_all2_lengthD)
  show ?thesis
    using assms by (auto simp: pog_sequence_result_def pog_wf_def outcome_simps len)
qed

text \<open>
  A graph of results turns into a result of a graph: it is \<open>Ok\<close> exactly when every slot is, with
  the contents of the slots, and otherwise it is the first error in the order in which the slots are
  packed for the wire.
\<close>

theorem pog_sequence_result_spec:
  assumes "pog_wf g"
  shows "(pog_sequence_result g = Ok h \<longleftrightarrow> g = pog_map Ok h) \<and>
         (pog_sequence_result g = Err e \<longleftrightarrow> (\<exists>as ys. pack g = map Ok as @ Err e # ys))"
proof (intro conjI iffI)
  assume ok: "pog_sequence_result g = Ok h"
  then have "pack g = pack (pog_map Ok h)"
    using pog_sequence_result_pack [of g] by (simp add: pack_map flip: traverse_id_Ok)
  then show "g = pog_map Ok h"
    using assms pog_sequence_result_wf [OF assms ok] by (simp add: pack_inj)
next
  assume g: "g = pog_map Ok h"
  then have "map_outcome_ok pack (pog_sequence_result g) = Ok (pack h)"
    by (simp add: pog_sequence_result_pack pack_map traverse_id_Ok)
  then obtain h' where h': "pog_sequence_result g = Ok h'" "pack h' = pack h"
    by (auto simp: outcome_simps)
  moreover have "pog_wf h"
    using assms g by simp
  ultimately show "pog_sequence_result g = Ok h"
    using pog_sequence_result_wf [OF assms h'(1)] by (simp add: pack_inj)
qed (use pog_sequence_result_pack [of g] in \<open>auto simp flip: traverse_id_Err simp: outcome_simps\<close>)

definition example_pog :: "'a \<Rightarrow> 'a pog_musig_f" where
  "example_pog a = PogMusigF a a (replicate 39 a) (replicate 5 a) (replicate 4 a) a [(a, a)]"

lemma example_pog_wf: "pog_wf (example_pog a)"
  by (simp add: example_pog_def pog_wf_def num_inputs_defs)

lemma pog_map_example [simp]: "pog_map f (example_pog a) = example_pog (f a)"
  by (simp add: example_pog_def pog_map_def)

theorem pog_sequence_result_spec_witness:
  "pog_wf (example_pog (Ok True :: (nat, bool) outcome)) \<and>
   pog_sequence_result (example_pog (Ok True :: (nat, bool) outcome)) = Ok (example_pog True)"
  using pog_sequence_result_spec [OF example_pog_wf, of "Ok True :: (nat, bool) outcome" "example_pog True"]
  by (simp add: example_pog_wf)

section \<open>Merging and transposing\<close>

context merge_semigroup
begin

lemma pog_merge_assoc:
  "pog_merge merge (pog_merge merge a b) c = pog_merge merge a (pog_merge merge b c)"
proof -
  have lists: "map (\<lambda>(x, z). merge x z) (zip (map (\<lambda>(x, y). merge x y) (zip xs ys)) zs) =
               map (\<lambda>(x, z). merge x z) (zip xs (map (\<lambda>(y, z). merge y z) (zip ys zs)))" for xs ys zs
    by (simp add: list_eq_iff_nth_eq merge_assoc)
  then show ?thesis
    by (auto simp: pog_merge_def pog_zip_with_def pog_map_def pog_zip_def merge_assoc
        list_eq_iff_nth_eq case_prod_unfold)
qed

end

interpretation pog_vec_sg: merge_semigroup "pog_merge merge_vec"
  by unfold_locales (rule vec.pog_merge_assoc)

lemma pack_sequence_init:
  "pack (pog_sequence_init n) = replicate (51 + 2 * n) []" "pog_wf (pog_sequence_init n)"
  "length (pog_slash_stake (pog_sequence_init n)) = n"
proof -
  have "extend_pairs (replicate n ([], [])) = replicate (2 * n) ([] :: 'a list)"
    by (induction n) auto
  then show "pack (pog_sequence_init n :: 'a list pog_musig_f) = replicate (51 + 2 * n) []"
    unfolding pack_def pog_sequence_init_def num_inputs_defs pog_musig_f.sel
    by (simp only: replicate_add [symmetric] replicate_app_Cons_same append.simps
        flip: replicate.simps) (simp add: replicate_add [symmetric] numeral_eq_Suc)
qed (simp_all add: pog_sequence_init_def pog_wf_def)

lemma pack_nth_merge_single:
  assumes "pog_wf acc" and "pog_wf g"
    and "i < 51 + 2 * min (length (pog_slash_stake acc)) (length (pog_slash_stake g))"
  shows "pack (pog_merge merge_vec acc (pog_map (\<lambda>a. [a]) g)) ! i = pack acc ! i @ [pack g ! i]"
proof -
  have "i < length (pack acc)" "i < length (pack g)"
    using assms by (simp_all add: length_pack)
  then show ?thesis
    using assms(1,2) by (simp add: pog_merge_def pack_zip_with pack_map merge_vec_def)
qed

lemma slash_stake_map [simp]: "length (pog_slash_stake (pog_map f g)) = length (pog_slash_stake g)"
  by (simp add: pog_map_def)

lemma sequence_fold:
  assumes "pog_wf acc" and "\<forall>g \<in> set gs. pog_wf g"
  defines "res \<equiv> foldl (pog_merge merge_vec) acc (map (pog_map (\<lambda>a. [a])) gs)"
    and "n \<equiv> Min (insert (length (pog_slash_stake acc)) ((\<lambda>g. length (pog_slash_stake g)) ` set gs))"
  shows "pog_wf res \<and> length (pog_slash_stake res) = n \<and>
         (\<forall>i < 51 + 2 * n. pack res ! i = pack acc ! i @ map (\<lambda>g. pack g ! i) gs)"
  using assms(1,2) unfolding res_def n_def
proof (induction gs arbitrary: acc)
  case (Cons g gs)
  let ?acc = "pog_merge merge_vec acc (pog_map (\<lambda>a. [a]) g)"
  have len: "length (pog_slash_stake ?acc) = min (length (pog_slash_stake acc)) (length (pog_slash_stake g))"
    by (simp add: pog_merge_def slash_stake_zip_with)
  have Min: "Min (insert (length (pog_slash_stake ?acc)) ((\<lambda>g. length (pog_slash_stake g)) ` set gs)) =
             Min (insert (length (pog_slash_stake acc)) ((\<lambda>g. length (pog_slash_stake g)) ` set (g # gs)))"
    unfolding len by (cases "set gs = {}") (simp_all add: min.assoc)
  have wf: "pog_wf ?acc" using Cons.prems by simp
  let ?n = "Min (insert (length (pog_slash_stake acc)) ((\<lambda>g. length (pog_slash_stake g)) ` set (g # gs)))"
  have "?n \<le> min (length (pog_slash_stake acc)) (length (pog_slash_stake g))"
    by (intro min.boundedI Min_le) auto
  then have "pack ?acc ! i = pack acc ! i @ [pack g ! i]" if "i < 51 + 2 * ?n" for i
    using that Cons.prems by (intro pack_nth_merge_single) auto
  then show ?case
    using Cons.IH [OF wf] Cons.prems(2) unfolding Min by simp
qed simp

text \<open>
  Transposing a non-empty list of graphs keeps the shape of a graph: its number of slash-stake
  entries is the smallest one among the graphs, and slot \<open>i\<close> of the result lists slot \<open>i\<close> of each
  graph, in the order of the list.
\<close>

theorem sequence_pog_musig_f_spec:
  assumes "gs \<noteq> []" and "\<forall>g \<in> set gs. pog_wf g"
  defines "n \<equiv> Min ((\<lambda>g. length (pog_slash_stake g)) ` set gs)"
  shows "pog_wf (sequence_pog_musig_f gs) \<and>
         length (pog_slash_stake (sequence_pog_musig_f gs)) = n \<and>
         (\<forall>i < 51 + 2 * n. pack (sequence_pog_musig_f gs) ! i = map (\<lambda>g. pack g ! i) gs)"
proof -
  obtain g gs' where gs: "gs = g # gs'" using assms(1) by (cases gs) auto
  have "Min (insert (length (pog_slash_stake g)) ((\<lambda>g. length (pog_slash_stake g)) ` set gs)) = n"
    by (simp add: gs n_def)
  moreover have "n \<le> length (pog_slash_stake g)"
    by (simp add: gs n_def)
  ultimately show ?thesis
    using sequence_fold [OF pack_sequence_init(2) assms(2), of "length (pog_slash_stake g)"]
    by (simp add: sequence_pog_musig_f_def gs pack_sequence_init)
qed

theorem sequence_pog_musig_f_spec_witness:
  "pack (sequence_pog_musig_f [example_pog True, example_pog False]) ! 0 = [True, False] \<and>
   pack (sequence_pog_musig_f [example_pog True, example_pog False]) ! 52 = [True, False]"
proof -
  have "pack (example_pog a) ! i = a" if "i < 53" for i and a :: bool
  proof -
    have "set (pack (example_pog a)) \<subseteq> {a}" "length (pack (example_pog a)) = 53"
      using length_pack [OF example_pog_wf, of a] by (auto simp: pack_def example_pog_def)
    then have "pack (example_pog a) ! i \<in> {a}"
      using that nth_mem [of i "pack (example_pog a)"] by (metis subsetD)
    then show ?thesis by simp
  qed
  moreover have "Min ((\<lambda>g. length (pog_slash_stake g)) ` set [example_pog True, example_pog False]) = 1"
    by (simp add: example_pog_def)
  ultimately show ?thesis
    using sequence_pog_musig_f_spec [of "[example_pog True, example_pog False]"]
    by (simp add: example_pog_wf)
qed

text \<open>
  Joining a graph of futures never panics on the way back from the packed vector, and each
  output lands in the slot of its future.
\<close>

theorem pog_join_all_total:
  assumes "pog_wf g"
  shows "pog_join_all await g = (Ok (pog_map await g) :: ('e, 'a pog_musig_f) outcome)"
proof -
  have "unpack (map await (pack g)) = Some (pog_map await g)"
    using assms by (simp add: unpack_Some_iff pack_map)
  then show ?thesis by (simp add: pog_join_all_def)
qed

theorem pog_join_all_total_witness:
  "pog_join_all (\<lambda>n. n + 1) (example_pog 1) = (Ok (example_pog 2) :: (unit, int pog_musig_f) outcome)"
  using pog_join_all_total [OF example_pog_wf, of "\<lambda>n. n + 1" "1 :: int"] by simp

end
