(* ===== verification/Bitcoin.thy ===== *)
theory Bitcoin
  imports Prelude
begin

text \<open>
  Bitcoin transactions, scripts and taproot outputs, as far as the sources use them
  (\<open>crates/primitives/src/scripts\<close> over the third-party \<open>bitcoin\<close> crate). The data types of the
  \<open>bitcoin\<close> crate are records and words; its functions (transaction ids, signature hashes, key
  tweaking, the taproot builder) are the fields of the environment \<open>btc_env\<close>, an argument of the
  definitions that use them. An address is represented by its script pubkey, which does not depend on
  the network.
\<close>

section \<open>Transactions\<close>

type_synonym txid = "256 word"
type_synonym sha256_hash = "256 word"
type_synonym tap_node_hash = "256 word"
type_synonym script_buf = bytes
type_synonym control_block = bytes

text \<open>
  An \<open>Amount\<close> is a number of satoshis in a \<open>u64\<close>; its arithmetic panics when the result does not fit.
\<close>

type_synonym amount = nat

record out_point =
  op_txid :: txid
  op_vout :: u32

record tx_in =
  previous_output :: out_point
  sequence :: u32
  script_sig :: script_buf
  witness :: "bytes list"

record tx_out =
  txout_value :: amount
  script_pubkey :: script_buf

record transaction =
  tx_version :: int
  lock_time :: u32
  tx_input :: "tx_in list"
  tx_output :: "tx_out list"

datatype tap_sighash_type =
    SighashDefault | SighashAll | SighashNone | SighashSingle
  | SighashAllPlusAnyoneCanPay | SighashNonePlusAnyoneCanPay | SighashSinglePlusAnyoneCanPay

datatype prevouts = PrevoutsAll "tx_out list" | PrevoutsOne nat tx_out

text \<open>\<open>TaprootSpendInfo\<close>: the merkle root and the control block of each script of the tree.\<close>

record spend_info =
  merkle_root :: "tap_node_hash option"
  script_map :: "(script_buf \<times> control_block) list"

definition spend_info_control_block :: "spend_info \<Rightarrow> script_buf \<Rightarrow> control_block option" where
  "spend_info_control_block si s = map_of (script_map si) s"

text \<open>
  The functions of third-party crates. \<open>env_taproot_finalize\<close> is \<open>TaprootBuilder\<close> fed with the leaves
  at the given depths and then finalized with the internal key; \<open>None\<close> is a builder error.
  \<open>env_push_slice\<close> and \<open>env_push_int\<close> are \<open>Builder::push_slice\<close> and \<open>Builder::push_int\<close>: the bytes
  they append to a script. The two signature hashes are those of \<open>SighashCache\<close>.
\<close>

record btc_env =
  env_compute_txid :: "transaction \<Rightarrow> txid"
  env_minimal_non_dust :: "script_buf \<Rightarrow> amount"
  env_tap_tweak :: "xonly_key \<Rightarrow> tap_node_hash option \<Rightarrow> xonly_key"
  env_tap_leaf_hash :: "script_buf \<Rightarrow> tap_node_hash"
  env_taproot_finalize :: "xonly_key \<Rightarrow> (nat \<times> script_buf) list \<Rightarrow> spend_info option"
  env_unspendable_key :: xonly_key
  env_push_slice :: "bytes \<Rightarrow> script_buf"
  env_push_int :: "nat \<Rightarrow> script_buf"
  env_key_spend_hash :: "transaction \<Rightarrow> nat \<Rightarrow> prevouts \<Rightarrow> tap_sighash_type \<Rightarrow> 256 word option"
  env_script_spend_hash ::
    "transaction \<Rightarrow> nat \<Rightarrow> prevouts \<Rightarrow> tap_node_hash \<Rightarrow> tap_sighash_type \<Rightarrow> 256 word option"

section \<open>Amounts\<close>

definition amount_add :: "amount \<Rightarrow> amount \<Rightarrow> ('e, amount) outcome" where
  "amount_add a b = (if a + b < 2 ^ 64 then Ok (a + b) else Panic)"

definition amount_sub :: "amount \<Rightarrow> amount \<Rightarrow> ('e, amount) outcome" where
  "amount_sub a b = (if b \<le> a then Ok (a - b) else Panic)"

definition amount_mul :: "amount \<Rightarrow> nat \<Rightarrow> ('e, amount) outcome" where
  "amount_mul a n = (if a * n < 2 ^ 64 then Ok (a * n) else Panic)"

fun amount_sum_from :: "amount \<Rightarrow> amount list \<Rightarrow> ('e, amount) outcome" where
  "amount_sum_from acc [] = Ok acc"
| "amount_sum_from acc (a # as) = bind_outcome (amount_add acc a) (\<lambda>s. amount_sum_from s as)"

definition amount_sum :: "amount list \<Rightarrow> ('e, amount) outcome" where
  "amount_sum as = amount_sum_from 0 as"

text \<open>\<open>SEGWIT_MIN_AMOUNT\<close> and \<open>FUNDING_AMOUNT\<close> (\<open>constants.rs\<close>).\<close>

definition segwit_min_amount :: amount where
  "segwit_min_amount = 330"

definition funding_amount :: amount where
  "funding_amount = 2 * 39 * 330 + 330 + 3 * 330"

definition num_assert_data_tx :: nat where
  "num_assert_data_tx = 3 + 0 + 33 + 3"

section \<open>Scripts\<close>

abbreviation OP_TRUE :: u8 where "OP_TRUE \<equiv> 0x51"
abbreviation OP_RETURN :: u8 where "OP_RETURN \<equiv> 0x6a"
abbreviation OP_DROP :: u8 where "OP_DROP \<equiv> 0x75"
abbreviation OP_SIZE :: u8 where "OP_SIZE \<equiv> 0x82"
abbreviation OP_EQUAL :: u8 where "OP_EQUAL \<equiv> 0x87"
abbreviation OP_EQUALVERIFY :: u8 where "OP_EQUALVERIFY \<equiv> 0x88"
abbreviation OP_SHA256 :: u8 where "OP_SHA256 \<equiv> 0xa8"
abbreviation OP_CHECKSIG :: u8 where "OP_CHECKSIG \<equiv> 0xac"
abbreviation OP_CHECKSIGVERIFY :: u8 where "OP_CHECKSIGVERIFY \<equiv> 0xad"
abbreviation OP_CSV :: u8 where "OP_CSV \<equiv> 0xb2"

definition xonly_bytes :: "256 word \<Rightarrow> bytes" where
  "xonly_bytes k = be_bytes 32 k"

definition n_of_n_script :: "btc_env \<Rightarrow> xonly_key \<Rightarrow> script_buf" where
  "n_of_n_script env k = env_push_slice env (xonly_bytes k) @ [OP_CHECKSIG]"

definition n_of_n_with_timelock :: "btc_env \<Rightarrow> xonly_key \<Rightarrow> u32 \<Rightarrow> script_buf" where
  "n_of_n_with_timelock env k timelock =
     env_push_int env (unat timelock) @ [OP_CSV, OP_DROP] @ env_push_slice env (xonly_bytes k) @ [OP_CHECKSIG]"

text \<open>\<open>PushBytesBuf\<close> holds at most \<open>2 ^ 32 - 1\<close> bytes; the \<open>expect\<close> fails beyond.\<close>

definition op_return_nonce :: "btc_env \<Rightarrow> bytes \<Rightarrow> ('e, script_buf) outcome" where
  "op_return_nonce env d = (if length d < 2 ^ 32 then Ok (OP_RETURN # env_push_slice env d) else Panic)"

text \<open>
  \<open>Address::p2tr_tweaked\<close> and \<open>Address::p2tr\<close>: witness version 1 and the (tweaked) output key.
\<close>

definition p2tr_tweaked_script :: "xonly_key \<Rightarrow> script_buf" where
  "p2tr_tweaked_script k = [OP_TRUE, 0x20] @ xonly_bytes k"

definition p2tr_script :: "btc_env \<Rightarrow> xonly_key \<Rightarrow> tap_node_hash option \<Rightarrow> script_buf" where
  "p2tr_script env k root = p2tr_tweaked_script (env_tap_tweak env k root)"

section \<open>Building transactions\<close>

definition ENABLE_RBF_NO_LOCKTIME :: u32 where
  "ENABLE_RBF_NO_LOCKTIME = 0xFFFFFFFD"

definition create_tx :: "tx_in list \<Rightarrow> tx_out list \<Rightarrow> transaction" where
  "create_tx tx_ins tx_outs =
     \<lparr>tx_version = 2, lock_time = 0, tx_input = tx_ins, tx_output = tx_outs\<rparr>"

definition create_tx_ins :: "out_point list \<Rightarrow> tx_in list" where
  "create_tx_ins utxos =
     map (\<lambda>utxo. \<lparr>previous_output = utxo, sequence = ENABLE_RBF_NO_LOCKTIME, script_sig = [],
                  witness = []\<rparr>) utxos"

definition create_tx_outs :: "(script_buf \<times> amount) list \<Rightarrow> tx_out list" where
  "create_tx_outs scripts_and_amounts =
     map (\<lambda>(s, v). \<lparr>txout_value = v, script_pubkey = s\<rparr>) scripts_and_amounts"

text \<open>\<open>Sequence::from_height\<close> takes a \<open>u16\<close>; the callers truncate a \<open>u32\<close> with \<open>as u16\<close>.\<close>

definition sequence_from_height :: "u16 \<Rightarrow> u32" where
  "sequence_from_height h = ucast h"

section \<open>Taproot addresses\<close>

datatype spend_path =
    KeySpend xonly_key
  | ScriptSpend "script_buf list"
  | BothSpend xonly_key "script_buf list"

datatype builder_error = EmptyTapscript | TaprootBuilderError

fun ilog2 :: "nat \<Rightarrow> nat" where
  "ilog2 n = (if n < 2 then 0 else Suc (ilog2 (n div 2)))"

declare ilog2.simps [simp del]

definition taptree_max_depth :: "nat \<Rightarrow> nat" where
  "taptree_max_depth num_scripts = (if num_scripts > 1 then ilog2 (num_scripts - 1) + 1 else 0)"

definition num_penultimate_scripts :: "nat \<Rightarrow> nat" where
  "num_penultimate_scripts num_scripts = 2 ^ taptree_max_depth num_scripts - num_scripts"

definition num_deepest_scripts :: "nat \<Rightarrow> nat" where
  "num_deepest_scripts num_scripts = num_scripts - num_penultimate_scripts num_scripts"

definition taptree_depth :: "nat \<Rightarrow> nat \<Rightarrow> nat" where
  "taptree_depth num_scripts script_idx =
     (if script_idx < num_deepest_scripts num_scripts then taptree_max_depth num_scripts
      else taptree_max_depth num_scripts - 1)"

definition build_taptree ::
    "btc_env \<Rightarrow> xonly_key \<Rightarrow> script_buf list \<Rightarrow> (builder_error, script_buf \<times> spend_info) outcome" where
  "build_taptree env internal_key scripts =
     (case env_taproot_finalize env internal_key
             (map (\<lambda>(i, s). (taptree_depth (length scripts) i, s)) (enumerate 0 scripts)) of
        None \<Rightarrow> Err TaprootBuilderError
      | Some si \<Rightarrow> Ok (p2tr_script env internal_key (merkle_root si), si))"

fun create_taproot_addr ::
    "btc_env \<Rightarrow> spend_path \<Rightarrow> (builder_error, script_buf \<times> spend_info) outcome" where
  "create_taproot_addr env (KeySpend k) = build_taptree env k []"
| "create_taproot_addr env (ScriptSpend scripts) =
     (if scripts = [] then Err EmptyTapscript
      else build_taptree env (env_unspendable_key env) scripts)"
| "create_taproot_addr env (BothSpend k scripts) = build_taptree env k scripts"

section \<open>Taproot witnesses and signature hashes\<close>

datatype taproot_witness =
    WitnessKey
  | WitnessScript script_buf control_block
  | WitnessTweaked tap_node_hash

fun create_message_hash ::
    "btc_env \<Rightarrow> transaction \<Rightarrow> prevouts \<Rightarrow> taproot_witness \<Rightarrow> tap_sighash_type \<Rightarrow> nat \<Rightarrow>
       256 word option" where
  "create_message_hash env tx ps (WitnessScript s cb) ty i =
     env_script_spend_hash env tx i ps (env_tap_leaf_hash env s) ty"
| "create_message_hash env tx ps WitnessKey ty i = env_key_spend_hash env tx i ps ty"
| "create_message_hash env tx ps (WitnessTweaked h) ty i = env_key_spend_hash env tx i ps ty"

section \<open>Amounts: lemmas\<close>

lemma amount_iffs [outcome_simps]:
  "amount_add a b = Ok c \<longleftrightarrow> a + b < 2 ^ 64 \<and> c = a + b"
  "amount_sub a b = Ok c \<longleftrightarrow> b \<le> a \<and> c = a - b"
  "amount_mul a n = Ok c \<longleftrightarrow> a * n < 2 ^ 64 \<and> c = a * n"
  by (auto simp: amount_add_def amount_sub_def amount_mul_def)

lemma amount_sum_from_Ok:
  "amount_sum_from acc as = Ok s \<longleftrightarrow> s = acc + sum_list as \<and> (as = [] \<or> s < 2 ^ 64)"
  by (induction as arbitrary: acc s) (auto simp: outcome_simps)

lemma amount_sum_Ok:
  "amount_sum as = Ok s \<longleftrightarrow> s = sum_list as \<and> s < 2 ^ 64"
  unfolding amount_sum_def amount_sum_from_Ok by auto

lemma amount_sum_eq: "sum_list as < 2 ^ 64 \<Longrightarrow> amount_sum as = Ok (sum_list as)"
  by (simp add: amount_sum_Ok)

section \<open>The shape of the taproot tree\<close>

datatype merkle_tree = MLeaf | MNode merkle_tree merkle_tree

fun leaf_depths :: "merkle_tree \<Rightarrow> nat \<Rightarrow> nat list" where
  "leaf_depths MLeaf d = [d]"
| "leaf_depths (MNode l r) d = leaf_depths l (Suc d) @ leaf_depths r (Suc d)"

lemma ilog2_bounds: "0 < n \<Longrightarrow> 2 ^ ilog2 n \<le> n \<and> n < 2 ^ Suc (ilog2 n)"
proof (induction n rule: ilog2.induct)
  case (1 n)
  show ?case
  proof (cases "n < 2")
    case True
    with 1 show ?thesis by (simp add: ilog2.simps [of n])
  next
    case False
    then have "2 ^ ilog2 (n div 2) \<le> n div 2 \<and> n div 2 < 2 ^ Suc (ilog2 (n div 2))"
      using 1 by simp
    with False show ?thesis by (simp add: ilog2.simps [of n]) linarith
  qed
qed

text \<open>A full tree of height \<open>k\<close> whose first \<open>m\<close> leaves are split once more.\<close>

lemma split_perfect_tree:
  "m \<le> 2 ^ k \<Longrightarrow>
   \<exists>t. leaf_depths t d = replicate (2 * m) (Suc (d + k)) @ replicate (2 ^ k - m) (d + k)"
proof (induction k arbitrary: m d)
  case 0
  then consider "m = 0" | "m = 1" by force
  then show ?case
  proof cases
    case 1
    then show ?thesis by (intro exI [of _ MLeaf]) simp
  next
    case 2
    then show ?thesis by (intro exI [of _ "MNode MLeaf MLeaf"]) (simp add: numeral_2_eq_2)
  qed
next
  case (Suc k)
  let ?l = "min m (2 ^ k)" and ?r = "m - 2 ^ k"
  obtain l where l: "leaf_depths l (Suc d) =
      replicate (2 * ?l) (Suc (Suc d + k)) @ replicate (2 ^ k - ?l) (Suc d + k)"
    using Suc.IH [of ?l "Suc d"] by auto
  obtain r where r: "leaf_depths r (Suc d) =
      replicate (2 * ?r) (Suc (Suc d + k)) @ replicate (2 ^ k - ?r) (Suc d + k)"
  proof -
    have "?r \<le> 2 ^ k" using Suc.prems by simp
    then show thesis using Suc.IH [of ?r "Suc d"] that by blast
  qed
  have "leaf_depths (MNode l r) d =
        replicate (2 * m) (Suc (d + Suc k)) @ replicate (2 ^ Suc k - m) (d + Suc k)"
  proof (cases "m \<le> 2 ^ k")
    case True
    then show ?thesis using l r by (simp flip: replicate_add)
  next
    case False
    then have "2 * 2 ^ k + 2 * ?r = 2 * m" "2 ^ k - ?r = 2 ^ Suc k - m"
      using Suc.prems by auto
    with False show ?thesis using l r by (simp flip: replicate_add add: min_absorb2)
  qed
  then show ?case by blast
qed

lemma map_const_if:
  "m \<le> n \<Longrightarrow> map (\<lambda>i. if i < m then a else b) [0..<n] = replicate m a @ replicate (n - m) b"
  by (rule nth_equalityI) (auto simp: nth_append)

lemma max_depth_bounds:
  assumes "2 \<le> n"
  shows "2 ^ (taptree_max_depth n - 1) < n" and "n \<le> 2 ^ taptree_max_depth n"
    and "1 \<le> taptree_max_depth n"
  using ilog2_bounds [of "n - 1"] assms by (auto simp: taptree_max_depth_def)

lemma taptree_depths_tree:
  assumes "0 < n"
  shows "\<exists>t. leaf_depths t 0 = map (taptree_depth n) [0..<n]"
proof (cases "n = 1")
  case True
  have "leaf_depths MLeaf 0 = map (taptree_depth n) [0..<n]"
    using True by (simp add: taptree_depth_def taptree_max_depth_def num_deepest_scripts_def
        num_penultimate_scripts_def)
  then show ?thesis by blast
next
  case False
  then have n: "2 \<le> n" using assms by simp
  define k where "k = taptree_max_depth n - 1"
  note bounds = max_depth_bounds [OF n]
  have depth: "taptree_max_depth n = Suc k" using bounds(3) by (simp add: k_def)
  have m: "n - 2 ^ k \<le> 2 ^ k" and deepest: "num_deepest_scripts n = 2 * (n - 2 ^ k)"
    and rest: "n - num_deepest_scripts n = 2 ^ k - (n - 2 ^ k)" and le: "num_deepest_scripts n \<le> n"
    using bounds by (auto simp: depth num_deepest_scripts_def num_penultimate_scripts_def)
  have "map (taptree_depth n) [0..<n] =
        replicate (2 * (n - 2 ^ k)) (Suc (0 + k)) @ replicate (2 ^ k - (n - 2 ^ k)) (0 + k)"
    using map_const_if [OF le, of "Suc k" k]
    unfolding taptree_depth_def depth deepest rest [unfolded deepest] diff_Suc_1 add_0 .
  then show ?thesis
    using split_perfect_tree [OF m, of 0] by auto
qed

lemma max_depth_le:
  assumes "n \<le> 2 ^ d"
  shows "taptree_max_depth n \<le> d"
proof (cases "2 \<le> n")
  case True
  then have "(2::nat) ^ (taptree_max_depth n - 1) < 2 ^ d"
    using max_depth_bounds(1) [OF True] assms by linarith
  then have "taptree_max_depth n - 1 < d" by (simp add: power_strict_increasing_iff)
  then show ?thesis by simp
qed (simp add: taptree_max_depth_def)

text \<open>
  The contract of \<open>TaprootBuilder\<close>: leaves added in the order and at the depths of a binary tree of
  height at most 128 (\<open>TAPROOT_CONTROL_MAX_NODE_COUNT\<close>), or no leaf at all, finalize to spend
  information with a control block for every script.
\<close>

definition taproot_builder_ok :: "btc_env \<Rightarrow> bool" where
  "taproot_builder_ok env \<longleftrightarrow>
     (\<forall>key leaves. (leaves = [] \<or> (\<exists>t. leaf_depths t 0 = map fst leaves)) \<longrightarrow>
        (\<forall>d \<in> fst ` set leaves. d \<le> 128) \<longrightarrow>
        (\<exists>si. env_taproot_finalize env key leaves = Some si \<and>
              (\<forall>s \<in> snd ` set leaves. spend_info_control_block si s \<noteq> None)))"

lemma build_taptree_ok:
  assumes "taproot_builder_ok env" and "length scripts \<le> 2 ^ 128"
  shows "\<exists>out si. build_taptree env key scripts = Ok (out, si) \<and>
                  (\<forall>s \<in> set scripts. spend_info_control_block si s \<noteq> None)"
proof -
  define n where "n = length scripts"
  let ?leaves = "map (\<lambda>(i, s). (taptree_depth n i, s)) (enumerate 0 scripts)"
  have fsts: "map fst ?leaves = map (taptree_depth n) [0..<n]"
    by (rule nth_equalityI) (simp_all add: n_def nth_enumerate_eq)
  have snds: "snd ` set ?leaves = set scripts"
    by (simp add: image_image case_prod_unfold) (metis list.set_map map_snd_enumerate)
  have "?leaves = [] \<or> (\<exists>t. leaf_depths t 0 = map fst ?leaves)"
    unfolding fsts using taptree_depths_tree [of n] by (cases "n = 0") (auto simp: n_def)
  moreover have "\<forall>d \<in> fst ` set ?leaves. d \<le> 128"
    using max_depth_le [OF assms(2)]
    by (auto simp: taptree_depth_def n_def)
  ultimately obtain si where "env_taproot_finalize env key ?leaves = Some si"
    "\<forall>s \<in> set scripts. spend_info_control_block si s \<noteq> None"
    using assms(1) snds unfolding taproot_builder_ok_def by metis
  then show ?thesis by (simp add: build_taptree_def n_def)
qed

text \<open>
  For any positive number of scripts the depths computed by \<open>build_taptree\<close> are, from left to
  right, the depths of the leaves of a binary tree, as the taproot builder requires; all leaves are
  on the two deepest levels, so that no script has a longer merkle proof than necessary.
\<close>

theorem build_taptree_complete:
  assumes "0 < n"
  shows "(\<exists>t. leaf_depths t 0 = map (taptree_depth n) [0..<n]) \<and>
         (\<forall>i < n. taptree_depth n i \<le> taptree_max_depth n \<and>
                  taptree_max_depth n \<le> Suc (taptree_depth n i)) \<and>
         n \<le> 2 ^ taptree_max_depth n \<and> (2 \<le> n \<longrightarrow> 2 ^ (taptree_max_depth n - 1) < n)"
proof -
  have "n \<le> 2 ^ taptree_max_depth n"
    using max_depth_bounds(2) [of n] by (cases "2 \<le> n") (auto simp: taptree_max_depth_def)
  then show ?thesis
    using taptree_depths_tree [OF assms] max_depth_bounds(1) [of n] by (auto simp: taptree_depth_def)
qed

theorem build_taptree_complete_witness:
  "\<exists>t. leaf_depths t 0 = map (taptree_depth 5) [0..<5] \<and> taptree_max_depth 5 = 3"
  using build_taptree_complete [of 5] by (simp add: taptree_max_depth_def ilog2.simps)

end
