(* ===== verification/Connectors.thy ===== *)
theory Connectors
  imports Bitcoin
begin

text \<open>
  The connectors (\<open>crates/connectors\<close>): the taproot outputs by which the transactions of the peg-out
  graph are linked, with the scripts that lock them, the spend information and the position at which
  each of their spend paths is used. An \<open>expect\<close> on a taproot construction is a \<open>Panic\<close> of the model.
  The bitvm script fragments are fields of the environment \<open>graph_env\<close>.
\<close>

section \<open>Definitions\<close>

text \<open>
  A WOTS public key is a list of hash digests. The Groth16 keys are the public inputs hash, the field
  elements and the intermediate hashes.
\<close>

type_synonym wots_pk = "bytes list"

record wots_public_keys =
  withdrawal_fulfillment_pk :: wots_pk
  groth16_public_inputs :: wots_pk
  groth16_fqs :: "wots_pk list"
  groth16_hashes :: "wots_pk list"

text \<open>
  \<open>env_disprove_public_inputs\<close> is the compiled script of the leaf \<open>DisprovePublicInputsCommitment\<close>, a
  bitvm program over the two committed keys and the deposit transaction id; \<open>env_full_tapscripts\<close> is
  \<open>api_generate_full_tapscripts\<close>, the scripts that disprove a step of the proof verification.
\<close>

record graph_env = btc_env +
  env_wots256_checksig_verify :: "wots_pk \<Rightarrow> bytes"
  env_wots_hash_checksig_verify :: "wots_pk \<Rightarrow> bytes"
  env_wots_hash_len :: nat
  env_disprove_public_inputs :: "wots_public_keys \<Rightarrow> txid \<Rightarrow> script_buf"
  env_full_tapscripts :: "wots_public_keys \<Rightarrow> script_buf list"

type_synonym schnorr_sig = "512 word"

record taproot_signature =
  signature :: schnorr_sig
  sighash_type :: tap_sighash_type

abbreviation lib :: "graph_env \<Rightarrow> btc_env" where
  "lib env \<equiv> btc_env.truncate env"

definition taproot_address :: "btc_env \<Rightarrow> spend_path \<Rightarrow> (builder_error, script_buf) outcome" where
  "taproot_address env path = map_outcome_ok fst (expect_ok (create_taproot_addr env path))"

definition taproot_spend_info ::
    "btc_env \<Rightarrow> spend_path \<Rightarrow> script_buf \<Rightarrow> (builder_error, script_buf \<times> control_block) outcome" where
  "taproot_spend_info env path script =
     bind_outcome (expect_ok (create_taproot_addr env path)) (\<lambda>(_, si).
     bind_outcome (expect (spend_info_control_block si script)) (\<lambda>cb. Ok (script, cb)))"

subsection \<open>The kickoff connector K\<close>

definition connector_k_script :: "graph_env \<Rightarrow> wots_pk \<Rightarrow> script_buf" where
  "connector_k_script env pk =
     env_wots256_checksig_verify env pk @ replicate (256 div 4) OP_DROP @ [OP_TRUE]"

definition connector_k_address :: "graph_env \<Rightarrow> wots_pk \<Rightarrow> (builder_error, script_buf) outcome" where
  "connector_k_address env pk = taproot_address (lib env) (ScriptSpend [connector_k_script env pk])"

definition connector_k_spend_info ::
    "graph_env \<Rightarrow> wots_pk \<Rightarrow> (builder_error, script_buf \<times> control_block) outcome" where
  "connector_k_spend_info env pk =
     taproot_spend_info (lib env) (ScriptSpend [connector_k_script env pk]) (connector_k_script env pk)"

subsection \<open>The N-of-N connector\<close>

definition connector_n_of_n_address :: "graph_env \<Rightarrow> xonly_key \<Rightarrow> (builder_error, script_buf) outcome" where
  "connector_n_of_n_address env key = taproot_address (lib env) (KeySpend key)"

subsection \<open>The claim connectors C0 and C1\<close>

datatype 'w connector_c0_path = C0PayoutOptimistic 'w | C0Assert 'w

fun c0_input_index :: "'w connector_c0_path \<Rightarrow> u32" where
  "c0_input_index (C0PayoutOptimistic _) = 1"
| "c0_input_index (C0Assert _) = 0"

fun c0_sighash_type :: "'w connector_c0_path \<Rightarrow> tap_sighash_type" where
  "c0_sighash_type (C0PayoutOptimistic _) = SighashDefault"
| "c0_sighash_type (C0Assert _) = SighashDefault"

record connector_c0 =
  c0_n_of_n_agg_pubkey :: xonly_key
  pre_assert_timelock :: u32

definition c0_payout_script :: "graph_env \<Rightarrow> connector_c0 \<Rightarrow> script_buf" where
  "c0_payout_script env c = n_of_n_with_timelock (lib env) (c0_n_of_n_agg_pubkey c) (pre_assert_timelock c)"

definition c0_locking_script :: "graph_env \<Rightarrow> connector_c0 \<Rightarrow> (builder_error, script_buf) outcome" where
  "c0_locking_script env c =
     taproot_address (lib env) (BothSpend (c0_n_of_n_agg_pubkey c) [c0_payout_script env c])"

definition c0_spend_info :: "graph_env \<Rightarrow> connector_c0 \<Rightarrow> (builder_error, script_buf \<times> control_block) outcome" where
  "c0_spend_info env c =
     taproot_spend_info (lib env) (BothSpend (c0_n_of_n_agg_pubkey c) [c0_payout_script env c])
       (c0_payout_script env c)"

definition c0_merkle_root :: "graph_env \<Rightarrow> connector_c0 \<Rightarrow> tap_node_hash" where
  "c0_merkle_root env c = env_tap_leaf_hash env (c0_payout_script env c)"

datatype 'w connector_c1_path = C1PayoutOptimistic 'w | C1Challenge 'w

fun c1_input_index :: "'w connector_c1_path \<Rightarrow> u32" where
  "c1_input_index (C1PayoutOptimistic _) = 2"
| "c1_input_index (C1Challenge _) = 0"

fun c1_sighash_type :: "'w connector_c1_path \<Rightarrow> tap_sighash_type" where
  "c1_sighash_type (C1PayoutOptimistic _) = SighashDefault"
| "c1_sighash_type (C1Challenge _) = SighashSinglePlusAnyoneCanPay"

record connector_c1 =
  c1_n_of_n_agg_pubkey :: xonly_key
  payout_optimistic_timelock :: u32

definition c1_payout_script :: "graph_env \<Rightarrow> connector_c1 \<Rightarrow> script_buf" where
  "c1_payout_script env c = n_of_n_with_timelock (lib env) (c1_n_of_n_agg_pubkey c) (payout_optimistic_timelock c)"

definition c1_locking_script :: "graph_env \<Rightarrow> connector_c1 \<Rightarrow> (builder_error, script_buf) outcome" where
  "c1_locking_script env c =
     taproot_address (lib env) (BothSpend (c1_n_of_n_agg_pubkey c) [c1_payout_script env c])"

definition c1_spend_info :: "graph_env \<Rightarrow> connector_c1 \<Rightarrow> (builder_error, script_buf \<times> control_block) outcome" where
  "c1_spend_info env c =
     taproot_spend_info (lib env) (BothSpend (c1_n_of_n_agg_pubkey c) [c1_payout_script env c])
       (c1_payout_script env c)"

definition c1_merkle_root :: "graph_env \<Rightarrow> connector_c1 \<Rightarrow> tap_node_hash" where
  "c1_merkle_root env c = env_tap_leaf_hash env (c1_payout_script env c)"

subsection \<open>The CPFP connector\<close>

definition connector_cpfp_script :: "xonly_key \<Rightarrow> script_buf" where
  "connector_cpfp_script key = p2tr_tweaked_script key"

subsection \<open>The stake connectors P and S\<close>

datatype stake_spend_path =
    StakePayoutOptimistic schnorr_sig
  | StakePayout schnorr_sig
  | StakeDisprove taproot_signature
  | StakeSlash taproot_signature
  | StakeBurnPayouts bytes
  | StakeAdvance taproot_signature bytes

fun stake_input_index :: "stake_spend_path \<Rightarrow> u32" where
  "stake_input_index (StakePayoutOptimistic _) = 4"
| "stake_input_index (StakePayout _) = 3"
| "stake_input_index (StakeDisprove _) = 0"
| "stake_input_index (StakeSlash _) = 0"
| "stake_input_index (StakeBurnPayouts _) = 0"
| "stake_input_index (StakeAdvance _ _) = 1"

record connector_p =
  p_n_of_n_agg_pubkey :: xonly_key
  p_stake_hash :: sha256_hash

definition connector_p_script :: "graph_env \<Rightarrow> connector_p \<Rightarrow> script_buf" where
  "connector_p_script env c =
     [OP_SIZE] @ env_push_int env 0x20 @ [OP_EQUALVERIFY, OP_SHA256] @
     env_push_slice env (xonly_bytes (p_stake_hash c)) @ [OP_EQUAL]"

definition connector_p_address :: "graph_env \<Rightarrow> connector_p \<Rightarrow> (builder_error, script_buf) outcome" where
  "connector_p_address env c =
     taproot_address (lib env) (BothSpend (p_n_of_n_agg_pubkey c) [connector_p_script env c])"

definition connector_p_spend_info ::
    "graph_env \<Rightarrow> connector_p \<Rightarrow> (builder_error, script_buf \<times> control_block) outcome" where
  "connector_p_spend_info env c =
     taproot_spend_info (lib env) (BothSpend (p_n_of_n_agg_pubkey c) [connector_p_script env c])
       (connector_p_script env c)"

definition connector_p_merkle_root :: "graph_env \<Rightarrow> connector_p \<Rightarrow> tap_node_hash" where
  "connector_p_merkle_root env c = env_tap_leaf_hash env (connector_p_script env c)"

text \<open>
  The delay \<open>\<Delta>S\<close> is a relative lock time, given by the sequence number that encodes it; zero is
  pushed as \<open>OP_TRUE\<close>.
\<close>

record connector_stake =
  s_n_of_n_agg_pubkey :: xonly_key
  s_operator_pubkey :: xonly_key
  s_stake_hash :: sha256_hash
  s_delta :: u32

definition connector_stake_script :: "graph_env \<Rightarrow> connector_stake \<Rightarrow> script_buf" where
  "connector_stake_script env c =
     env_push_slice env (xonly_bytes (s_operator_pubkey c)) @ [OP_CHECKSIGVERIFY, OP_SIZE] @ env_push_int env 0x20 @
     [OP_EQUALVERIFY, OP_SHA256] @ env_push_slice env (xonly_bytes (s_stake_hash c)) @ [OP_EQUALVERIFY] @
     (if s_delta c \<noteq> 0 then env_push_int env (unat (s_delta c)) @ [OP_CSV] else [OP_TRUE])"

definition connector_stake_address :: "graph_env \<Rightarrow> connector_stake \<Rightarrow> (builder_error, script_buf) outcome" where
  "connector_stake_address env c =
     taproot_address (lib env) (BothSpend (s_n_of_n_agg_pubkey c) [connector_stake_script env c])"

definition connector_stake_spend_info ::
    "graph_env \<Rightarrow> connector_stake \<Rightarrow> (builder_error, script_buf \<times> control_block) outcome" where
  "connector_stake_spend_info env c =
     taproot_spend_info (lib env) (BothSpend (s_n_of_n_agg_pubkey c) [connector_stake_script env c])
       (connector_stake_script env c)"

definition connector_stake_merkle_root :: "graph_env \<Rightarrow> connector_stake \<Rightarrow> tap_node_hash" where
  "connector_stake_merkle_root env c = env_tap_leaf_hash env (connector_stake_script env c)"

subsection \<open>The assertion connectors A256 and AHash\<close>

text \<open>
  Both factories cut an array of \<open>n1 * k1 + n2 * k2\<close> keys into \<open>n1\<close> groups of \<open>k1\<close> and \<open>n2\<close> groups of
  \<open>k2\<close> keys, one connector each.
\<close>

definition create_connectors ::
    "nat \<Rightarrow> nat \<Rightarrow> nat \<Rightarrow> nat \<Rightarrow> 'k list \<Rightarrow> 'k list list \<times> 'k list list" where
  "create_connectors n1 k1 n2 k2 pks =
     (map (\<lambda>i. take k1 (drop (i * k1) pks)) [0..<n1],
      map (\<lambda>i. take k2 (drop (n1 * k1 + i * k2) pks)) [0..<n2])"

definition num_field_connectors_batch_1 :: nat where "num_field_connectors_batch_1 = 3"
definition num_field_elems_per_connector_batch_1 :: nat where "num_field_elems_per_connector_batch_1 = 5"
definition num_field_connectors_batch_2 :: nat where "num_field_connectors_batch_2 = 0"
definition num_field_elems_per_connector_batch_2 :: nat where "num_field_elems_per_connector_batch_2 = 0"
definition num_hash_connectors_batch_1 :: nat where "num_hash_connectors_batch_1 = 33"
definition num_hash_elems_per_connector_batch_1 :: nat where "num_hash_elems_per_connector_batch_1 = 10"
definition num_hash_connectors_batch_2 :: nat where "num_hash_connectors_batch_2 = 3"
definition num_hash_elems_per_connector_batch_2 :: nat where "num_hash_elems_per_connector_batch_2 = 11"

lemmas num_connectors_defs =
  num_field_connectors_batch_1_def num_field_elems_per_connector_batch_1_def
  num_field_connectors_batch_2_def num_field_elems_per_connector_batch_2_def
  num_hash_connectors_batch_1_def num_hash_elems_per_connector_batch_1_def
  num_hash_connectors_batch_2_def num_hash_elems_per_connector_batch_2_def

definition a256_create_connectors :: "wots_pk list \<Rightarrow> wots_pk list list \<times> wots_pk list list" where
  "a256_create_connectors pks =
     create_connectors num_field_connectors_batch_1 num_field_elems_per_connector_batch_1
       num_field_connectors_batch_2 num_field_elems_per_connector_batch_2 pks"

definition a_hash_create_connectors :: "wots_pk list \<Rightarrow> wots_pk list list \<times> wots_pk list list" where
  "a_hash_create_connectors pks =
     create_connectors num_hash_connectors_batch_1 num_hash_elems_per_connector_batch_1
       num_hash_connectors_batch_2 num_hash_elems_per_connector_batch_2 pks"

text \<open>
  The WOTS checks run in reverse key order; each leaves the committed nibbles on the stack, 64 for a
  256-bit value and two for each of the \<open>HASH_LEN\<close> bytes of a hash, which are dropped.
\<close>

definition a256_script :: "graph_env \<Rightarrow> wots_pk list \<Rightarrow> script_buf" where
  "a256_script env pks =
     concat (map (\<lambda>pk. env_wots256_checksig_verify env pk @ replicate 64 OP_DROP) (rev pks)) @ [OP_TRUE]"

definition a_hash_script :: "graph_env \<Rightarrow> wots_pk list \<Rightarrow> script_buf" where
  "a_hash_script env pks =
     concat (map (\<lambda>pk. env_wots_hash_checksig_verify env pk @
       replicate (env_wots_hash_len env * 8 div 4) OP_DROP) (rev pks)) @ [OP_TRUE]"

definition a256_address :: "graph_env \<Rightarrow> wots_pk list \<Rightarrow> (builder_error, script_buf) outcome" where
  "a256_address env pks = taproot_address (lib env) (ScriptSpend [a256_script env pks])"

definition a_hash_address :: "graph_env \<Rightarrow> wots_pk list \<Rightarrow> (builder_error, script_buf) outcome" where
  "a_hash_address env pks = taproot_address (lib env) (ScriptSpend [a_hash_script env pks])"

subsection \<open>The disprove connector A3\<close>

datatype connector_a3_leaf =
    A3Payout "schnorr_sig option"
  | A3DisproveProof script_buf "script_buf option"
  | A3DisprovePublicInputsCommitment txid "(bytes list \<times> bytes list) option"

fun a3_input_index :: "connector_a3_leaf \<Rightarrow> u32" where
  "a3_input_index (A3Payout _) = 1"
| "a3_input_index (A3DisproveProof _ _) = 0"
| "a3_input_index (A3DisprovePublicInputsCommitment _ _) = 0"

fun a3_sighash_type :: "connector_a3_leaf \<Rightarrow> tap_sighash_type" where
  "a3_sighash_type (A3Payout _) = SighashDefault"
| "a3_sighash_type (A3DisproveProof _ _) = SighashSingle"
| "a3_sighash_type (A3DisprovePublicInputsCommitment _ _) = SighashSingle"

fun a3_leaf_script ::
    "graph_env \<Rightarrow> xonly_key \<Rightarrow> wots_public_keys \<Rightarrow> u32 \<Rightarrow> connector_a3_leaf \<Rightarrow> script_buf" where
  "a3_leaf_script env key pks timelock (A3Payout _) = n_of_n_with_timelock (lib env) key timelock"
| "a3_leaf_script env key pks timelock (A3DisprovePublicInputsCommitment deposit_txid _) =
     env_disprove_public_inputs env pks deposit_txid"
| "a3_leaf_script env key pks timelock (A3DisproveProof disprove_script _) = disprove_script"

record connector_a3 =
  a3_wots_public_keys :: wots_public_keys
  a3_n_of_n_agg_pubkey :: xonly_key
  payout_timelock :: u32
  a3_output_script :: script_buf
  a3_spend_info :: spend_info

definition a3_taproot_address ::
    "graph_env \<Rightarrow> wots_public_keys \<Rightarrow> xonly_key \<Rightarrow> u32 \<Rightarrow> script_buf list \<Rightarrow> txid \<Rightarrow>
       (builder_error, script_buf \<times> spend_info) outcome" where
  "a3_taproot_address env pks key timelock disprove_scripts deposit_txid =
     expect_ok (create_taproot_addr (lib env) (ScriptSpend
       (map (a3_leaf_script env key pks timelock)
          ([A3Payout None, A3DisprovePublicInputsCommitment deposit_txid None] @
           map (\<lambda>s. A3DisproveProof s None) disprove_scripts))))"

definition connector_a3_new ::
    "graph_env \<Rightarrow> txid \<Rightarrow> xonly_key \<Rightarrow> wots_public_keys \<Rightarrow> u32 \<Rightarrow> (builder_error, connector_a3) outcome" where
  "connector_a3_new env deposit_txid key pks timelock =
     bind_outcome
       (a3_taproot_address env pks key timelock (env_full_tapscripts env pks) deposit_txid)
       (\<lambda>(script, si). Ok \<lparr>a3_wots_public_keys = pks, a3_n_of_n_agg_pubkey = key,
          payout_timelock = timelock, a3_output_script = script, a3_spend_info = si\<rparr>)"

definition a3_locking_script :: "connector_a3 \<Rightarrow> script_buf" where
  "a3_locking_script c = a3_output_script c"

definition a3_generate_spend_info ::
    "graph_env \<Rightarrow> connector_a3 \<Rightarrow> connector_a3_leaf \<Rightarrow> (builder_error, script_buf \<times> control_block) outcome" where
  "a3_generate_spend_info env c leaf =
     (let script = a3_leaf_script env (a3_n_of_n_agg_pubkey c) (a3_wots_public_keys c)
                     (payout_timelock c) leaf in
      bind_outcome (expect (spend_info_control_block (a3_spend_info c) script))
        (\<lambda>cb. Ok (script, cb)))"

end
