(* ===== verification/Tx_Graph.thy ===== *)
theory Tx_Graph
  imports Connectors Pog_Musig
begin

text \<open>
  The transactions of the peg-out graph and its generation (\<open>crates/tx-graph\<close>). Every transaction is
  a PSBT over an unsigned transaction, with the outputs it spends and the witnesses its signers need
  (\<open>CovenantTx\<close>); \<open>peg_out_graph_generate\<close> builds the claim, challenge, payout, assertion, disprove and
  slash-stake transactions of one operator and one deposit. A constructor that unwraps or subtracts
  amounts returns an \<open>outcome\<close> whose \<open>Panic\<close> is the failed unwrap.
\<close>

section \<open>Parameters\<close>

record peg_out_graph_params =
  tag :: bytes
  deposit_amount :: amount
  operator_fee :: amount
  challenge_cost :: amount
  refund_delay :: u16

record connector_params =
  param_payout_optimistic_timelock :: u32
  param_pre_assert_timelock :: u32
  param_payout_timelock :: u32

record stake_chain_params =
  stake_amount :: amount
  burn_amount :: amount
  delta :: u32
  slash_stake_count :: nat

text \<open>The build context: the aggregated key of the operators and the index of this one.\<close>

record build_context =
  ctx_aggregated_pubkey :: xonly_key
  ctx_own_index :: operator_idx

section \<open>Partially signed transactions\<close>

record psbt_input =
  witness_utxo :: "tx_out option"
  psbt_sighash_type :: "tap_sighash_type option"

record psbt =
  unsigned_tx :: transaction
  psbt_inputs :: "psbt_input list"

definition psbt_from_unsigned_tx :: "transaction \<Rightarrow> psbt option" where
  "psbt_from_unsigned_tx tx =
     (if list_all (\<lambda>i. script_sig i = [] \<and> witness i = []) (tx_input tx)
      then Some \<lparr>unsigned_tx = tx,
                 psbt_inputs = map (\<lambda>_. \<lparr>witness_utxo = None, psbt_sighash_type = None\<rparr>) (tx_input tx)\<rparr>
      else None)"

text \<open>
  The loop \<open>for (input, utxo) in psbt.inputs.iter_mut().zip(prevouts)\<close> that records the spent outputs
  and one sighash type.
\<close>

definition set_prevouts :: "tap_sighash_type \<Rightarrow> tx_out list \<Rightarrow> psbt \<Rightarrow> psbt" where
  "set_prevouts ty utxos p =
     p\<lparr>psbt_inputs :=
         map (\<lambda>(i, u). i\<lparr>witness_utxo := Some u, psbt_sighash_type := Some ty\<rparr>)
           (zip (psbt_inputs p) utxos) @ drop (length utxos) (psbt_inputs p)\<rparr>"

definition psbt_input_amount :: "psbt \<Rightarrow> (builder_error, amount) outcome" where
  "psbt_input_amount p =
     bind_outcome (traverse (\<lambda>i. map_outcome_ok txout_value (expect (witness_utxo i))) (psbt_inputs p))
       amount_sum"

record covenant_tx =
  ct_psbt :: psbt
  ct_prevouts :: prevouts
  ct_witnesses :: "taproot_witness list"

definition ct_tx :: "covenant_tx \<Rightarrow> transaction" where
  "ct_tx ct = unsigned_tx (ct_psbt ct)"

definition ct_txid :: "graph_env \<Rightarrow> covenant_tx \<Rightarrow> txid" where
  "ct_txid env ct = env_compute_txid env (ct_tx ct)"

definition ct_sighash_types :: "nat \<Rightarrow> covenant_tx \<Rightarrow> (builder_error, tap_sighash_type list) outcome" where
  "ct_sighash_types n ct =
     (if n \<le> length (psbt_inputs (ct_psbt ct))
      then Ok (map (\<lambda>i. case psbt_sighash_type i of Some ty \<Rightarrow> ty | None \<Rightarrow> SighashDefault)
                 (take n (psbt_inputs (ct_psbt ct))))
      else Panic)"

definition ct_sighashes :: "graph_env \<Rightarrow> nat \<Rightarrow> covenant_tx \<Rightarrow> (builder_error, 256 word list) outcome" where
  "ct_sighashes env n ct =
     bind_outcome (ct_sighash_types n ct) (\<lambda>types.
       traverse (\<lambda>(i, (ty, w)). expect (create_message_hash (lib env) (ct_tx ct) (ct_prevouts ct) w ty i))
         (enumerate 0 (zip types (ct_witnesses ct))))"

section \<open>The transactions\<close>

text \<open>The dust value of an output script.\<close>

abbreviation dust :: "graph_env \<Rightarrow> script_buf \<Rightarrow> amount" where
  "dust env s \<equiv> env_minimal_non_dust env s"

definition as_u16 :: "u32 \<Rightarrow> u16" where
  "as_u16 w = ucast w"

subsection \<open>Claim\<close>

definition CHALLENGE_VOUT :: u32 where "CHALLENGE_VOUT = 1"
definition SLASH_STAKE_VOUT :: u32 where "SLASH_STAKE_VOUT = 2"

record claim_tx =
  claim_psbt :: psbt
  claim_output_amount :: amount

definition claim_txid :: "graph_env \<Rightarrow> claim_tx \<Rightarrow> txid" where
  "claim_txid env c = env_compute_txid env (unsigned_tx (claim_psbt c))"

definition claim_tx_new ::
    "graph_env \<Rightarrow> out_point \<Rightarrow> wots_pk \<Rightarrow> connector_c0 \<Rightarrow> connector_c1 \<Rightarrow> xonly_key \<Rightarrow> xonly_key \<Rightarrow>
       (builder_error, claim_tx) outcome" where
  "claim_tx_new env stake_outpoint k c0 c1 n_of_n cpfp =
     bind_outcome (c1_locking_script env c1) (\<lambda>c1_out.
     bind_outcome (connector_n_of_n_address env n_of_n) (\<lambda>c2_out.
     bind_outcome (c0_locking_script env c0) (\<lambda>c0_out.
     let cpfp_script = connector_cpfp_script cpfp;
         c1_amt = dust env c1_out; c2_amt = dust env c2_out; cpfp_amt = dust env cpfp_script in
     bind_outcome (amount_sub funding_amount c1_amt) (\<lambda>r1.
     bind_outcome (amount_sub r1 c2_amt) (\<lambda>r2.
     bind_outcome (amount_sub r2 cpfp_amt) (\<lambda>c0_amt.
     bind_outcome (connector_k_address env k) (\<lambda>k_out.
     let tx = (create_tx (create_tx_ins [stake_outpoint])
                 (create_tx_outs [(c0_out, c0_amt), (c1_out, c1_amt), (c2_out, c2_amt),
                                  (cpfp_script, cpfp_amt)]))\<lparr>tx_version := 3\<rparr> in
     bind_outcome (expect (psbt_from_unsigned_tx tx)) (\<lambda>p.
       Ok \<lparr>claim_psbt = set_prevouts SighashDefault
              [\<lparr>txout_value = funding_amount, script_pubkey = k_out\<rparr>] p,
           claim_output_amount = c0_amt\<rparr>))))))))"

subsection \<open>Challenge\<close>

definition challenge_tx_new ::
    "graph_env \<Rightarrow> out_point \<Rightarrow> amount \<Rightarrow> xonly_key \<Rightarrow> connector_c1 \<Rightarrow> (builder_error, covenant_tx) outcome" where
  "challenge_tx_new env claim_outpoint challenge_amt operator_pubkey c1 =
     (let tx = create_tx (create_tx_ins [claim_outpoint])
                 (create_tx_outs [(p2tr_tweaked_script operator_pubkey, challenge_amt)]) in
     bind_outcome (expect (psbt_from_unsigned_tx tx)) (\<lambda>p.
     bind_outcome (c1_locking_script env c1) (\<lambda>c1_out.
     let prevout = \<lparr>txout_value = dust env c1_out, script_pubkey = c1_out\<rparr> in
       Ok \<lparr>ct_psbt = set_prevouts (c1_sighash_type (C1Challenge ())) [prevout] p,
           ct_prevouts = PrevoutsOne 0 prevout,
           ct_witnesses = [WitnessTweaked (c1_merkle_root env c1)]\<rparr>)))"

subsection \<open>Optimistic payout\<close>

definition payout_optimistic_tx_new ::
    "graph_env \<Rightarrow> txid \<Rightarrow> txid \<Rightarrow> out_point \<Rightarrow> amount \<Rightarrow> xonly_key \<Rightarrow> connector_c0 \<Rightarrow> connector_c1 \<Rightarrow>
       xonly_key \<Rightarrow> connector_p \<Rightarrow> xonly_key \<Rightarrow> (builder_error, covenant_tx) outcome" where
  "payout_optimistic_tx_new env claim deposit stake_outpoint dep_amount operator_key c0 c1 n_of_n cp cpfp =
     bind_outcome (amount_mul segwit_min_amount 3) (\<lambda>dust3.
     bind_outcome (amount_sub funding_amount dust3) (\<lambda>input_amount.
     if \<not> input_amount > 0 then Panic else
     let utxos = [\<lparr>op_txid = deposit, op_vout = 0\<rparr>, \<lparr>op_txid = claim, op_vout = 0\<rparr>,
                  \<lparr>op_txid = claim, op_vout = 1\<rparr>, \<lparr>op_txid = claim, op_vout = 2\<rparr>, stake_outpoint];
         ins = create_tx_ins utxos;
         c1_index = unat (c1_input_index (C1PayoutOptimistic ()));
         ins = ins[c1_index := (ins ! c1_index)
                 \<lparr>sequence := sequence_from_height (as_u16 (payout_optimistic_timelock c1))\<rparr>];
         cpfp_script = connector_cpfp_script cpfp; cpfp_amount = dust env cpfp_script in
     bind_outcome (taproot_address (lib env) (KeySpend operator_key)) (\<lambda>operator_out.
     bind_outcome (connector_n_of_n_address env n_of_n) (\<lambda>n_of_n_out.
     bind_outcome (c0_locking_script env c0) (\<lambda>c0_out.
     bind_outcome (c1_locking_script env c1) (\<lambda>c1_out.
     bind_outcome (connector_p_address env cp) (\<lambda>p_out.
     let ps = [\<lparr>txout_value = dep_amount, script_pubkey = n_of_n_out\<rparr>,
               \<lparr>txout_value = input_amount, script_pubkey = c0_out\<rparr>,
               \<lparr>txout_value = dust env c1_out, script_pubkey = c1_out\<rparr>,
               \<lparr>txout_value = dust env n_of_n_out, script_pubkey = n_of_n_out\<rparr>,
               \<lparr>txout_value = dust env p_out, script_pubkey = p_out\<rparr>] in
     bind_outcome (amount_sum (map txout_value ps)) (\<lambda>total.
     bind_outcome (amount_sub total cpfp_amount) (\<lambda>payout_amount.
     let tx = (create_tx ins (create_tx_outs [(operator_out, payout_amount),
                 (cpfp_script, cpfp_amount)]))\<lparr>tx_version := 3\<rparr> in
     bind_outcome (expect (psbt_from_unsigned_tx tx)) (\<lambda>p.
     bind_outcome (c1_spend_info env c1) (\<lambda>(payout_script, cb).
       Ok \<lparr>ct_psbt = set_prevouts SighashDefault ps p,
           ct_prevouts = PrevoutsAll ps,
           ct_witnesses = [WitnessKey, WitnessTweaked (c0_merkle_root env c0),
              WitnessScript payout_script cb, WitnessKey,
              WitnessTweaked (connector_p_merkle_root env cp)]\<rparr>)))))))))))"

subsection \<open>The assertion chain\<close>

definition pre_assert_outs :: nat where
  "pre_assert_outs = num_assert_data_tx + 1"

text \<open>
  The \<open>push\<close> of one bitcommitment output: twice the dust value, for the two dust outputs of the
  assert-data transaction that spends it.
\<close>

definition commitment_out ::
    "graph_env \<Rightarrow> (builder_error, script_buf) outcome \<Rightarrow> (builder_error, script_buf \<times> amount) outcome" where
  "commitment_out env addr =
     bind_outcome addr (\<lambda>script. map_outcome_ok (Pair script) (amount_mul (dust env script) 2))"

definition pre_assert_tx_new ::
    "graph_env \<Rightarrow> txid \<Rightarrow> connector_c0 \<Rightarrow> xonly_key \<Rightarrow> wots_pk list \<Rightarrow> wots_pk list \<Rightarrow>
       (builder_error, covenant_tx) outcome" where
  "pre_assert_tx_new env claim c0 cpfp pks256 pks_hash =
     bind_outcome (amount_mul segwit_min_amount 3) (\<lambda>dust3.
     bind_outcome (amount_sub funding_amount dust3) (\<lambda>input_amount.
     if \<not> input_amount > 0 then Panic else
     let (b256_1, b256_2) = a256_create_connectors pks256;
         (bhash_1, bhash_2) = a_hash_create_connectors pks_hash in
     bind_outcome (traverse (\<lambda>c. commitment_out env (a256_address env c)) b256_1) (\<lambda>o1.
     bind_outcome (traverse (\<lambda>c. commitment_out env (a256_address env c)) b256_2) (\<lambda>o2.
     bind_outcome (traverse (\<lambda>c. commitment_out env (a_hash_address env c)) bhash_1) (\<lambda>o3.
     bind_outcome (traverse (\<lambda>c. commitment_out env (a_hash_address env c)) bhash_2) (\<lambda>o4.
     let cpfp_script = connector_cpfp_script cpfp;
         scripts_and_amounts = o1 @ o2 @ o3 @ o4 @ [(cpfp_script, dust env cpfp_script)] in
     bind_outcome (amount_sum (map snd scripts_and_amounts)) (\<lambda>total_assertion_amount.
     bind_outcome (amount_sub input_amount total_assertion_amount) (\<lambda>net_stake.
     let outs = create_tx_outs scripts_and_amounts;
         ins = create_tx_ins [\<lparr>op_txid = claim, op_vout = 0\<rparr>];
         ins = ins[0 := (ins ! 0)\<lparr>sequence := sequence_from_height (as_u16 (pre_assert_timelock c0))\<rparr>];
         tx = (create_tx ins outs)\<lparr>tx_version := 3\<rparr> in
     bind_outcome (expect (psbt_from_unsigned_tx tx)) (\<lambda>p.
     bind_outcome (c0_locking_script env c0) (\<lambda>c0_out.
     let ps = [\<lparr>txout_value = input_amount, script_pubkey = c0_out\<rparr>] in
     bind_outcome (c0_spend_info env c0) (\<lambda>(script, cb).
     if length outs \<noteq> pre_assert_outs then Panic else
       Ok \<lparr>ct_psbt = set_prevouts SighashDefault ps p, ct_prevouts = PrevoutsAll ps,
           ct_witnesses = [WitnessScript script cb]\<rparr>)))))))))))"

definition assert_data_psbt ::
    "graph_env \<Rightarrow> txid \<Rightarrow> script_buf list \<Rightarrow> xonly_key \<Rightarrow> xonly_key \<Rightarrow> nat \<Rightarrow> (builder_error, psbt) outcome" where
  "assert_data_psbt env pre_assert_txid locking_scripts n_of_n cpfp i =
     bind_outcome (amount_mul segwit_min_amount 2) (\<lambda>input_amount.
     bind_outcome (expect (list_get locking_scripts i)) (\<lambda>locking_script.
     bind_outcome (connector_n_of_n_address env n_of_n) (\<lambda>output_script.
     let cpfp_script = connector_cpfp_script cpfp;
         tx = (create_tx (create_tx_ins [\<lparr>op_txid = pre_assert_txid, op_vout = of_nat i\<rparr>])
                 (create_tx_outs [(output_script, dust env output_script),
                                  (cpfp_script, dust env cpfp_script)]))\<lparr>tx_version := 3\<rparr> in
     bind_outcome (expect (psbt_from_unsigned_tx tx)) (\<lambda>p.
       Ok (set_prevouts SighashDefault
             [\<lparr>txout_value = input_amount, script_pubkey = locking_script\<rparr>] p)))))"

definition assert_data_batch_new ::
    "graph_env \<Rightarrow> txid \<Rightarrow> script_buf list \<Rightarrow> xonly_key \<Rightarrow> xonly_key \<Rightarrow> (builder_error, psbt list) outcome" where
  "assert_data_batch_new env pre_assert_txid locking_scripts n_of_n cpfp =
     traverse (assert_data_psbt env pre_assert_txid locking_scripts n_of_n cpfp) [0..<num_assert_data_tx]"

definition assert_data_txids :: "graph_env \<Rightarrow> psbt list \<Rightarrow> txid list" where
  "assert_data_txids env batch = map (\<lambda>p. env_compute_txid env (unsigned_tx p)) batch"

record post_assert_tx = covenant_tx +
  post_assert_output_amount :: amount

definition post_assert_tx_new ::
    "graph_env \<Rightarrow> txid list \<Rightarrow> xonly_key \<Rightarrow> connector_a3 \<Rightarrow> xonly_key \<Rightarrow> (builder_error, post_assert_tx) outcome" where
  "post_assert_tx_new env data_txids n_of_n a3 cpfp =
     bind_outcome (amount_mul segwit_min_amount num_assert_data_tx) (\<lambda>input_amount.
     let ins = create_tx_ins (map (\<lambda>txid. \<lparr>op_txid = txid, op_vout = 0\<rparr>) data_txids);
         cpfp_script = connector_cpfp_script cpfp; cpfp_amount = dust env cpfp_script in
     bind_outcome (amount_sub input_amount cpfp_amount) (\<lambda>net_amount.
     let tx = (create_tx ins (create_tx_outs [(a3_locking_script a3, net_amount),
                 (cpfp_script, cpfp_amount)]))\<lparr>tx_version := 3\<rparr> in
     bind_outcome (expect (psbt_from_unsigned_tx tx)) (\<lambda>p.
     bind_outcome (connector_n_of_n_address env n_of_n) (\<lambda>data_out.
     let ps = replicate num_assert_data_tx \<lparr>txout_value = dust env data_out, script_pubkey = data_out\<rparr> in
       Ok \<lparr>ct_psbt = set_prevouts SighashDefault ps p, ct_prevouts = PrevoutsAll ps,
           ct_witnesses = replicate num_assert_data_tx WitnessKey,
           post_assert_output_amount = net_amount\<rparr>))))"

record assert_chain =
  ac_pre_assert :: covenant_tx
  ac_assert_data :: "psbt list"
  ac_post_assert :: post_assert_tx

definition assert_chain_new ::
    "graph_env \<Rightarrow> txid \<Rightarrow> connector_c0 \<Rightarrow> xonly_key \<Rightarrow> connector_a3 \<Rightarrow> xonly_key \<Rightarrow> wots_pk list \<Rightarrow>
       wots_pk list \<Rightarrow> (builder_error, assert_chain) outcome" where
  "assert_chain_new env claim c0 n_of_n a3 cpfp pks_hash pks256 =
     bind_outcome (pre_assert_tx_new env claim c0 cpfp pks256 pks_hash) (\<lambda>pre.
     let scripts = take num_assert_data_tx (map script_pubkey (tx_output (ct_tx pre))) in
     if length scripts \<noteq> num_assert_data_tx then Panic else
     bind_outcome (assert_data_batch_new env (ct_txid env pre) scripts n_of_n cpfp) (\<lambda>batch.
     bind_outcome (post_assert_tx_new env (assert_data_txids env batch) n_of_n a3 cpfp) (\<lambda>post.
       Ok \<lparr>ac_pre_assert = pre, ac_assert_data = batch, ac_post_assert = post\<rparr>)))"

subsection \<open>Payout, disprove and slash stake\<close>

definition payout_tx_new ::
    "graph_env \<Rightarrow> txid \<Rightarrow> txid \<Rightarrow> out_point \<Rightarrow> out_point \<Rightarrow> amount \<Rightarrow> xonly_key \<Rightarrow> connector_a3 \<Rightarrow>
       xonly_key \<Rightarrow> connector_p \<Rightarrow> xonly_key \<Rightarrow> (builder_error, covenant_tx) outcome" where
  "payout_tx_new env post_assert deposit claim_outpoint stake_outpoint dep_amount operator_key a3 n_of_n
     cp cpfp =
     bind_outcome (amount_mul segwit_min_amount (num_assert_data_tx - 1)) (\<lambda>input_from_post_assert.
     let ins = create_tx_ins [\<lparr>op_txid = deposit, op_vout = 0\<rparr>, \<lparr>op_txid = post_assert, op_vout = 0\<rparr>,
                 claim_outpoint, stake_outpoint];
         seq = sequence_from_height (as_u16 (payout_timelock a3));
         ins = ins[1 := (ins ! 1)\<lparr>sequence := seq\<rparr>];
         cpfp_script = connector_cpfp_script cpfp; cpfp_amount = dust env cpfp_script in
     if \<not> seq < 2 ^ 31 then Panic else
     bind_outcome (taproot_address (lib env) (KeySpend operator_key)) (\<lambda>operator_out.
     bind_outcome (connector_n_of_n_address env n_of_n) (\<lambda>n_of_n_out.
     bind_outcome (connector_p_address env cp) (\<lambda>p_out.
     let ps = [\<lparr>txout_value = dep_amount, script_pubkey = n_of_n_out\<rparr>,
               \<lparr>txout_value = input_from_post_assert, script_pubkey = a3_locking_script a3\<rparr>,
               \<lparr>txout_value = dust env n_of_n_out, script_pubkey = n_of_n_out\<rparr>,
               \<lparr>txout_value = dust env p_out, script_pubkey = p_out\<rparr>] in
     bind_outcome (amount_sum (map txout_value ps)) (\<lambda>total.
     bind_outcome (amount_sub total cpfp_amount) (\<lambda>payout_amount.
     let tx = (create_tx ins (create_tx_outs [(operator_out, payout_amount),
                 (cpfp_script, cpfp_amount)]))\<lparr>tx_version := 3\<rparr> in
     bind_outcome (expect (psbt_from_unsigned_tx tx)) (\<lambda>p.
     bind_outcome (a3_generate_spend_info env a3 (A3Payout None)) (\<lambda>(script, cb).
       Ok \<lparr>ct_psbt = set_prevouts SighashDefault ps p, ct_prevouts = PrevoutsAll ps,
           ct_witnesses = [WitnessKey, WitnessScript script cb, WitnessKey,
              WitnessTweaked (connector_p_merkle_root env cp)]\<rparr>))))))))"

definition disprove_tx_new ::
    "graph_env \<Rightarrow> txid \<Rightarrow> out_point \<Rightarrow> amount \<Rightarrow> amount \<Rightarrow> connector_a3 \<Rightarrow> connector_stake \<Rightarrow>
       (builder_error, covenant_tx) outcome" where
  "disprove_tx_new env post_assert stake_outpoint stake_amt burn_amt a3 stake =
     bind_outcome (amount_mul segwit_min_amount (num_assert_data_tx - 1)) (\<lambda>input_amount.
     let ins = create_tx_ins [stake_outpoint, \<lparr>op_txid = post_assert, op_vout = 0\<rparr>] in
     bind_outcome (taproot_address (lib env) (KeySpend (env_unspendable_key env))) (\<lambda>burn_script.
     let tx = create_tx ins (create_tx_outs [(burn_script, burn_amt)]) in
     bind_outcome (expect (psbt_from_unsigned_tx tx)) (\<lambda>p.
     bind_outcome (connector_stake_address env stake) (\<lambda>stake_out.
     let ps = [\<lparr>txout_value = stake_amt, script_pubkey = stake_out\<rparr>,
               \<lparr>txout_value = input_amount, script_pubkey = a3_locking_script a3\<rparr>];
         p = set_prevouts SighashDefault ps p;
         p = p\<lparr>psbt_inputs := (psbt_inputs p)[0 := (psbt_inputs p ! 0)
                                 \<lparr>psbt_sighash_type := Some SighashSingle\<rparr>]\<rparr> in
       Ok \<lparr>ct_psbt = p, ct_prevouts = PrevoutsAll ps,
           ct_witnesses = [WitnessTweaked (connector_stake_merkle_root env stake)]\<rparr>))))"

definition slash_stake_tx_new ::
    "graph_env \<Rightarrow> out_point \<Rightarrow> out_point \<Rightarrow> stake_chain_params \<Rightarrow> xonly_key \<Rightarrow> connector_stake \<Rightarrow>
       (builder_error, covenant_tx) outcome" where
  "slash_stake_tx_new env stake_outpoint claim_outpoint params n_of_n stake =
     (let ins = create_tx_ins [claim_outpoint, stake_outpoint] in
     bind_outcome (taproot_address (lib env) (KeySpend (env_unspendable_key env))) (\<lambda>burn_script.
     bind_outcome (amount_sub (burn_amount params) segwit_min_amount) (\<lambda>burn.
     let tx = create_tx ins [\<lparr>txout_value = segwit_min_amount, script_pubkey = burn_script\<rparr>,
                             \<lparr>txout_value = burn, script_pubkey = burn_script\<rparr>] in
     bind_outcome (expect (psbt_from_unsigned_tx tx)) (\<lambda>p.
     bind_outcome (connector_n_of_n_address env n_of_n) (\<lambda>claim_out.
     bind_outcome (connector_stake_address env stake) (\<lambda>stake_out.
     let ps = [\<lparr>txout_value = dust env claim_out, script_pubkey = claim_out\<rparr>,
               \<lparr>txout_value = stake_amount params, script_pubkey = stake_out\<rparr>] in
       Ok \<lparr>ct_psbt = set_prevouts SighashSingle ps p, ct_prevouts = PrevoutsAll ps,
           ct_witnesses = [WitnessKey, WitnessTweaked (connector_stake_merkle_root env stake)]\<rparr>))))))"

section \<open>The peg-out graph\<close>

record peg_out_graph_input =
  stake_outpoint :: out_point
  withdrawal_fulfillment_outpoint :: out_point
  stake_hash :: sha256_hash
  input_wots_public_keys :: wots_public_keys
  operator_pubkey :: xonly_key

record peg_out_graph_summary =
  stake_txid :: txid
  summary_claim_txid :: txid
  payout_optimistic_txid :: txid
  pre_assert_txid :: txid
  summary_assert_data_txids :: "txid list"
  post_assert_txid :: txid
  payout_txid :: txid
  slash_stake_txids :: "txid list"

record peg_out_graph =
  pog_claim_tx :: claim_tx
  pog_challenge_tx :: covenant_tx
  pog_payout_optimistic_tx :: covenant_tx
  pog_assert_chain :: assert_chain
  pog_payout_tx :: covenant_tx
  pog_disprove_tx :: covenant_tx
  pog_slash_stake_txs :: "covenant_tx list"

record peg_out_graph_connectors =
  kickoff :: wots_pk
  claim_out_0 :: connector_c0
  claim_out_1 :: connector_c1
  n_of_n_key :: xonly_key
  connector_cpfp :: xonly_key
  post_assert_out_0 :: connector_a3
  assert_data_hash_factory :: "wots_pk list"
  assert_data256_factory :: "wots_pk list"
  stake_connector :: connector_stake
  hashlock_payout :: connector_p

definition peg_out_graph_connectors_new ::
    "graph_env \<Rightarrow> build_context \<Rightarrow> txid \<Rightarrow> connector_params \<Rightarrow> xonly_key \<Rightarrow> sha256_hash \<Rightarrow> u32 \<Rightarrow>
       wots_public_keys \<Rightarrow> (builder_error, peg_out_graph_connectors) outcome" where
  "peg_out_graph_connectors_new env ctx deposit params operator_key hash d pks =
     (let n_of_n = ctx_aggregated_pubkey ctx in
     bind_outcome (connector_a3_new env deposit n_of_n pks (param_payout_timelock params)) (\<lambda>a3.
       Ok \<lparr>kickoff = withdrawal_fulfillment_pk pks,
           claim_out_0 = \<lparr>c0_n_of_n_agg_pubkey = n_of_n,
                          pre_assert_timelock = param_pre_assert_timelock params\<rparr>,
           claim_out_1 = \<lparr>c1_n_of_n_agg_pubkey = n_of_n,
                          payout_optimistic_timelock = param_payout_optimistic_timelock params\<rparr>,
           n_of_n_key = n_of_n,
           connector_cpfp = operator_key,
           post_assert_out_0 = a3,
           assert_data_hash_factory = groth16_hashes pks,
           assert_data256_factory = groth16_public_inputs pks # groth16_fqs pks,
           stake_connector = \<lparr>s_n_of_n_agg_pubkey = n_of_n, s_operator_pubkey = operator_key,
                              s_stake_hash = hash, s_delta = d\<rparr>,
           hashlock_payout = \<lparr>p_n_of_n_agg_pubkey = n_of_n, p_stake_hash = hash\<rparr>\<rparr>))"

definition peg_out_graph_generate ::
    "graph_env \<Rightarrow> peg_out_graph_input \<Rightarrow> build_context \<Rightarrow> txid \<Rightarrow> peg_out_graph_params \<Rightarrow>
       connector_params \<Rightarrow> stake_chain_params \<Rightarrow> txid list \<Rightarrow>
       (builder_error, peg_out_graph \<times> peg_out_graph_connectors) outcome" where
  "peg_out_graph_generate env inp ctx deposit gp cp scp prev_claim_txids =
     bind_outcome (peg_out_graph_connectors_new env ctx deposit cp (operator_pubkey inp) (stake_hash inp)
       (delta scp) (input_wots_public_keys inp)) (\<lambda>cs.
     bind_outcome (claim_tx_new env (withdrawal_fulfillment_outpoint inp) (kickoff cs) (claim_out_0 cs)
       (claim_out_1 cs) (n_of_n_key cs) (connector_cpfp cs)) (\<lambda>claim.
     let claim_id = claim_txid env claim;
         payout_stake = \<lparr>op_txid = op_txid (stake_outpoint inp), op_vout = 1\<rparr> in
     bind_outcome (challenge_tx_new env \<lparr>op_txid = claim_id, op_vout = CHALLENGE_VOUT\<rparr> (challenge_cost gp)
       (operator_pubkey inp) (claim_out_1 cs)) (\<lambda>challenge.
     bind_outcome (payout_optimistic_tx_new env claim_id deposit payout_stake (deposit_amount gp)
       (operator_pubkey inp) (claim_out_0 cs) (claim_out_1 cs) (n_of_n_key cs) (hashlock_payout cs)
       (connector_cpfp cs)) (\<lambda>payout_opt.
     bind_outcome (assert_chain_new env claim_id (claim_out_0 cs) (n_of_n_key cs) (post_assert_out_0 cs)
       (connector_cpfp cs) (assert_data_hash_factory cs) (assert_data256_factory cs)) (\<lambda>chain.
     let post_id = ct_txid env (covenant_tx.truncate (ac_post_assert chain)) in
     bind_outcome (payout_tx_new env post_id deposit \<lparr>op_txid = claim_id, op_vout = SLASH_STAKE_VOUT\<rparr>
       payout_stake (deposit_amount gp) (operator_pubkey inp) (post_assert_out_0 cs) (n_of_n_key cs)
       (hashlock_payout cs) (connector_cpfp cs)) (\<lambda>payout.
     bind_outcome (disprove_tx_new env post_id (stake_outpoint inp) (stake_amount scp) (burn_amount scp)
       (post_assert_out_0 cs) (stake_connector cs)) (\<lambda>disprove.
     bind_outcome (traverse (\<lambda>prev_claim. slash_stake_tx_new env (stake_outpoint inp)
          \<lparr>op_txid = prev_claim, op_vout = SLASH_STAKE_VOUT\<rparr> scp (n_of_n_key cs) (stake_connector cs))
       prev_claim_txids) (\<lambda>slashes.
       Ok (\<lparr>pog_claim_tx = claim, pog_challenge_tx = challenge, pog_payout_optimistic_tx = payout_opt,
            pog_assert_chain = chain, pog_payout_tx = payout, pog_disprove_tx = disprove,
            pog_slash_stake_txs = slashes\<rparr>, cs)))))))))"

abbreviation pog_post_assert_ct :: "peg_out_graph \<Rightarrow> covenant_tx" where
  "pog_post_assert_ct g \<equiv> covenant_tx.truncate (ac_post_assert (pog_assert_chain g))"

abbreviation pog_pre_assert_ct :: "peg_out_graph \<Rightarrow> covenant_tx" where
  "pog_pre_assert_ct g \<equiv> ac_pre_assert (pog_assert_chain g)"

text \<open>\<open>tx.input[0]\<close> panics on a transaction without inputs; the claim transaction has one.\<close>

definition summarize :: "graph_env \<Rightarrow> peg_out_graph \<Rightarrow> (builder_error, peg_out_graph_summary) outcome" where
  "summarize env g =
     bind_outcome (expect (list_get (tx_input (unsigned_tx (claim_psbt (pog_claim_tx g)))) 0)) (\<lambda>inp.
       Ok \<lparr>stake_txid = op_txid (previous_output inp),
           summary_claim_txid = claim_txid env (pog_claim_tx g),
           payout_optimistic_txid = ct_txid env (pog_payout_optimistic_tx g),
           pre_assert_txid = ct_txid env (pog_pre_assert_ct g),
           summary_assert_data_txids = assert_data_txids env (ac_assert_data (pog_assert_chain g)),
           post_assert_txid = ct_txid env (pog_post_assert_ct g),
           payout_txid = ct_txid env (pog_payout_tx g),
           slash_stake_txids = map (ct_txid env) (pog_slash_stake_txs g)\<rparr>)"

text \<open>
  The three functors over the signed inputs. \<open>f n ct\<close> gives the data of the \<open>n\<close> covenant inputs of a
  transaction; a pair is read off the two inputs of a slash-stake transaction.
\<close>

fun as_pair :: "'a list \<Rightarrow> (builder_error, 'a \<times> 'a) outcome" where
  "as_pair [a, b] = Ok (a, b)"
| "as_pair _ = Panic"

definition musig_functor ::
    "(nat \<Rightarrow> covenant_tx \<Rightarrow> (builder_error, 'a list) outcome) \<Rightarrow> peg_out_graph \<Rightarrow> (builder_error, 'a pog_musig_f) outcome" where
  "musig_functor f g =
     bind_outcome (f 1 (pog_challenge_tx g)) (\<lambda>ch. bind_outcome (expect (list_get ch 0)) (\<lambda>ch0.
     bind_outcome (f 1 (pog_pre_assert_ct g)) (\<lambda>pre. bind_outcome (expect (list_get pre 0)) (\<lambda>pre0.
     bind_outcome (f num_assert_data_tx (pog_post_assert_ct g)) (\<lambda>post.
     bind_outcome (f num_payout_optimistic_inputs (pog_payout_optimistic_tx g)) (\<lambda>opt.
     bind_outcome (f num_payout_inputs (pog_payout_tx g)) (\<lambda>pay.
     bind_outcome (f 1 (pog_disprove_tx g)) (\<lambda>dis. bind_outcome (expect (list_get dis 0)) (\<lambda>dis0.
     bind_outcome (traverse (\<lambda>ct. bind_outcome (f 2 ct) as_pair) (pog_slash_stake_txs g)) (\<lambda>slash.
       Ok (PogMusigF ch0 pre0 post opt pay dis0 slash)))))))))))"

definition musig_sighash_types :: "peg_out_graph \<Rightarrow> (builder_error, tap_sighash_type pog_musig_f) outcome" where
  "musig_sighash_types g = musig_functor ct_sighash_types g"

definition musig_sighashes :: "graph_env \<Rightarrow> peg_out_graph \<Rightarrow> (builder_error, 256 word pog_musig_f) outcome" where
  "musig_sighashes env g = musig_functor (ct_sighashes env) g"

definition musig_inpoints :: "graph_env \<Rightarrow> peg_out_graph \<Rightarrow> out_point pog_musig_f" where
  "musig_inpoints env g =
     (let inpoint = (\<lambda>ct i. \<lparr>op_txid = ct_txid env ct, op_vout = of_nat i\<rparr>) in
      PogMusigF (inpoint (pog_challenge_tx g) 0) (inpoint (pog_pre_assert_ct g) 0)
        (map (inpoint (pog_post_assert_ct g)) [0..<num_post_assert_inputs])
        (map (inpoint (pog_payout_optimistic_tx g)) [0..<num_payout_optimistic_inputs])
        (map (inpoint (pog_payout_tx g)) [0..<num_payout_inputs])
        (inpoint (pog_disprove_tx g) 0)
        (map (\<lambda>ct. (inpoint ct 0, inpoint ct 1)) (pog_slash_stake_txs g)))"

definition musig_witnesses :: "peg_out_graph \<Rightarrow> (builder_error, taproot_witness pog_musig_f) outcome" where
  "musig_witnesses g = musig_functor (\<lambda>n ct. if length (ct_witnesses ct) = n then Ok (ct_witnesses ct) else Panic) g"

section \<open>Outputs have their dust value\<close>

text \<open>
  The documented value of \<open>minimal_non_dust\<close> on a pay-to-taproot script at the default relay fee.
\<close>

definition dust_ok :: "graph_env \<Rightarrow> bool" where
  "dust_ok env \<longleftrightarrow> (\<forall>k. env_minimal_non_dust env (p2tr_tweaked_script k) = segwit_min_amount)"

lemma taproot_address_p2tr:
  assumes "taproot_address env path = Ok s"
  shows "\<exists>k. s = p2tr_tweaked_script k"
  using assms
  by (cases path)
     (auto simp: taproot_address_def build_taptree_def p2tr_script_def outcome_simps
       split: if_splits option.splits)

lemma dust_taproot_address:
  "dust_ok env \<Longrightarrow> taproot_address (lib env) path = Ok s \<Longrightarrow> env_minimal_non_dust env s = segwit_min_amount"
  using taproot_address_p2tr [of "lib env" path s] by (auto simp: dust_ok_def)

lemma dust_cpfp: "dust_ok env \<Longrightarrow> env_minimal_non_dust env (connector_cpfp_script k) = segwit_min_amount"
  by (simp add: dust_ok_def connector_cpfp_script_def)

lemma dust_connectors:
  assumes "dust_ok env"
  shows "c0_locking_script env c0 = Ok s \<Longrightarrow> env_minimal_non_dust env s = segwit_min_amount"
    and "c1_locking_script env c1 = Ok s \<Longrightarrow> env_minimal_non_dust env s = segwit_min_amount"
    and "connector_n_of_n_address env k = Ok s \<Longrightarrow> env_minimal_non_dust env s = segwit_min_amount"
    and "connector_p_address env p = Ok s \<Longrightarrow> env_minimal_non_dust env s = segwit_min_amount"
    and "a256_address env pks = Ok s \<Longrightarrow> env_minimal_non_dust env s = segwit_min_amount"
    and "a_hash_address env pks = Ok s \<Longrightarrow> env_minimal_non_dust env s = segwit_min_amount"
  using dust_taproot_address [OF assms]
  by (simp_all add: c0_locking_script_def c1_locking_script_def connector_n_of_n_address_def
      connector_p_address_def a256_address_def a_hash_address_def)

section \<open>Partially signed transactions: lemmas\<close>

lemma psbt_from_unsigned_tx_Some:
  "psbt_from_unsigned_tx tx = Some p \<Longrightarrow>
   unsigned_tx p = tx \<and>
   psbt_inputs p = map (\<lambda>_. \<lparr>witness_utxo = None, psbt_sighash_type = None\<rparr>) (tx_input tx)"
  by (auto simp: psbt_from_unsigned_tx_def split: if_splits)

lemma unsigned_tx_set_prevouts [simp]: "unsigned_tx (set_prevouts ty us p) = unsigned_tx p"
  by (simp add: set_prevouts_def)

lemma psbt_inputs_set_prevouts:
  "psbt_from_unsigned_tx tx = Some p \<Longrightarrow> length us = length (tx_input tx) \<Longrightarrow>
   psbt_inputs (set_prevouts ty us p) =
     map (\<lambda>u. \<lparr>witness_utxo = Some u, psbt_sighash_type = Some ty\<rparr>) us"
  by (auto simp: set_prevouts_def psbt_from_unsigned_tx_def split: if_splits
      intro!: nth_equalityI)

text \<open>
  \<open>built_psbt tx ty us p\<close>: the PSBT of the transaction with spent outputs \<open>us\<close>, one for each input, all
  with the same sighash type.
\<close>

definition built_psbt :: "transaction \<Rightarrow> tap_sighash_type \<Rightarrow> tx_out list \<Rightarrow> psbt" where
  "built_psbt tx ty us =
     \<lparr>unsigned_tx = tx, psbt_inputs = map (\<lambda>u. \<lparr>witness_utxo = Some u, psbt_sighash_type = Some ty\<rparr>) us\<rparr>"

lemma built_psbt_simps [simp]:
  "unsigned_tx (built_psbt tx ty us) = tx"
  "psbt_inputs (built_psbt tx ty us) =
     map (\<lambda>u. \<lparr>witness_utxo = Some u, psbt_sighash_type = Some ty\<rparr>) us"
  by (simp_all add: built_psbt_def)

lemma set_prevouts_built:
  "psbt_from_unsigned_tx tx = Some p \<Longrightarrow> length us = length (tx_input tx) \<Longrightarrow>
   set_prevouts ty us p = built_psbt tx ty us"
  using psbt_inputs_set_prevouts [of tx p us ty] psbt_from_unsigned_tx_Some [of tx p]
  by (intro psbt.equality) simp_all

lemma length_create_tx_ins [simp]: "length (create_tx_ins us) = length us"
  by (simp add: create_tx_ins_def)

lemma length_create_tx_outs [simp]: "length (create_tx_outs os) = length os"
  by (simp add: create_tx_outs_def)

lemma create_tx_simps [simp]:
  "tx_input (create_tx ins outs) = ins" "tx_output (create_tx ins outs) = outs"
  by (simp_all add: create_tx_def)

lemma nth_create_tx_ins [simp]:
  "i < length us \<Longrightarrow> create_tx_ins us ! i =
     \<lparr>previous_output = us ! i, sequence = ENABLE_RBF_NO_LOCKTIME, script_sig = [], witness = []\<rparr>"
  by (simp add: create_tx_ins_def)

lemma create_tx_outs_Cons [simp]:
  "create_tx_outs [] = []"
  "create_tx_outs ((s, v) # os) = \<lparr>txout_value = v, script_pubkey = s\<rparr> # create_tx_outs os"
  by (simp_all add: create_tx_outs_def)

section \<open>The shape of each transaction\<close>

lemma claim_tx_newD:
  assumes "claim_tx_new env sop k c0 c1 n_of_n cpfp = Ok c" and "dust_ok env"
  obtains c0_out c1_out c2_out k_out where
    "c0_locking_script env c0 = Ok c0_out"
    "c1_locking_script env c1 = Ok c1_out"
    "connector_n_of_n_address env n_of_n = Ok c2_out"
    "connector_k_address env k = Ok k_out"
    "claim_output_amount c = funding_amount - 990"
    "claim_psbt c = built_psbt
       ((create_tx (create_tx_ins [sop]) (create_tx_outs [(c0_out, funding_amount - 990), (c1_out, 330),
          (c2_out, 330), (connector_cpfp_script cpfp, 330)]))\<lparr>tx_version := 3\<rparr>)
       SighashDefault [\<lparr>txout_value = funding_amount, script_pubkey = k_out\<rparr>]"
  using assms(1)
  by (auto simp: claim_tx_new_def Let_def outcome_simps dust_connectors [OF assms(2)]
      dust_cpfp [OF assms(2)] segwit_min_amount_def intro!: that set_prevouts_built)

lemma challenge_tx_newD:
  assumes "challenge_tx_new env cop amt key c1 = Ok ct" and "dust_ok env"
  obtains c1_out where
    "c1_locking_script env c1 = Ok c1_out"
    "ct = \<lparr>ct_psbt = built_psbt
              (create_tx (create_tx_ins [cop]) (create_tx_outs [(p2tr_tweaked_script key, amt)]))
              SighashSinglePlusAnyoneCanPay [\<lparr>txout_value = 330, script_pubkey = c1_out\<rparr>],
           ct_prevouts = PrevoutsOne 0 \<lparr>txout_value = 330, script_pubkey = c1_out\<rparr>,
           ct_witnesses = [WitnessTweaked (c1_merkle_root env c1)]\<rparr>"
  using assms(1)
  by (auto simp: challenge_tx_new_def Let_def outcome_simps dust_connectors [OF assms(2)]
      segwit_min_amount_def intro!: that set_prevouts_built)

text \<open>A covenant transaction whose spent outputs are all known and recorded in its PSBT.\<close>

definition built_ct :: "transaction \<Rightarrow> tap_sighash_type \<Rightarrow> tx_out list \<Rightarrow> taproot_witness list \<Rightarrow> covenant_tx" where
  "built_ct tx ty us ws =
     \<lparr>ct_psbt = built_psbt tx ty us, ct_prevouts = PrevoutsAll us, ct_witnesses = ws\<rparr>"

lemma built_ct_simps [simp]:
  "ct_psbt (built_ct tx ty us ws) = built_psbt tx ty us"
  "ct_prevouts (built_ct tx ty us ws) = PrevoutsAll us"
  "ct_witnesses (built_ct tx ty us ws) = ws"
  "ct_tx (built_ct tx ty us ws) = tx"
  by (simp_all add: built_ct_def ct_tx_def)

lemma payout_optimistic_tx_newD:
  assumes "payout_optimistic_tx_new env claim deposit sop amt key c0 c1 n_of_n cp cpfp = Ok ct"
    and "dust_ok env"
  obtains ins operator_out n_of_n_out c0_out c1_out p_out payout_script cb where
    "connector_n_of_n_address env n_of_n = Ok n_of_n_out"
    "c0_locking_script env c0 = Ok c0_out" "c1_locking_script env c1 = Ok c1_out"
    "connector_p_address env cp = Ok p_out"
    "taproot_address (lib env) (KeySpend key) = Ok operator_out"
    "amt + (funding_amount - 990 + 990) < 2 ^ 64"
    "map previous_output ins = [\<lparr>op_txid = deposit, op_vout = 0\<rparr>, \<lparr>op_txid = claim, op_vout = 0\<rparr>,
        \<lparr>op_txid = claim, op_vout = 1\<rparr>, \<lparr>op_txid = claim, op_vout = 2\<rparr>, sop]"
    "ct = built_ct
       ((create_tx ins (create_tx_outs [(operator_out, amt + (funding_amount - 990 + 990) - 330),
          (connector_cpfp_script cpfp, 330)]))\<lparr>tx_version := 3\<rparr>)
       SighashDefault
       [\<lparr>txout_value = amt, script_pubkey = n_of_n_out\<rparr>,
        \<lparr>txout_value = funding_amount - 990, script_pubkey = c0_out\<rparr>,
        \<lparr>txout_value = 330, script_pubkey = c1_out\<rparr>,
        \<lparr>txout_value = 330, script_pubkey = n_of_n_out\<rparr>,
        \<lparr>txout_value = 330, script_pubkey = p_out\<rparr>]
       [WitnessKey, WitnessTweaked (c0_merkle_root env c0), WitnessScript payout_script cb,
        WitnessKey, WitnessTweaked (connector_p_merkle_root env cp)]"
proof -
  let ?us = "[\<lparr>op_txid = deposit, op_vout = 0\<rparr>, \<lparr>op_txid = claim, op_vout = 0\<rparr>,
        \<lparr>op_txid = claim, op_vout = 1\<rparr>, \<lparr>op_txid = claim, op_vout = 2\<rparr>, sop]"
  let ?ins = "(create_tx_ins ?us)[2 := (create_tx_ins ?us ! 2)
       \<lparr>sequence := sequence_from_height (as_u16 (payout_optimistic_timelock c1))\<rparr>]"
  show thesis
    using assms(1)
    by (auto simp: payout_optimistic_tx_new_def Let_def outcome_simps dust_connectors [OF assms(2)]
        dust_cpfp [OF assms(2)] segwit_min_amount_def amount_sum_Ok built_ct_def create_tx_ins_def
        split: if_splits intro!: that [where ins = ?ins] set_prevouts_built)
qed

lemma commitment_outs:
  assumes "traverse (\<lambda>c. commitment_out env (addr c)) cs = Ok os"
    and "\<And>c s. addr c = Ok s \<Longrightarrow> env_minimal_non_dust env s = segwit_min_amount"
  shows "\<exists>ss. length ss = length cs \<and> os = map (\<lambda>s. (s, 660)) ss"
  using assms(1)
proof (induction cs arbitrary: os)
  case (Cons c cs)
  then obtain s os' where s: "addr c = Ok s" "os = (s, 660) # os'"
    and rest: "traverse (\<lambda>c. commitment_out env (addr c)) cs = Ok os'"
    using assms(2) by (auto simp: outcome_simps commitment_out_def segwit_min_amount_def)
  obtain ss where "length ss = length cs" "os' = map (\<lambda>s. (s, 660)) ss"
    using Cons.IH [OF rest] by blast
  with s show ?case by (intro exI [of _ "s # ss"]) simp
qed simp

lemma commitment_outs_a256:
  assumes "dust_ok env" and "traverse (\<lambda>c. commitment_out env (a256_address env c)) cs = Ok os"
  shows "\<exists>ss. length ss = length cs \<and> os = map (\<lambda>s. (s, 660)) ss"
  by (rule commitment_outs [OF assms(2)]) (rule dust_connectors(5) [OF assms(1)])

lemma commitment_outs_a_hash:
  assumes "dust_ok env" and "traverse (\<lambda>c. commitment_out env (a_hash_address env c)) cs = Ok os"
  shows "\<exists>ss. length ss = length cs \<and> os = map (\<lambda>s. (s, 660)) ss"
  by (rule commitment_outs [OF assms(2)]) (rule dust_connectors(6) [OF assms(1)])

lemma length_create_connectors [simp]:
  "length (fst (create_connectors n1 k1 n2 k2 pks)) = n1"
  "length (snd (create_connectors n1 k1 n2 k2 pks)) = n2"
  by (simp_all add: create_connectors_def)

lemma pre_assert_tx_newD:
  assumes "pre_assert_tx_new env claim c0 cpfp pks256 pks_hash = Ok ct" and "dust_ok env"
  obtains c0_out ss script cb seq where
    "c0_locking_script env c0 = Ok c0_out" "length ss = num_assert_data_tx"
    "ct = built_ct
       ((create_tx [\<lparr>previous_output = \<lparr>op_txid = claim, op_vout = 0\<rparr>, sequence = seq, script_sig = [],
            witness = []\<rparr>]
          (create_tx_outs (map (\<lambda>s. (s, 660)) ss @ [(connector_cpfp_script cpfp, 330)])))\<lparr>tx_version := 3\<rparr>)
       SighashDefault [\<lparr>txout_value = funding_amount - 990, script_pubkey = c0_out\<rparr>]
       [WitnessScript script cb]"
proof -
  obtain o1 o2 o3 o4 c0_out p script cb where
    os: "traverse (\<lambda>c. commitment_out env (a256_address env c)) (fst (a256_create_connectors pks256)) = Ok o1"
    "traverse (\<lambda>c. commitment_out env (a256_address env c)) (snd (a256_create_connectors pks256)) = Ok o2"
    "traverse (\<lambda>c. commitment_out env (a_hash_address env c)) (fst (a_hash_create_connectors pks_hash)) = Ok o3"
    "traverse (\<lambda>c. commitment_out env (a_hash_address env c)) (snd (a_hash_create_connectors pks_hash)) = Ok o4"
    and c0_out: "c0_locking_script env c0 = Ok c0_out"
    and p: "psbt_from_unsigned_tx
       ((create_tx [\<lparr>previous_output = \<lparr>op_txid = claim, op_vout = 0\<rparr>,
            sequence = sequence_from_height (as_u16 (pre_assert_timelock c0)), script_sig = [], witness = []\<rparr>]
          (create_tx_outs (o1 @ o2 @ o3 @ o4 @ [(connector_cpfp_script cpfp, 330)])))\<lparr>tx_version := 3\<rparr>) = Some p"
    and ct: "ct = \<lparr>ct_psbt = set_prevouts SighashDefault
            [\<lparr>txout_value = funding_amount - 990, script_pubkey = c0_out\<rparr>] p,
         ct_prevouts = PrevoutsAll [\<lparr>txout_value = funding_amount - 990, script_pubkey = c0_out\<rparr>],
         ct_witnesses = [WitnessScript script cb]\<rparr>"
    using assms(1)
    by (auto simp: pre_assert_tx_new_def Let_def outcome_simps dust_cpfp [OF assms(2)] case_prod_unfold
        segwit_min_amount_def create_tx_ins_def split: if_splits)
  obtain s1 s2 s3 s4 where
    "length s1 = 3" "o1 = map (\<lambda>s. (s, 660)) s1" "length s2 = 0" "o2 = map (\<lambda>s. (s, 660)) s2"
    "length s3 = 33" "o3 = map (\<lambda>s. (s, 660)) s3" "length s4 = 3" "o4 = map (\<lambda>s. (s, 660)) s4"
    using commitment_outs_a256 [OF assms(2) os(1)] commitment_outs_a256 [OF assms(2) os(2)]
      commitment_outs_a_hash [OF assms(2) os(3)] commitment_outs_a_hash [OF assms(2) os(4)]
    by (auto simp: a256_create_connectors_def a_hash_create_connectors_def num_connectors_defs)
  then show thesis
    using c0_out p ct
    by (intro that [where ss = "s1 @ s2 @ s3 @ s4"])
       (auto simp: num_assert_data_tx_def built_ct_def intro!: set_prevouts_built)
qed

lemma assert_data_psbtD:
  assumes "assert_data_psbt env pre ss n_of_n cpfp i = Ok p" and "dust_ok env"
  obtains out where
    "connector_n_of_n_address env n_of_n = Ok out" "i < length ss"
    "p = built_psbt
       ((create_tx (create_tx_ins [\<lparr>op_txid = pre, op_vout = of_nat i\<rparr>])
          (create_tx_outs [(out, 330), (connector_cpfp_script cpfp, 330)]))\<lparr>tx_version := 3\<rparr>)
       SighashDefault [\<lparr>txout_value = 660, script_pubkey = ss ! i\<rparr>]"
  using assms(1)
  by (auto simp: assert_data_psbt_def Let_def outcome_simps dust_connectors [OF assms(2)]
      dust_cpfp [OF assms(2)] segwit_min_amount_def list_get_Some_iff intro!: that set_prevouts_built)

lemma post_assert_tx_newD:
  assumes "post_assert_tx_new env txids n_of_n a3 cpfp = Ok post" and "dust_ok env"
    and "length txids = num_assert_data_tx"
  obtains out where
    "connector_n_of_n_address env n_of_n = Ok out"
    "post_assert_output_amount post = 12540"
    "covenant_tx.truncate post = built_ct
       ((create_tx (create_tx_ins (map (\<lambda>txid. \<lparr>op_txid = txid, op_vout = 0\<rparr>) txids))
          (create_tx_outs [(a3_locking_script a3, 12540), (connector_cpfp_script cpfp, 330)]))\<lparr>tx_version := 3\<rparr>)
       SighashDefault (replicate num_assert_data_tx \<lparr>txout_value = 330, script_pubkey = out\<rparr>)
       (replicate num_assert_data_tx WitnessKey)"
proof -
  have amt: "segwit_min_amount * num_assert_data_tx - 330 = 12540"
    by (simp add: segwit_min_amount_def num_assert_data_tx_def)
  show thesis
    using assms(1,3)
    by (auto simp: post_assert_tx_new_def Let_def outcome_simps dust_connectors [OF assms(2)]
        dust_cpfp [OF assms(2)] amt built_ct_def covenant_tx.defs intro!: that set_prevouts_built)
       (auto simp: segwit_min_amount_def amt [unfolded segwit_min_amount_def] num_assert_data_tx_def
        intro!: that set_prevouts_built)
qed

lemma payout_tx_newD:
  assumes "payout_tx_new env post deposit cop sop amt key a3 n_of_n cp cpfp = Ok ct" and "dust_ok env"
  obtains ins operator_out n_of_n_out p_out script cb where
    "connector_n_of_n_address env n_of_n = Ok n_of_n_out" "connector_p_address env cp = Ok p_out"
    "taproot_address (lib env) (KeySpend key) = Ok operator_out"
    "amt + 13200 < 2 ^ 64"
    "map previous_output ins = [\<lparr>op_txid = deposit, op_vout = 0\<rparr>, \<lparr>op_txid = post, op_vout = 0\<rparr>, cop, sop]"
    "ct = built_ct
       ((create_tx ins (create_tx_outs [(operator_out, amt + 13200 - 330),
          (connector_cpfp_script cpfp, 330)]))\<lparr>tx_version := 3\<rparr>)
       SighashDefault
       [\<lparr>txout_value = amt, script_pubkey = n_of_n_out\<rparr>,
        \<lparr>txout_value = 12540, script_pubkey = a3_locking_script a3\<rparr>,
        \<lparr>txout_value = 330, script_pubkey = n_of_n_out\<rparr>,
        \<lparr>txout_value = 330, script_pubkey = p_out\<rparr>]
       [WitnessKey, WitnessScript script cb, WitnessKey, WitnessTweaked (connector_p_merkle_root env cp)]"
proof -
  let ?us = "[\<lparr>op_txid = deposit, op_vout = 0\<rparr>, \<lparr>op_txid = post, op_vout = 0\<rparr>, cop, sop]"
  let ?ins = "(create_tx_ins ?us)[1 := (create_tx_ins ?us ! 1)
       \<lparr>sequence := sequence_from_height (as_u16 (payout_timelock a3))\<rparr>]"
  show thesis
    using assms(1)
    by (auto simp: payout_tx_new_def Let_def outcome_simps dust_connectors [OF assms(2)]
        dust_cpfp [OF assms(2)] segwit_min_amount_def amount_sum_Ok built_ct_def create_tx_ins_def
        num_assert_data_tx_def split: if_splits intro!: that [where ins = ?ins] set_prevouts_built)
qed

lemma disprove_tx_newD:
  assumes "disprove_tx_new env post sop amt burn a3 stake = Ok ct" and "dust_ok env"
  obtains burn_script stake_out where
    "taproot_address (lib env) (KeySpend (env_unspendable_key env)) = Ok burn_script"
    "connector_stake_address env stake = Ok stake_out"
    "ct_tx ct = create_tx (create_tx_ins [sop, \<lparr>op_txid = post, op_vout = 0\<rparr>])
       (create_tx_outs [(burn_script, burn)])"
    "psbt_inputs (ct_psbt ct) =
       [\<lparr>witness_utxo = Some \<lparr>txout_value = amt, script_pubkey = stake_out\<rparr>,
         psbt_sighash_type = Some SighashSingle\<rparr>,
        \<lparr>witness_utxo = Some \<lparr>txout_value = 12540, script_pubkey = a3_locking_script a3\<rparr>,
         psbt_sighash_type = Some SighashDefault\<rparr>]"
    "ct_prevouts ct = PrevoutsAll [\<lparr>txout_value = amt, script_pubkey = stake_out\<rparr>,
       \<lparr>txout_value = 12540, script_pubkey = a3_locking_script a3\<rparr>]"
    "ct_witnesses ct = [WitnessTweaked (connector_stake_merkle_root env stake)]"
  using assms(1)
  by (auto simp: disprove_tx_new_def Let_def outcome_simps segwit_min_amount_def num_assert_data_tx_def
      ct_tx_def set_prevouts_def create_tx_ins_def psbt_from_unsigned_tx_def split: if_splits intro!: that)

lemma slash_stake_tx_newD:
  assumes "slash_stake_tx_new env sop cop params n_of_n stake = Ok ct" and "dust_ok env"
  obtains burn_script n_of_n_out stake_out where
    "taproot_address (lib env) (KeySpend (env_unspendable_key env)) = Ok burn_script"
    "connector_n_of_n_address env n_of_n = Ok n_of_n_out"
    "connector_stake_address env stake = Ok stake_out"
    "segwit_min_amount \<le> burn_amount params"
    "ct = built_ct
       (create_tx (create_tx_ins [cop, sop])
          [\<lparr>txout_value = 330, script_pubkey = burn_script\<rparr>,
           \<lparr>txout_value = burn_amount params - 330, script_pubkey = burn_script\<rparr>])
       SighashSingle
       [\<lparr>txout_value = 330, script_pubkey = n_of_n_out\<rparr>,
        \<lparr>txout_value = stake_amount params, script_pubkey = stake_out\<rparr>]
       [WitnessKey, WitnessTweaked (connector_stake_merkle_root env stake)]"
  using assms(1)
  by (auto simp: slash_stake_tx_new_def Let_def outcome_simps dust_connectors [OF assms(2)]
      segwit_min_amount_def built_ct_def intro!: that set_prevouts_built)

section \<open>The links of the graph\<close>

text \<open>
  \<open>links_to env p i tx j\<close>: input \<open>i\<close> of the PSBT spends output \<open>j\<close> of the transaction, and the spent
  output recorded in the PSBT (to which the signature commits) is that output.
\<close>

definition links_to :: "graph_env \<Rightarrow> psbt \<Rightarrow> nat \<Rightarrow> transaction \<Rightarrow> nat \<Rightarrow> bool" where
  "links_to env p i tx j \<longleftrightarrow>
     i < length (tx_input (unsigned_tx p)) \<and> i < length (psbt_inputs p) \<and> j < length (tx_output tx) \<and>
     previous_output (tx_input (unsigned_tx p) ! i) =
       \<lparr>op_txid = env_compute_txid env tx, op_vout = of_nat j\<rparr> \<and>
     witness_utxo (psbt_inputs p ! i) = Some (tx_output tx ! j)"

lemma nth_previous_output:
  "map previous_output ins = us \<Longrightarrow> i < length us \<Longrightarrow> i < length ins \<and> previous_output (ins ! i) = us ! i"
  by auto

lemma peg_out_graph_generateD:
  assumes "peg_out_graph_generate env inp ctx deposit gp cp scp prevs = Ok (g, cs)"
  shows "peg_out_graph_connectors_new env ctx deposit cp (operator_pubkey inp) (stake_hash inp)
           (delta scp) (input_wots_public_keys inp) = Ok cs"
    and "claim_tx_new env (withdrawal_fulfillment_outpoint inp) (kickoff cs) (claim_out_0 cs)
           (claim_out_1 cs) (n_of_n_key cs) (connector_cpfp cs) = Ok (pog_claim_tx g)"
    and "challenge_tx_new env \<lparr>op_txid = claim_txid env (pog_claim_tx g), op_vout = CHALLENGE_VOUT\<rparr>
           (challenge_cost gp) (operator_pubkey inp) (claim_out_1 cs) = Ok (pog_challenge_tx g)"
    and "payout_optimistic_tx_new env (claim_txid env (pog_claim_tx g)) deposit
           \<lparr>op_txid = op_txid (stake_outpoint inp), op_vout = 1\<rparr> (deposit_amount gp)
           (operator_pubkey inp) (claim_out_0 cs) (claim_out_1 cs) (n_of_n_key cs) (hashlock_payout cs)
           (connector_cpfp cs) = Ok (pog_payout_optimistic_tx g)"
    and "assert_chain_new env (claim_txid env (pog_claim_tx g)) (claim_out_0 cs) (n_of_n_key cs)
           (post_assert_out_0 cs) (connector_cpfp cs) (assert_data_hash_factory cs)
           (assert_data256_factory cs) = Ok (pog_assert_chain g)"
    and "payout_tx_new env (ct_txid env (pog_post_assert_ct g)) deposit
           \<lparr>op_txid = claim_txid env (pog_claim_tx g), op_vout = SLASH_STAKE_VOUT\<rparr>
           \<lparr>op_txid = op_txid (stake_outpoint inp), op_vout = 1\<rparr> (deposit_amount gp) (operator_pubkey inp)
           (post_assert_out_0 cs) (n_of_n_key cs) (hashlock_payout cs) (connector_cpfp cs) =
         Ok (pog_payout_tx g)"
    and "disprove_tx_new env (ct_txid env (pog_post_assert_ct g)) (stake_outpoint inp) (stake_amount scp)
           (burn_amount scp) (post_assert_out_0 cs) (stake_connector cs) = Ok (pog_disprove_tx g)"
    and "traverse (\<lambda>prev_claim. slash_stake_tx_new env (stake_outpoint inp)
           \<lparr>op_txid = prev_claim, op_vout = SLASH_STAKE_VOUT\<rparr> scp (n_of_n_key cs) (stake_connector cs))
           prevs = Ok (pog_slash_stake_txs g)"
  using assms by (auto simp: peg_out_graph_generate_def Let_def outcome_simps)

lemma assert_chain_newD:
  assumes "assert_chain_new env claim c0 n_of_n a3 cpfp pks_hash pks256 = Ok ch"
  shows "pre_assert_tx_new env claim c0 cpfp pks256 pks_hash = Ok (ac_pre_assert ch)"
    and "assert_data_batch_new env (ct_txid env (ac_pre_assert ch))
           (take num_assert_data_tx (map script_pubkey (tx_output (ct_tx (ac_pre_assert ch))))) n_of_n cpfp =
         Ok (ac_assert_data ch)"
    and "post_assert_tx_new env (assert_data_txids env (ac_assert_data ch)) n_of_n a3 cpfp =
         Ok (ac_post_assert ch)"
  using assms by (auto simp: assert_chain_new_def Let_def outcome_simps split: if_splits)

lemma assert_data_batch_newD:
  assumes "assert_data_batch_new env pre ss n_of_n cpfp = Ok batch"
  shows "length batch = num_assert_data_tx"
    and "i < num_assert_data_tx \<Longrightarrow> assert_data_psbt env pre ss n_of_n cpfp i = Ok (batch ! i)"
  using assms by (auto simp: assert_data_batch_new_def traverse_Ok_iff list_all2_conv_all_nth)

text \<open>The links within the assertion chain.\<close>

lemma assert_chain_links:
  assumes "assert_chain_new env claim c0 n_of_n a3 cpfp pks_hash pks256 = Ok ch" and "dust_ok env"
  shows "\<forall>i < num_assert_data_tx.
           links_to env (ac_assert_data ch ! i) 0 (ct_tx (ac_pre_assert ch)) i \<and>
           links_to env (ct_psbt (covenant_tx.truncate (ac_post_assert ch))) i
             (unsigned_tx (ac_assert_data ch ! i)) 0"
proof (intro allI impI)
  fix i assume i: "i < num_assert_data_tx"
  note parts = assert_chain_newD [OF assms(1)]
  note batch = assert_data_batch_newD [OF parts(2)]
  obtain c0_out ss script cb seq where ss: "length ss = num_assert_data_tx" and
    pre: "ac_pre_assert ch = built_ct
       ((create_tx [\<lparr>previous_output = \<lparr>op_txid = claim, op_vout = 0\<rparr>, sequence = seq, script_sig = [],
            witness = []\<rparr>]
          (create_tx_outs (map (\<lambda>s. (s, 660)) ss @ [(connector_cpfp_script cpfp, 330)])))\<lparr>tx_version := 3\<rparr>)
       SighashDefault [\<lparr>txout_value = funding_amount - 990, script_pubkey = c0_out\<rparr>]
       [WitnessScript script cb]"
    using pre_assert_tx_newD [OF parts(1) assms(2)] .
  have outs: "tx_output (ct_tx (ac_pre_assert ch)) =
      map (\<lambda>s. \<lparr>txout_value = 660, script_pubkey = s\<rparr>) ss @
      [\<lparr>txout_value = 330, script_pubkey = connector_cpfp_script cpfp\<rparr>]"
    by (simp add: pre create_tx_outs_def)
  then have locks: "take num_assert_data_tx (map script_pubkey (tx_output (ct_tx (ac_pre_assert ch)))) = ss"
    using ss by (simp add: comp_def)
  obtain out where out: "connector_n_of_n_address env n_of_n = Ok out" and
    data: "ac_assert_data ch ! i = built_psbt
       ((create_tx (create_tx_ins [\<lparr>op_txid = ct_txid env (ac_pre_assert ch), op_vout = of_nat i\<rparr>])
          (create_tx_outs [(out, 330), (connector_cpfp_script cpfp, 330)]))\<lparr>tx_version := 3\<rparr>)
       SighashDefault [\<lparr>txout_value = 660, script_pubkey = ss ! i\<rparr>]"
    using assert_data_psbtD [OF batch(2) [OF i, unfolded locks] assms(2)] by metis
  have txids: "length (assert_data_txids env (ac_assert_data ch)) = num_assert_data_tx"
    by (simp add: assert_data_txids_def batch(1))
  obtain out' where out': "connector_n_of_n_address env n_of_n = Ok out'" and
    post: "covenant_tx.truncate (ac_post_assert ch) = built_ct
       ((create_tx (create_tx_ins (map (\<lambda>txid. \<lparr>op_txid = txid, op_vout = 0\<rparr>)
             (assert_data_txids env (ac_assert_data ch))))
          (create_tx_outs [(a3_locking_script a3, 12540), (connector_cpfp_script cpfp, 330)]))\<lparr>tx_version := 3\<rparr>)
       SighashDefault (replicate num_assert_data_tx \<lparr>txout_value = 330, script_pubkey = out'\<rparr>)
       (replicate num_assert_data_tx WitnessKey)"
    using post_assert_tx_newD [OF parts(3) assms(2) txids] by metis
  have "links_to env (ac_assert_data ch ! i) 0 (ct_tx (ac_pre_assert ch)) i"
    unfolding links_to_def data outs using i ss by (simp add: ct_txid_def nth_append)
  moreover have "links_to env (ct_psbt (covenant_tx.truncate (ac_post_assert ch))) i
      (unsigned_tx (ac_assert_data ch ! i)) 0"
    unfolding links_to_def post using i txids out out' batch(1)
    by (simp add: assert_data_txids_def) (simp add: data)
  ultimately show "links_to env (ac_assert_data ch ! i) 0 (ct_tx (ac_pre_assert ch)) i \<and>
      links_to env (ct_psbt (covenant_tx.truncate (ac_post_assert ch))) i
        (unsigned_tx (ac_assert_data ch ! i)) 0" by blast
qed

text \<open>The outputs spent by a covenant transaction are those of its PSBT.\<close>

fun prevouts_agree :: "covenant_tx \<Rightarrow> prevouts \<Rightarrow> bool" where
  "prevouts_agree ct (PrevoutsAll us) \<longleftrightarrow> map witness_utxo (psbt_inputs (ct_psbt ct)) = map Some us"
| "prevouts_agree ct (PrevoutsOne i u) \<longleftrightarrow>
     i < length (psbt_inputs (ct_psbt ct)) \<and> witness_utxo (psbt_inputs (ct_psbt ct) ! i) = Some u"

text \<open>A transaction without fee: it spends what it pays.\<close>

definition spent_value :: "psbt \<Rightarrow> amount" where
  "spent_value p = sum_list (map (\<lambda>i. case witness_utxo i of Some u \<Rightarrow> txout_value u | None \<Rightarrow> 0) (psbt_inputs p))"

definition paid_value :: "psbt \<Rightarrow> amount" where
  "paid_value p = sum_list (map txout_value (tx_output (unsigned_tx p)))"

lemma spent_value_built [simp]: "spent_value (built_psbt tx ty us) = sum_list (map txout_value us)"
  by (simp add: spent_value_def comp_def)

lemma prevouts_agree_built [simp]: "prevouts_agree (built_ct tx ty us ws) (PrevoutsAll us)"
  by (simp add: comp_def)

lemma funding_amount_minus: "funding_amount = 27060" "funding_amount - 990 = 26070"
  by (simp_all add: funding_amount_def)

lemma claim_balanced:
  assumes "claim_tx_new env sop k c0 c1 n_of_n cpfp = Ok claim" and "dust_ok env"
  shows "spent_value (claim_psbt claim) = paid_value (claim_psbt claim)"
  by (rule claim_tx_newD [OF assms]) (simp add: paid_value_def funding_amount_minus)

lemma challenge_links:
  assumes "claim_tx_new env sop k c0 c1 n_of_n cpfp = Ok claim" and "dust_ok env"
    and "challenge_tx_new env \<lparr>op_txid = claim_txid env claim, op_vout = CHALLENGE_VOUT\<rparr> amt key c1 = Ok ct"
  shows "links_to env (ct_psbt ct) 0 (unsigned_tx (claim_psbt claim)) 1 \<and> prevouts_agree ct (ct_prevouts ct)"
  by (rule claim_tx_newD [OF assms(1,2)], rule challenge_tx_newD [OF assms(3,2)])
     (simp add: links_to_def claim_txid_def CHALLENGE_VOUT_def)

lemma payout_optimistic_links:
  assumes "claim_tx_new env sop k c0 c1 n_of_n cpfp = Ok claim" and "dust_ok env"
    and "payout_optimistic_tx_new env (claim_txid env claim) deposit stake amt key c0 c1 n_of_n cp cpfp = Ok ct"
  shows "links_to env (ct_psbt ct) 1 (unsigned_tx (claim_psbt claim)) 0 \<and>
         links_to env (ct_psbt ct) 2 (unsigned_tx (claim_psbt claim)) 1 \<and>
         links_to env (ct_psbt ct) 3 (unsigned_tx (claim_psbt claim)) 2 \<and>
         prevouts_agree ct (ct_prevouts ct) \<and> spent_value (ct_psbt ct) = paid_value (ct_psbt ct)"
proof -
  obtain c0_out c1_out c2_out k_out where scripts: "c0_locking_script env c0 = Ok c0_out"
    "c1_locking_script env c1 = Ok c1_out" "connector_n_of_n_address env n_of_n = Ok c2_out"
    and claim: "claim_psbt claim = built_psbt
       ((create_tx (create_tx_ins [sop]) (create_tx_outs [(c0_out, funding_amount - 990), (c1_out, 330),
          (c2_out, 330), (connector_cpfp_script cpfp, 330)]))\<lparr>tx_version := 3\<rparr>)
       SighashDefault [\<lparr>txout_value = funding_amount, script_pubkey = k_out\<rparr>]"
    using claim_tx_newD [OF assms(1,2)] by metis
  show ?thesis
  proof (rule payout_optimistic_tx_newD [OF assms(3,2)], goal_cases)
    case (1 ins operator_out n_of_n_out c0_out' c1_out' p_out payout_script cb)
    then have same: "n_of_n_out = c2_out" "c0_out' = c0_out" "c1_out' = c1_out"
      using scripts by simp_all
    note ins = nth_previous_output [OF 1(7), simplified]
    show ?case
      using ins [of 1] ins [of 2] ins [of 3]
      by (simp add: 1(8) links_to_def claim claim_txid_def same paid_value_def funding_amount_minus
          comp_def)
  qed
qed

lemma pre_assert_links:
  assumes "claim_tx_new env sop k c0 c1 n_of_n cpfp = Ok claim" and "dust_ok env"
    and "pre_assert_tx_new env (claim_txid env claim) c0 cpfp' pks256 pks_hash = Ok ct"
  shows "links_to env (ct_psbt ct) 0 (unsigned_tx (claim_psbt claim)) 0 \<and>
         prevouts_agree ct (ct_prevouts ct) \<and> spent_value (ct_psbt ct) = paid_value (ct_psbt ct)"
  by (rule claim_tx_newD [OF assms(1,2)], rule pre_assert_tx_newD [OF assms(3,2)])
     (simp add: links_to_def claim_txid_def paid_value_def create_tx_outs_def comp_def
        sum_list_triv num_assert_data_tx_def funding_amount_minus)

lemma assert_chain_balanced:
  assumes "assert_chain_new env claim c0 n_of_n a3 cpfp pks_hash pks256 = Ok ch" and "dust_ok env"
  shows "\<forall>i < num_assert_data_tx. spent_value (ac_assert_data ch ! i) = paid_value (ac_assert_data ch ! i)"
    and "spent_value (ct_psbt (covenant_tx.truncate (ac_post_assert ch))) =
         paid_value (ct_psbt (covenant_tx.truncate (ac_post_assert ch)))"
    and "prevouts_agree (covenant_tx.truncate (ac_post_assert ch))
           (ct_prevouts (covenant_tx.truncate (ac_post_assert ch)))"
    and "tx_output (ct_tx (covenant_tx.truncate (ac_post_assert ch))) =
           create_tx_outs [(a3_locking_script a3, 12540), (connector_cpfp_script cpfp, 330)]"
proof -
  note parts = assert_chain_newD [OF assms(1)]
  note batch = assert_data_batch_newD [OF parts(2)]
  show "\<forall>i < num_assert_data_tx. spent_value (ac_assert_data ch ! i) = paid_value (ac_assert_data ch ! i)"
  proof (intro allI impI)
    fix i assume i: "i < num_assert_data_tx"
    show "spent_value (ac_assert_data ch ! i) = paid_value (ac_assert_data ch ! i)"
      by (rule assert_data_psbtD [OF batch(2) [OF i] assms(2)]) (simp add: paid_value_def)
  qed
  have txids: "length (assert_data_txids env (ac_assert_data ch)) = num_assert_data_tx"
    by (simp add: assert_data_txids_def batch(1))
  note post = post_assert_tx_newD [OF parts(3) assms(2) txids]
  show "spent_value (ct_psbt (covenant_tx.truncate (ac_post_assert ch))) =
        paid_value (ct_psbt (covenant_tx.truncate (ac_post_assert ch)))"
    by (rule post) (simp add: paid_value_def sum_list_replicate num_assert_data_tx_def)
  show "prevouts_agree (covenant_tx.truncate (ac_post_assert ch))
          (ct_prevouts (covenant_tx.truncate (ac_post_assert ch)))"
    by (rule post) simp
  show "tx_output (ct_tx (covenant_tx.truncate (ac_post_assert ch))) =
          create_tx_outs [(a3_locking_script a3, 12540), (connector_cpfp_script cpfp, 330)]"
    by (rule post) simp
qed

lemma payout_links:
  assumes "claim_tx_new env sop k c0 c1 n_of_n cpfp = Ok claim" and "dust_ok env"
    and "payout_tx_new env (env_compute_txid env post) deposit
           \<lparr>op_txid = claim_txid env claim, op_vout = SLASH_STAKE_VOUT\<rparr> stake amt key a3 n_of_n cp cpfp = Ok ct"
    and "tx_output post = create_tx_outs [(a3_locking_script a3, 12540), (connector_cpfp_script cpfp, 330)]"
  shows "links_to env (ct_psbt ct) 1 post 0 \<and>
         links_to env (ct_psbt ct) 2 (unsigned_tx (claim_psbt claim)) 2 \<and>
         prevouts_agree ct (ct_prevouts ct) \<and> spent_value (ct_psbt ct) = paid_value (ct_psbt ct)"
proof -
  obtain c0_out c1_out c2_out k_out where n_of_n: "connector_n_of_n_address env n_of_n = Ok c2_out"
    and claim: "claim_psbt claim = built_psbt
       ((create_tx (create_tx_ins [sop]) (create_tx_outs [(c0_out, funding_amount - 990), (c1_out, 330),
          (c2_out, 330), (connector_cpfp_script cpfp, 330)]))\<lparr>tx_version := 3\<rparr>)
       SighashDefault [\<lparr>txout_value = funding_amount, script_pubkey = k_out\<rparr>]"
    using claim_tx_newD [OF assms(1,2)] by metis
  show ?thesis
  proof (rule payout_tx_newD [OF assms(3,2)], goal_cases)
    case (1 ins operator_out n_of_n_out p_out script cb)
    then have same: "n_of_n_out = c2_out" using n_of_n by simp
    note ins = nth_previous_output [OF 1(5), simplified]
    show ?case
      using ins [of 1] ins [of 2]
      by (simp add: 1(6) links_to_def claim claim_txid_def same paid_value_def assms(4)
          SLASH_STAKE_VOUT_def comp_def)
  qed
qed

lemma disprove_links:
  assumes "disprove_tx_new env (env_compute_txid env post) sop amt burn a3 stake = Ok ct" and "dust_ok env"
    and "tx_output post = create_tx_outs [(a3_locking_script a3, 12540), (connector_cpfp_script cpfp, 330)]"
  shows "links_to env (ct_psbt ct) 1 post 0 \<and> prevouts_agree ct (ct_prevouts ct)"
  by (rule disprove_tx_newD [OF assms(1,2)]) (simp add: links_to_def assms(3) flip: ct_tx_def)

end
