(* ===== verification/Graph_Generation.thy ===== *)
theory Graph_Generation
  imports Tx_Graph
begin

text \<open>
  The guarantees of \<open>PegOutGraph::generate\<close>: under the documented behaviour of the taproot builder and
  of the dust computation none of its \<open>expect\<close>s fires, the inputs of the transactions spend the outputs
  they are meant to spend, and the transactions that leave their fee to a child are balanced.
\<close>

section \<open>Connectors never panic\<close>

definition graph_env_ok :: "graph_env \<Rightarrow> bool" where
  "graph_env_ok env \<longleftrightarrow> dust_ok env \<and> taproot_builder_ok (lib env)"

fun path_scripts :: "spend_path \<Rightarrow> script_buf list option" where
  "path_scripts (KeySpend k) = Some []"
| "path_scripts (ScriptSpend ss) = (if ss = [] then None else Some ss)"
| "path_scripts (BothSpend k ss) = Some ss"

lemma create_taproot_addr_ok:
  assumes "taproot_builder_ok env" and "path_scripts path = Some ss" and "length ss \<le> 2 ^ 128"
  shows "\<exists>out si. create_taproot_addr env path = Ok (out, si) \<and>
                  (\<forall>s \<in> set ss. spend_info_control_block si s \<noteq> None)"
proof -
  have "\<exists>key. create_taproot_addr env path = build_taptree env key ss"
    using assms(2) by (cases path) (auto split: if_splits)
  then show ?thesis using build_taptree_ok [OF assms(1,3)] by metis
qed

lemma taproot_address_ok:
  assumes "taproot_builder_ok env" and "path_scripts path = Some ss" and "length ss \<le> 2 ^ 128"
  shows "\<exists>out. taproot_address env path = Ok out"
  using create_taproot_addr_ok [OF assms] by (auto simp: taproot_address_def)

lemma taproot_spend_info_ok:
  assumes "taproot_builder_ok env" and "path_scripts path = Some ss" and "length ss \<le> 2 ^ 128"
    and "s \<in> set ss"
  shows "\<exists>cb. taproot_spend_info env path s = Ok (s, cb)"
  using create_taproot_addr_ok [OF assms(1-3)] assms(4) by (auto simp: taproot_spend_info_def)

lemma connectors_ok:
  assumes "graph_env_ok env"
  shows "\<exists>out. c0_locking_script env c0 = Ok out" and "\<exists>out. c1_locking_script env c1 = Ok out"
    and "\<exists>out. connector_n_of_n_address env k = Ok out" and "\<exists>out. connector_k_address env pk = Ok out"
    and "\<exists>out. connector_p_address env cp = Ok out" and "\<exists>out. connector_stake_address env st = Ok out"
    and "\<exists>out. a256_address env pks = Ok out" and "\<exists>out. a_hash_address env pks = Ok out"
    and "\<exists>out. taproot_address (lib env) (KeySpend k) = Ok out"
    and "\<exists>s cb. c0_spend_info env c0 = Ok (s, cb)" and "\<exists>s cb. c1_spend_info env c1 = Ok (s, cb)"
proof -
  have builder: "taproot_builder_ok (lib env)" using assms by (simp add: graph_env_ok_def)
  have both: "\<exists>out. taproot_address (lib env) (BothSpend key [s]) = Ok out"
    and script: "\<exists>out. taproot_address (lib env) (ScriptSpend [s]) = Ok out"
    and key: "\<exists>out. taproot_address (lib env) (KeySpend key) = Ok out"
    and info: "\<exists>cb. taproot_spend_info (lib env) (BothSpend key [s]) s = Ok (s, cb)" for key s
    using taproot_address_ok [OF builder, of "BothSpend key [s]" "[s]"]
      taproot_address_ok [OF builder, of "ScriptSpend [s]" "[s]"]
      taproot_address_ok [OF builder, of "KeySpend key" "[]"]
      taproot_spend_info_ok [OF builder, of "BothSpend key [s]" "[s]" s] by simp_all
  show "\<exists>out. c0_locking_script env c0 = Ok out" "\<exists>out. c1_locking_script env c1 = Ok out"
    "\<exists>out. connector_p_address env cp = Ok out" "\<exists>out. connector_stake_address env st = Ok out"
    by (simp_all only: c0_locking_script_def c1_locking_script_def connector_p_address_def
        connector_stake_address_def both)
  show "\<exists>out. connector_n_of_n_address env k = Ok out" "\<exists>out. taproot_address (lib env) (KeySpend k) = Ok out"
    by (simp_all only: connector_n_of_n_address_def key)
  show "\<exists>out. connector_k_address env pk = Ok out" "\<exists>out. a256_address env pks = Ok out"
    "\<exists>out. a_hash_address env pks = Ok out"
    by (simp_all only: connector_k_address_def a256_address_def a_hash_address_def script)
  show "\<exists>s cb. c0_spend_info env c0 = Ok (s, cb)" "\<exists>s cb. c1_spend_info env c1 = Ok (s, cb)"
    unfolding c0_spend_info_def c1_spend_info_def using info by blast+
qed

lemma connector_a3_new_ok:
  assumes "graph_env_ok env" and "length (env_full_tapscripts env pks) + 2 \<le> 2 ^ 128"
  shows "\<exists>a3 cb. connector_a3_new env deposit key pks timelock = Ok a3 \<and>
           a3_generate_spend_info env a3 (A3Payout sig) = Ok (n_of_n_with_timelock (lib env) key timelock, cb)"
proof -
  let ?ss = "map (a3_leaf_script env key pks timelock)
          ([A3Payout None, A3DisprovePublicInputsCommitment deposit None] @
           map (\<lambda>s. A3DisproveProof s None) (env_full_tapscripts env pks))"
  have len: "length ?ss \<le> 2 ^ 128" using assms(2) by simp
  have "taproot_builder_ok (lib env)" "path_scripts (ScriptSpend ?ss) = Some ?ss"
    using assms(1) by (simp_all add: graph_env_ok_def)
  from create_taproot_addr_ok [OF this len] obtain out si where
    addr: "create_taproot_addr (lib env) (ScriptSpend ?ss) = Ok (out, si)"
    and cbs: "\<forall>s \<in> set ?ss. spend_info_control_block si s \<noteq> None" by blast
  from cbs obtain cb where "spend_info_control_block si (n_of_n_with_timelock (lib env) key timelock) = Some cb"
    by auto
  with addr show ?thesis
    by (simp add: connector_a3_new_def a3_taproot_address_def a3_generate_spend_info_def)
qed

section \<open>Transaction constructors never panic\<close>

lemma psbt_from_create_tx_ins [simp]:
  "psbt_from_unsigned_tx ((create_tx (create_tx_ins us) outs)\<lparr>tx_version := v\<rparr>) \<noteq> None"
  "psbt_from_unsigned_tx (create_tx (create_tx_ins us) outs) \<noteq> None"
  by (simp_all add: psbt_from_unsigned_tx_def create_tx_ins_def list_all_iff)

lemma bind_expect_ok: "x \<noteq> None \<Longrightarrow> (\<And>a. \<exists>b. f a = Ok b) \<Longrightarrow> \<exists>b. bind_outcome (expect x) f = Ok b"
  by auto

lemma traverse_ok: "(\<And>x. x \<in> set xs \<Longrightarrow> \<exists>y. f x = Ok y) \<Longrightarrow> \<exists>ys. traverse f xs = Ok ys"
  by (induction xs) fastforce+

lemma graph_env_dust: "graph_env_ok env \<Longrightarrow> dust_ok env"
  by (simp add: graph_env_ok_def)

lemma claim_tx_new_ok:
  assumes "graph_env_ok env"
  shows "\<exists>c. claim_tx_new env sop k c0 c1 n_of_n cpfp = Ok c"
proof -
  note dust = graph_env_dust [OF assms]
  obtain o1 o2 o0 ok where outs: "c1_locking_script env c1 = Ok o1" "connector_n_of_n_address env n_of_n = Ok o2"
    "c0_locking_script env c0 = Ok o0" "connector_k_address env k = Ok ok"
    using connectors_ok [OF assms] by metis
  have "dust env o1 = 330" "dust env o2 = 330" "dust env (connector_cpfp_script cpfp) = 330"
    using dust_connectors(2) [OF dust outs(1)] dust_connectors(3) [OF dust outs(2)] dust_cpfp [OF dust]
    by (simp_all add: segwit_min_amount_def)
  then show ?thesis
    by (simp add: claim_tx_new_def outs amount_sub_def funding_amount_def Let_def bind_expect_ok)
qed

lemma challenge_tx_new_ok:
  assumes "graph_env_ok env"
  shows "\<exists>c. challenge_tx_new env cop amt key c1 = Ok c"
proof -
  obtain o1 where "c1_locking_script env c1 = Ok o1"
    using connectors_ok [OF assms] by metis
  then show ?thesis by (simp add: challenge_tx_new_def Let_def bind_expect_ok)
qed

lemma dust_330:
  assumes "graph_env_ok env"
  shows "c0_locking_script env c0 = Ok s \<Longrightarrow> dust env s = 330"
    and "c1_locking_script env c1 = Ok s \<Longrightarrow> dust env s = 330"
    and "connector_n_of_n_address env k = Ok s \<Longrightarrow> dust env s = 330"
    and "connector_p_address env p = Ok s \<Longrightarrow> dust env s = 330"
    and "a256_address env pks = Ok s \<Longrightarrow> dust env s = 330"
    and "a_hash_address env pks = Ok s \<Longrightarrow> dust env s = 330"
    and "dust env (connector_cpfp_script k) = 330"
  using dust_connectors [OF graph_env_dust [OF assms]] dust_cpfp [OF graph_env_dust [OF assms]]
  by (auto simp: segwit_min_amount_def)

lemma payout_optimistic_tx_new_ok:
  assumes "graph_env_ok env" and "amt + funding_amount < 2 ^ 64"
  shows "\<exists>ct. payout_optimistic_tx_new env claim deposit sop amt key c0 c1 n_of_n cp cpfp = Ok ct"
proof -
  obtain o1 o2 o3 o4 o5 s cb where outs: "taproot_address (lib env) (KeySpend key) = Ok o1"
    "connector_n_of_n_address env n_of_n = Ok o2" "c0_locking_script env c0 = Ok o3"
    "c1_locking_script env c1 = Ok o4" "connector_p_address env cp = Ok o5"
    "c1_spend_info env c1 = Ok (s, cb)"
    using connectors_ok [OF assms(1)] by metis
  note dusts = dust_330(2) [OF assms(1) outs(4)] dust_330(3) [OF assms(1) outs(2)]
    dust_330(4) [OF assms(1) outs(5)] dust_330(7) [OF assms(1)]
  show ?thesis
    using assms(2)
    by (simp add: payout_optimistic_tx_new_def outs dusts Let_def amount_mul_def amount_sub_def
        segwit_min_amount_def funding_amount_def amount_sum_eq psbt_from_unsigned_tx_def create_tx_ins_def)
qed

lemma commitment_outs_ok:
  assumes "graph_env_ok env"
  shows "\<exists>os. traverse (\<lambda>c. commitment_out env (a256_address env c)) cs = Ok os"
    and "\<exists>os. traverse (\<lambda>c. commitment_out env (a_hash_address env c)) cs = Ok os"
proof -
  have "\<exists>y. commitment_out env (a256_address env c) = Ok y" for c
    using connectors_ok(7) [OF assms, of c] dust_330(5) [OF assms, of c]
    by (auto simp: commitment_out_def amount_mul_def)
  then show "\<exists>os. traverse (\<lambda>c. commitment_out env (a256_address env c)) cs = Ok os"
    by (rule traverse_ok)
  have "\<exists>y. commitment_out env (a_hash_address env c) = Ok y" for c
    using connectors_ok(8) [OF assms, of c] dust_330(6) [OF assms, of c]
    by (auto simp: commitment_out_def amount_mul_def)
  then show "\<exists>os. traverse (\<lambda>c. commitment_out env (a_hash_address env c)) cs = Ok os"
    by (rule traverse_ok)
qed

lemma pre_assert_tx_new_ok:
  assumes "graph_env_ok env"
  shows "\<exists>ct. pre_assert_tx_new env claim c0 cpfp pks256 pks_hash = Ok ct"
proof -
  note dust = graph_env_dust [OF assms]
  let ?c = "a256_create_connectors pks256" and ?h = "a_hash_create_connectors pks_hash"
  obtain o1 o2 o3 o4 where os:
    "traverse (\<lambda>c. commitment_out env (a256_address env c)) (fst ?c) = Ok o1"
    "traverse (\<lambda>c. commitment_out env (a256_address env c)) (snd ?c) = Ok o2"
    "traverse (\<lambda>c. commitment_out env (a_hash_address env c)) (fst ?h) = Ok o3"
    "traverse (\<lambda>c. commitment_out env (a_hash_address env c)) (snd ?h) = Ok o4"
    using commitment_outs_ok [OF assms] by metis
  have lens: "length (fst ?c) = 3" "length (snd ?c) = 0" "length (fst ?h) = 33" "length (snd ?h) = 3"
    by (simp_all add: a256_create_connectors_def a_hash_create_connectors_def num_connectors_defs)
  have amounts: "sum_list (map snd o1) = 1980" "o2 = []" "sum_list (map snd o3) = 21780"
    "sum_list (map snd o4) = 1980" and lengths: "length o1 = 3" "length o3 = 33" "length o4 = 3"
    using commitment_outs_a256 [OF dust os(1)] commitment_outs_a256 [OF dust os(2)]
      commitment_outs_a_hash [OF dust os(3)] commitment_outs_a_hash [OF dust os(4)] lens
    by (auto simp: comp_def sum_list_triv)
  obtain o0 s cb where outs: "c0_locking_script env c0 = Ok o0" "c0_spend_info env c0 = Ok (s, cb)"
    using connectors_ok [OF assms] by metis
  show ?thesis
    by (simp add: pre_assert_tx_new_def case_prod_unfold os outs dust_330(7) [OF assms] amounts lengths
        Let_def amount_mul_def amount_sub_def segwit_min_amount_def funding_amount_def pre_assert_outs_def
        num_assert_data_tx_def amount_sum_eq psbt_from_unsigned_tx_def create_tx_ins_def)
qed

lemma post_assert_tx_new_ok:
  assumes "graph_env_ok env"
  shows "\<exists>ct. post_assert_tx_new env txids n_of_n a3 cpfp = Ok ct"
proof -
  obtain o1 where "connector_n_of_n_address env n_of_n = Ok o1"
    using connectors_ok [OF assms] by metis
  then show ?thesis
    by (simp add: post_assert_tx_new_def dust_330(7) [OF assms] Let_def amount_mul_def amount_sub_def
        segwit_min_amount_def num_assert_data_tx_def bind_expect_ok)
qed

lemma assert_data_batch_new_ok:
  assumes "graph_env_ok env" and "length ss = num_assert_data_tx"
  shows "\<exists>ps. assert_data_batch_new env pre ss n_of_n cpfp = Ok ps"
proof -
  obtain o1 where "connector_n_of_n_address env n_of_n = Ok o1"
    using connectors_ok [OF assms(1)] by metis
  then show ?thesis
    unfolding assert_data_batch_new_def using assms(2)
    by (intro traverse_ok) (simp add: assert_data_psbt_def amount_mul_def segwit_min_amount_def
        list_get_def Let_def bind_expect_ok)
qed

lemma assert_chain_new_ok:
  assumes "graph_env_ok env"
  shows "\<exists>ch. assert_chain_new env claim c0 n_of_n a3 cpfp pks_hash pks256 = Ok ch"
proof -
  obtain pre where pre: "pre_assert_tx_new env claim c0 cpfp pks256 pks_hash = Ok pre"
    using pre_assert_tx_new_ok [OF assms] by blast
  let ?ss = "take num_assert_data_tx (map script_pubkey (tx_output (ct_tx pre)))"
  have ss: "length ?ss = num_assert_data_tx"
    by (rule pre_assert_tx_newD [OF pre graph_env_dust [OF assms]]) (simp add: create_tx_outs_def)
  obtain batch where batch: "assert_data_batch_new env (ct_txid env pre) ?ss n_of_n cpfp = Ok batch"
    using assert_data_batch_new_ok [OF assms ss] by blast
  obtain post where "post_assert_tx_new env (assert_data_txids env batch) n_of_n a3 cpfp = Ok post"
    using post_assert_tx_new_ok [OF assms] by blast
  then show ?thesis
    unfolding assert_chain_new_def pre bind_outcome.simps Let_def using ss batch by simp
qed

lemma payout_tx_new_ok:
  assumes "graph_env_ok env" and "amt + funding_amount < 2 ^ 64"
    and "a3_generate_spend_info env a3 (A3Payout None) = Ok (s, cb)"
  shows "\<exists>ct. payout_tx_new env post deposit cop sop amt key a3 n_of_n cp cpfp = Ok ct"
proof -
  obtain o1 o2 o3 where outs: "taproot_address (lib env) (KeySpend key) = Ok o1"
    "connector_n_of_n_address env n_of_n = Ok o2" "connector_p_address env cp = Ok o3"
    using connectors_ok [OF assms(1)] by metis
  note dusts = dust_330(3) [OF assms(1) outs(2)] dust_330(4) [OF assms(1) outs(3)] dust_330(7) [OF assms(1)]
  have "sequence_from_height h < 2 ^ 31" for h
  proof -
    have "unat h < 2 ^ 16" using unsigned_less [of h] by simp
    then have "unat (ucast h :: u32) = unat h"
      by (simp add: unsigned_ucast_eq take_bit_nat_eq_self)
    with \<open>unat h < 2 ^ 16\<close> show ?thesis
      by (simp add: sequence_from_height_def word_less_nat_alt)
  qed
  then show ?thesis
    using assms(2,3)
    by (simp add: payout_tx_new_def outs dusts Let_def amount_mul_def amount_sub_def num_assert_data_tx_def
        segwit_min_amount_def funding_amount_def amount_sum_eq psbt_from_unsigned_tx_def create_tx_ins_def)
qed

lemma disprove_tx_new_ok:
  assumes "graph_env_ok env"
  shows "\<exists>ct. disprove_tx_new env post sop amt burn a3 stake = Ok ct"
proof -
  obtain o1 o2 where "taproot_address (lib env) (KeySpend (env_unspendable_key env)) = Ok o1"
    "connector_stake_address env stake = Ok o2"
    using connectors_ok [OF assms] by metis
  then show ?thesis
    by (simp add: disprove_tx_new_def Let_def amount_mul_def num_assert_data_tx_def segwit_min_amount_def
        psbt_from_unsigned_tx_def create_tx_ins_def)
qed

lemma slash_stake_tx_new_ok:
  assumes "graph_env_ok env" and "segwit_min_amount \<le> burn_amount scp"
  shows "\<exists>ct. slash_stake_tx_new env sop cop scp n_of_n stake = Ok ct"
proof -
  obtain o1 o2 o3 where "taproot_address (lib env) (KeySpend (env_unspendable_key env)) = Ok o1"
    "connector_n_of_n_address env n_of_n = Ok o2" "connector_stake_address env stake = Ok o3"
    using connectors_ok [OF assms(1)] by metis
  then show ?thesis using assms(2)
    by (simp add: slash_stake_tx_new_def Let_def amount_sub_def psbt_from_unsigned_tx_def create_tx_ins_def)
qed

section \<open>The graph is always generated\<close>

text \<open>
  The parameters of a deployment: the payout fits the amount type, and the slashing leaves a burn
  output after its dust output.
\<close>

definition graph_params_ok :: "peg_out_graph_params \<Rightarrow> stake_chain_params \<Rightarrow> bool" where
  "graph_params_ok gp scp \<longleftrightarrow>
     deposit_amount gp + funding_amount < 2 ^ 64 \<and> segwit_min_amount \<le> burn_amount scp"

lemma peg_out_graph_connectors_new_ok:
  assumes "graph_env_ok env" and "length (env_full_tapscripts env pks) + 2 \<le> 2 ^ 128"
  shows "\<exists>cs s cb. peg_out_graph_connectors_new env ctx deposit params key hash d pks = Ok cs \<and>
           a3_generate_spend_info env (post_assert_out_0 cs) (A3Payout None) = Ok (s, cb)"
proof -
  obtain a3 s cb where
    "connector_a3_new env deposit (ctx_aggregated_pubkey ctx) pks (param_payout_timelock params) = Ok a3"
    "a3_generate_spend_info env a3 (A3Payout None) = Ok (s, cb)"
    using connector_a3_new_ok [OF assms] by metis
  then show ?thesis by (simp add: peg_out_graph_connectors_new_def Let_def)
qed

lemma peg_out_graph_generate_ok:
  assumes "graph_env_ok env" and "graph_params_ok gp scp"
    and "length (env_full_tapscripts env (input_wots_public_keys inp)) + 2 \<le> 2 ^ 128"
  shows "\<exists>g cs. peg_out_graph_generate env inp ctx deposit gp cp scp prevs = Ok (g, cs)"
proof -
  have amt: "deposit_amount gp + funding_amount < 2 ^ 64" and burn: "segwit_min_amount \<le> burn_amount scp"
    using assms(2) by (simp_all add: graph_params_ok_def)
  obtain cs s cb where cs: "peg_out_graph_connectors_new env ctx deposit cp (operator_pubkey inp)
      (stake_hash inp) (delta scp) (input_wots_public_keys inp) = Ok cs"
    and a3: "a3_generate_spend_info env (post_assert_out_0 cs) (A3Payout None) = Ok (s, cb)"
    using peg_out_graph_connectors_new_ok [OF assms(1,3), of ctx deposit cp "operator_pubkey inp" "stake_hash inp" "delta scp"] by blast
  obtain claim where claim: "claim_tx_new env (withdrawal_fulfillment_outpoint inp) (kickoff cs)
      (claim_out_0 cs) (claim_out_1 cs) (n_of_n_key cs) (connector_cpfp cs) = Ok claim"
    by (rule exE [OF claim_tx_new_ok [OF assms(1)]])
  obtain challenge where challenge: "challenge_tx_new env \<lparr>op_txid = claim_txid env claim,
      op_vout = CHALLENGE_VOUT\<rparr> (challenge_cost gp) (operator_pubkey inp) (claim_out_1 cs) = Ok challenge"
    by (rule exE [OF challenge_tx_new_ok [OF assms(1)]])
  obtain ch where chain: "assert_chain_new env (claim_txid env claim) (claim_out_0 cs) (n_of_n_key cs)
      (post_assert_out_0 cs) (connector_cpfp cs) (assert_data_hash_factory cs) (assert_data256_factory cs) = Ok ch"
    by (rule exE [OF assert_chain_new_ok [OF assms(1)]])
  obtain slashes where slashes: "traverse (\<lambda>prev_claim. slash_stake_tx_new env (stake_outpoint inp)
      \<lparr>op_txid = prev_claim, op_vout = SLASH_STAKE_VOUT\<rparr> scp (n_of_n_key cs) (stake_connector cs)) prevs = Ok slashes"
    by (rule exE [OF traverse_ok [OF slash_stake_tx_new_ok [OF assms(1) burn]]])
  let ?stake = "\<lparr>op_txid = op_txid (stake_outpoint inp), op_vout = 1\<rparr>"
    and ?post = "ct_txid env (covenant_tx.truncate (ac_post_assert ch))"
  obtain opt where opt: "payout_optimistic_tx_new env (claim_txid env claim) deposit ?stake (deposit_amount gp)
      (operator_pubkey inp) (claim_out_0 cs) (claim_out_1 cs) (n_of_n_key cs) (hashlock_payout cs)
      (connector_cpfp cs) = Ok opt"
    by (rule exE [OF payout_optimistic_tx_new_ok [OF assms(1) amt]])
  obtain payout where payout: "payout_tx_new env ?post deposit \<lparr>op_txid = claim_txid env claim,
      op_vout = SLASH_STAKE_VOUT\<rparr> ?stake (deposit_amount gp) (operator_pubkey inp) (post_assert_out_0 cs)
      (n_of_n_key cs) (hashlock_payout cs) (connector_cpfp cs) = Ok payout"
    by (rule exE [OF payout_tx_new_ok [OF assms(1) amt a3]])
  obtain disprove where disprove: "disprove_tx_new env ?post (stake_outpoint inp) (stake_amount scp)
      (burn_amount scp) (post_assert_out_0 cs) (stake_connector cs) = Ok disprove"
    by (rule exE [OF disprove_tx_new_ok [OF assms(1)]])
  show ?thesis
    unfolding peg_out_graph_generate_def cs bind_outcome.simps claim Let_def challenge chain opt payout
      disprove slashes by blast
qed

section \<open>The signing data of the graph\<close>

text \<open>The covenant transactions with the number of their inputs that need a covenant signature.\<close>

definition covenant_inputs :: "peg_out_graph \<Rightarrow> (nat \<times> covenant_tx) list" where
  "covenant_inputs g =
     [(1, pog_challenge_tx g), (1, pog_pre_assert_ct g), (num_assert_data_tx, pog_post_assert_ct g),
      (num_payout_optimistic_inputs, pog_payout_optimistic_tx g), (num_payout_inputs, pog_payout_tx g),
      (1, pog_disprove_tx g)] @ map (Pair 2) (pog_slash_stake_txs g)"

lemma length_1_list_get: "length xs = Suc 0 \<Longrightarrow> \<exists>x. list_get xs 0 = Some x"
  by (cases xs) auto

lemma as_pair_ok: "length xs = 2 \<Longrightarrow> \<exists>p. as_pair xs = Ok p"
  by (auto simp: numeral_2_eq_2 length_Suc_conv)

lemma musig_functor_ok:
  assumes "\<forall>(n, ct) \<in> set (covenant_inputs g). \<exists>xs. f n ct = Ok xs \<and> length xs = n"
  shows "\<exists>m. musig_functor f g = Ok m \<and> pog_wf m \<and>
             length (pog_slash_stake m) = length (pog_slash_stake_txs g)"
proof -
  note all = assms [unfolded covenant_inputs_def, simplified]
  obtain ch ch0 where ch: "f 1 (pog_challenge_tx g) = Ok ch" "list_get ch 0 = Some ch0"
    using all length_1_list_get by (metis One_nat_def)
  obtain pre pre0 where pre: "f 1 (pog_pre_assert_ct g) = Ok pre" "list_get pre 0 = Some pre0"
    using all length_1_list_get by (metis One_nat_def)
  obtain dis dis0 where dis: "f 1 (pog_disprove_tx g) = Ok dis" "list_get dis 0 = Some dis0"
    using all length_1_list_get by (metis One_nat_def)
  obtain post opt pay where lists: "f num_assert_data_tx (pog_post_assert_ct g) = Ok post"
    "f num_payout_optimistic_inputs (pog_payout_optimistic_tx g) = Ok opt"
    "f num_payout_inputs (pog_payout_tx g) = Ok pay"
    and lens: "length post = num_assert_data_tx" "length opt = num_payout_optimistic_inputs"
    "length pay = num_payout_inputs"
    using all by metis
  have "\<exists>y. bind_outcome (f 2 ct) as_pair = Ok y" if "ct \<in> set (pog_slash_stake_txs g)" for ct
    using all that as_pair_ok by fastforce
  then obtain slash where
    slash: "traverse (\<lambda>ct. bind_outcome (f 2 ct) as_pair) (pog_slash_stake_txs g) = Ok slash"
    using traverse_ok by metis
  show ?thesis
    unfolding musig_functor_def ch(1) pre(1) dis(1) lists slash bind_outcome.simps ch(2) pre(2) dis(2)
      expect_simps
    using lens traverse_length [OF slash]
    by (simp add: pog_wf_def num_assert_data_tx_def num_post_assert_inputs_def)
qed

lemma graph_covenant_shape:
  assumes "peg_out_graph_generate env inp ctx deposit gp cp scp prevs = Ok (g, cs)" and "dust_ok env"
  shows "\<forall>(n, ct) \<in> set (covenant_inputs g).
           length (ct_witnesses ct) = n \<and> n \<le> length (psbt_inputs (ct_psbt ct))"
proof -
  note gen = peg_out_graph_generateD [OF assms(1)] and dust = assms(2)
  note chain = assert_chain_newD [OF gen(5)]
  have txids: "length (assert_data_txids env (ac_assert_data (pog_assert_chain g))) = num_assert_data_tx"
    by (simp add: assert_data_txids_def assert_data_batch_newD(1) [OF chain(2)])
  have "length (ct_witnesses ct) = 2 \<and> 2 \<le> length (psbt_inputs (ct_psbt ct))"
    if ct: "ct \<in> set (pog_slash_stake_txs g)" for ct
  proof -
    obtain prev where "slash_stake_tx_new env (stake_outpoint inp)
       \<lparr>op_txid = prev, op_vout = SLASH_STAKE_VOUT\<rparr> scp (n_of_n_key cs) (stake_connector cs) = Ok ct"
      using gen(8) ct unfolding traverse_Ok_iff by (auto simp: list_all2_conv_all_nth in_set_conv_nth)
    then show ?thesis by (rule slash_stake_tx_newD [OF _ dust]) simp
  qed
  moreover have "length (ct_witnesses (pog_challenge_tx g)) = 1" "1 \<le> length (psbt_inputs (ct_psbt (pog_challenge_tx g)))"
    by (rule challenge_tx_newD [OF gen(3) dust], simp)+
  moreover have "length (ct_witnesses (pog_pre_assert_ct g)) = 1" "1 \<le> length (psbt_inputs (ct_psbt (pog_pre_assert_ct g)))"
    by (rule pre_assert_tx_newD [OF chain(1) dust], simp)+
  moreover have "length (ct_witnesses (pog_post_assert_ct g)) = num_assert_data_tx"
    "num_assert_data_tx \<le> length (psbt_inputs (ct_psbt (pog_post_assert_ct g)))"
    by (rule post_assert_tx_newD [OF chain(3) dust txids], simp)+
  moreover have "length (ct_witnesses (pog_payout_optimistic_tx g)) = 5"
    "5 \<le> length (psbt_inputs (ct_psbt (pog_payout_optimistic_tx g)))"
    by (rule payout_optimistic_tx_newD [OF gen(4) dust], simp)+
  moreover have "length (ct_witnesses (pog_payout_tx g)) = 4" "4 \<le> length (psbt_inputs (ct_psbt (pog_payout_tx g)))"
    by (rule payout_tx_newD [OF gen(6) dust], simp)+
  moreover have "length (ct_witnesses (pog_disprove_tx g)) = 1" "1 \<le> length (psbt_inputs (ct_psbt (pog_disprove_tx g)))"
    by (rule disprove_tx_newD [OF gen(7) dust], simp)+
  ultimately show ?thesis
    by (auto simp: covenant_inputs_def num_payout_optimistic_inputs_def num_payout_inputs_def)
qed

lemma ct_sighash_types_length:
  "n \<le> length (psbt_inputs (ct_psbt ct)) \<Longrightarrow> \<exists>xs. ct_sighash_types n ct = Ok xs \<and> length xs = n"
  by (simp add: ct_sighash_types_def)

lemma summarize_ok:
  assumes "peg_out_graph_generate env inp ctx deposit gp cp scp prevs = Ok (g, cs)" and "dust_ok env"
  shows "\<exists>sum. summarize env g = Ok sum \<and> stake_txid sum = op_txid (withdrawal_fulfillment_outpoint inp) \<and>
           length (slash_stake_txids sum) = length prevs \<and>
           length (summary_assert_data_txids sum) = num_assert_data_tx"
proof -
  note gen = peg_out_graph_generateD [OF assms(1)]
  note chain = assert_chain_newD [OF gen(5)]
  have "map previous_output (tx_input (unsigned_tx (claim_psbt (pog_claim_tx g)))) = [withdrawal_fulfillment_outpoint inp]"
    by (rule claim_tx_newD [OF gen(2) assms(2)]) (simp add: create_tx_ins_def)
  then obtain i where "tx_input (unsigned_tx (claim_psbt (pog_claim_tx g))) = [i]"
    "previous_output i = withdrawal_fulfillment_outpoint inp" by auto
  then show ?thesis
    by (simp add: summarize_def traverse_length [OF gen(8)] assert_data_txids_def
        assert_data_batch_newD(1) [OF chain(2)])
qed

lemma generated_graph_data:
  assumes gen: "peg_out_graph_generate env inp ctx deposit gp cp scp prevs = Ok (g, cs)" and dust: "dust_ok env"
  shows "\<exists>sum types ws. summarize env g = Ok sum \<and> length (slash_stake_txids sum) = length prevs \<and>
           musig_sighash_types g = Ok types \<and> pog_wf types \<and> length (pog_slash_stake types) = length prevs \<and>
           musig_witnesses g = Ok ws \<and> pog_wf ws \<and> length (pog_slash_stake ws) = length prevs"
proof -
  note shape = graph_covenant_shape [OF gen dust]
  have slashes: "length (pog_slash_stake_txs g) = length prevs"
    by (rule traverse_length [OF peg_out_graph_generateD(8) [OF gen]])
  have "\<forall>(n, ct) \<in> set (covenant_inputs g). \<exists>xs. ct_sighash_types n ct = Ok xs \<and> length xs = n"
    using shape by (auto intro: ct_sighash_types_length)
  then obtain types where "musig_sighash_types g = Ok types" "pog_wf types"
    "length (pog_slash_stake types) = length prevs"
    using musig_functor_ok [of g ct_sighash_types] slashes unfolding musig_sighash_types_def by auto
  moreover have "\<forall>(n, ct) \<in> set (covenant_inputs g). \<exists>xs.
      (if length (ct_witnesses ct) = n then Ok (ct_witnesses ct) else Panic) = Ok xs \<and> length xs = n"
    using shape by auto
  then obtain ws where "musig_witnesses g = Ok ws" "pog_wf ws" "length (pog_slash_stake ws) = length prevs"
    using musig_functor_ok [of g "\<lambda>n ct. if length (ct_witnesses ct) = n then Ok (ct_witnesses ct) else Panic"]
      slashes unfolding musig_witnesses_def by auto
  ultimately show ?thesis
    using summarize_ok [OF gen dust] by blast
qed

section \<open>An example environment\<close>

definition example_env :: graph_env where
  "example_env =
     \<lparr>env_compute_txid = (\<lambda>tx. of_nat (length (tx_input tx) + 100 * length (tx_output tx))),
      env_minimal_non_dust = (\<lambda>_. 330),
      env_tap_tweak = (\<lambda>k _. k), env_tap_leaf_hash = (\<lambda>_. 0),
      env_taproot_finalize = (\<lambda>_ leaves. Some \<lparr>merkle_root = None, script_map = map (\<lambda>(d, s). (s, [])) leaves\<rparr>),
      env_unspendable_key = 0, env_push_slice = (\<lambda>d. of_nat (length d) # d), env_push_int = (\<lambda>n. [of_nat n]), env_key_spend_hash = (\<lambda>_ _ _ _. None),
      env_script_spend_hash = (\<lambda>_ _ _ _ _. None),
      env_wots256_checksig_verify = concat, env_wots_hash_checksig_verify = concat, env_wots_hash_len = 20,
      env_disprove_public_inputs = (\<lambda>_ _. []), env_full_tapscripts = (\<lambda>_. [])\<rparr>"

definition example_wots :: wots_public_keys where
  "example_wots = \<lparr>withdrawal_fulfillment_pk = [], groth16_public_inputs = [], groth16_fqs = [], groth16_hashes = []\<rparr>"

definition example_input :: peg_out_graph_input where
  "example_input = \<lparr>stake_outpoint = \<lparr>op_txid = 1, op_vout = 0\<rparr>,
     withdrawal_fulfillment_outpoint = \<lparr>op_txid = 2, op_vout = 0\<rparr>, stake_hash = 3,
     input_wots_public_keys = example_wots, operator_pubkey = 4\<rparr>"

definition example_ctx :: build_context where
  "example_ctx = \<lparr>ctx_aggregated_pubkey = 8, ctx_own_index = 0\<rparr>"

definition example_graph_params :: peg_out_graph_params where
  "example_graph_params = \<lparr>tag = [], deposit_amount = 1000000000, operator_fee = 10000000,
     challenge_cost = 1000000000, refund_delay = 1008\<rparr>"

definition example_connector_params :: connector_params where
  "example_connector_params = \<lparr>param_payout_optimistic_timelock = 1000, param_pre_assert_timelock = 1100,
     param_payout_timelock = 1200\<rparr>"

definition example_stake_params :: stake_chain_params where
  "example_stake_params = \<lparr>stake_amount = 100000000, burn_amount = 10000000, delta = 6, slash_stake_count = 2\<rparr>"

lemma example_dust_ok: "dust_ok example_env"
  by (simp add: dust_ok_def example_env_def segwit_min_amount_def)

lemma example_env_ok: "graph_env_ok example_env"
proof -
  have "\<exists>y. map_of (map (\<lambda>(d, s). (s, [] :: bytes)) leaves) s = Some y" if "s \<in> snd ` set leaves"
    for leaves :: "(nat \<times> script_buf) list" and s
    using that by (induction leaves) auto
  then have "taproot_builder_ok (lib example_env)"
    by (simp add: taproot_builder_ok_def example_env_def btc_env.truncate_def spend_info_control_block_def)
  then show ?thesis by (simp add: graph_env_ok_def example_dust_ok)
qed

lemma example_params_ok: "graph_params_ok example_graph_params example_stake_params"
  by (simp add: graph_params_ok_def example_graph_params_def example_stake_params_def funding_amount_def
      segwit_min_amount_def)

lemma example_tapscripts: "length (env_full_tapscripts example_env pks) + 2 \<le> 2 ^ 128"
  by (simp add: example_env_def)

lemma example_generate:
  "\<exists>g cs. peg_out_graph_generate example_env example_input example_ctx 7 example_graph_params
      example_connector_params example_stake_params prevs = Ok (g, cs)"
  by (rule peg_out_graph_generate_ok [OF example_env_ok example_params_ok example_tapscripts])

section \<open>Properties\<close>

text \<open>
  (C21) Under the contracts of the taproot builder and of the dust computation, and with amounts that fit,
  the generation of a peg-out graph neither panics nor fails, whatever the operator's input, the deposit
  and the list of earlier claims; and on the graph it returns the summary, the sighash types and the
  witnesses of all signed inputs are computed without a panic, with one slash-stake entry for each
  earlier claim.
\<close>

theorem peg_out_graph_generate_total:
  assumes "graph_env_ok env" and "graph_params_ok gp scp"
    and "length (env_full_tapscripts env (input_wots_public_keys inp)) + 2 \<le> 2 ^ 128"
  shows "\<exists>g cs sum types ws. peg_out_graph_generate env inp ctx deposit gp cp scp prevs = Ok (g, cs) \<and>
           summarize env g = Ok sum \<and> length (slash_stake_txids sum) = length prevs \<and>
           musig_sighash_types g = Ok types \<and> pog_wf types \<and> length (pog_slash_stake types) = length prevs \<and>
           musig_witnesses g = Ok ws \<and> pog_wf ws \<and> length (pog_slash_stake ws) = length prevs"
proof -
  obtain g cs where gen: "peg_out_graph_generate env inp ctx deposit gp cp scp prevs = Ok (g, cs)"
    using peg_out_graph_generate_ok [OF assms] by blast
  then show ?thesis using generated_graph_data [OF gen graph_env_dust [OF assms(1)]] by blast
qed

theorem peg_out_graph_generate_total_witness:
  "\<exists>g cs ws. peg_out_graph_generate example_env example_input example_ctx 7 example_graph_params
      example_connector_params example_stake_params [5, 6] = Ok (g, cs) \<and>
     musig_witnesses g = Ok ws \<and> length (pog_slash_stake ws) = 2"
  using peg_out_graph_generate_total [OF example_env_ok example_params_ok example_tapscripts,
      of example_input example_ctx 7 example_connector_params "[5, 6]"] by auto

text \<open>
  (C18) In every peg-out graph that is generated, each input that spends another transaction of the
  graph points at the output it is meant to spend, and the value and script to which its signature
  commits are exactly those of that output: challenge to the second claim output, optimistic payout
  to the first three claim outputs, pre-assert to the first one, each assert-data transaction to its
  pre-assert output, post-assert to the first output of each assert-data transaction, payout and
  disprove to the post-assert output.
\<close>

theorem peg_out_graph_links:
  assumes "peg_out_graph_generate env inp ctx deposit gp cp scp prevs = Ok (g, cs)" and "dust_ok env"
  shows "let claim = unsigned_tx (claim_psbt (pog_claim_tx g));
             pre = ct_tx (pog_pre_assert_ct g); post = ct_tx (pog_post_assert_ct g);
             data = ac_assert_data (pog_assert_chain g) in
         links_to env (ct_psbt (pog_challenge_tx g)) 0 claim 1 \<and>
         links_to env (ct_psbt (pog_payout_optimistic_tx g)) 1 claim 0 \<and>
         links_to env (ct_psbt (pog_payout_optimistic_tx g)) 2 claim 1 \<and>
         links_to env (ct_psbt (pog_payout_optimistic_tx g)) 3 claim 2 \<and>
         links_to env (ct_psbt (pog_pre_assert_ct g)) 0 claim 0 \<and>
         (\<forall>i < num_assert_data_tx. links_to env (data ! i) 0 pre i \<and>
            links_to env (ct_psbt (pog_post_assert_ct g)) i (unsigned_tx (data ! i)) 0) \<and>
         links_to env (ct_psbt (pog_payout_tx g)) 1 post 0 \<and>
         links_to env (ct_psbt (pog_payout_tx g)) 2 claim 2 \<and>
         links_to env (ct_psbt (pog_disprove_tx g)) 1 post 0 \<and>
         (\<forall>ct \<in> {pog_challenge_tx g, pog_payout_optimistic_tx g, pog_pre_assert_ct g, pog_post_assert_ct g,
                  pog_payout_tx g, pog_disprove_tx g}. prevouts_agree ct (ct_prevouts ct))"
proof -
  note gen = peg_out_graph_generateD [OF assms(1)]
  note chain = assert_chain_newD [OF gen(5)]
  note balanced = assert_chain_balanced [OF gen(5) assms(2)]
  note post = balanced(4)
  show ?thesis
    using challenge_links [OF gen(2) assms(2) gen(3)] payout_optimistic_links [OF gen(2) assms(2) gen(4)]
      pre_assert_links [OF gen(2) assms(2) chain(1)] assert_chain_links [OF gen(5) assms(2)]
      payout_links [OF gen(2) assms(2) gen(6) [unfolded ct_txid_def] post]
      disprove_links [OF gen(7) [unfolded ct_txid_def] assms(2) post] balanced(3)
    by (simp add: Let_def)
qed

theorem peg_out_graph_links_witness:
  "\<exists>g cs. peg_out_graph_generate example_env example_input example_ctx 7 example_graph_params
      example_connector_params example_stake_params [5, 6] = Ok (g, cs) \<and>
     links_to example_env (ct_psbt (pog_payout_tx g)) 1 (ct_tx (pog_post_assert_ct g)) 0"
proof -
  obtain g cs where gen: "peg_out_graph_generate example_env example_input example_ctx 7 example_graph_params
      example_connector_params example_stake_params [5, 6] = Ok (g, cs)"
    using example_generate by blast
  show ?thesis
    using peg_out_graph_links [OF gen example_dust_ok] gen unfolding Let_def by blast
qed

text \<open>
  (C19) No transaction of a generated graph that relies on child-pays-for-parent pays a fee of its own
  or creates value: claim, optimistic payout, pre-assert, all assert-data transactions, post-assert
  and payout spend exactly what they pay.
\<close>

theorem peg_out_graph_balanced:
  assumes "peg_out_graph_generate env inp ctx deposit gp cp scp prevs = Ok (g, cs)" and "dust_ok env"
  shows "\<forall>p \<in> {claim_psbt (pog_claim_tx g), ct_psbt (pog_payout_optimistic_tx g),
                ct_psbt (pog_pre_assert_ct g), ct_psbt (pog_post_assert_ct g), ct_psbt (pog_payout_tx g)} \<union>
              set (ac_assert_data (pog_assert_chain g)).
           spent_value p = paid_value p"
proof -
  note gen = peg_out_graph_generateD [OF assms(1)]
  note chain = assert_chain_newD [OF gen(5)]
  note balanced = assert_chain_balanced [OF gen(5) assms(2)]
  have "\<forall>p \<in> set (ac_assert_data (pog_assert_chain g)). spent_value p = paid_value p"
    using balanced(1) assert_data_batch_newD(1) [OF chain(2)] by (auto simp: in_set_conv_nth)
  then show ?thesis
    using claim_balanced [OF gen(2) assms(2)] payout_optimistic_links [OF gen(2) assms(2) gen(4)]
      pre_assert_links [OF gen(2) assms(2) chain(1)] balanced(2)
      payout_links [OF gen(2) assms(2) gen(6) [unfolded ct_txid_def] balanced(4)]
    by (simp add: ball_Un)
qed

theorem peg_out_graph_balanced_witness:
  "\<exists>g cs. peg_out_graph_generate example_env example_input example_ctx 7 example_graph_params
      example_connector_params example_stake_params [5, 6] = Ok (g, cs) \<and>
     spent_value (ct_psbt (pog_payout_tx g)) = paid_value (ct_psbt (pog_payout_tx g))"
proof -
  obtain g cs where gen: "peg_out_graph_generate example_env example_input example_ctx 7 example_graph_params
      example_connector_params example_stake_params [5, 6] = Ok (g, cs)"
    using example_generate by blast
  show ?thesis
    using peg_out_graph_balanced [OF gen example_dust_ok] gen by blast
qed

end
