(* ===== verification/Deposit.thy ===== *)
theory Deposit
  imports Graph_Generation Operator_Table
begin

text \<open>
  The deposit side of the bridge: the metadata carried by \<open>OP_RETURN\<close> outputs
  (\<open>primitives/src/scripts/metadata.rs\<close>), the validation of a deposit request and the deposit
  transaction (\<open>tx-graph/src/transactions/deposit.rs\<close>), the withdrawal fulfillment transaction
  (\<open>withdrawal_fulfillment.rs\<close>) and the predicates by which a node recognises them on chain
  (\<open>duty-tracker/src/predicates.rs\<close>).
\<close>

section \<open>Definitions\<close>

text \<open>
  The environment adds the remaining third-party functions: \<open>Miniscript::from_str\<close> followed by
  \<open>encode\<close> on the policy of the take-back leaf, \<open>XOnlyPublicKey::from_slice\<close>, the iterator of
  \<open>Script::instructions\<close> (\<open>None\<close> is an error item), the consensus encoding of a transaction id, the
  script of an output descriptor, and the operations of the \<open>musig2\<close> crate on opaque contexts, nonces
  and partial signatures.
\<close>

type_synonym descriptor = bytes
type_synonym key_agg_ctx = bytes
type_synonym pub_nonce = bytes
type_synonym agg_nonce = bytes
type_synonym partial_signature = "256 word"

datatype instruction = InstrOp u8 | InstrPushBytes bytes

record bridge_env =
  graph_lib :: graph_env
  miniscript_take_back :: "xonly_key \<Rightarrow> u16 \<Rightarrow> script_buf option"
  xonly_from_slice :: "bytes \<Rightarrow> xonly_key option"
  script_instructions :: "script_buf \<Rightarrow> instruction option list"
  serialize_txid :: "txid \<Rightarrow> bytes"
  descriptor_to_address :: "descriptor \<Rightarrow> script_buf option"
  descriptor_to_script :: "descriptor \<Rightarrow> script_buf"
  key_agg_new :: "btc_key list \<Rightarrow> key_agg_ctx option"
  key_agg_unspendable_tweak :: "key_agg_ctx \<Rightarrow> key_agg_ctx option"
  key_agg_taproot_tweak :: "key_agg_ctx \<Rightarrow> tap_node_hash \<Rightarrow> key_agg_ctx option"
  key_agg_pubkey :: "key_agg_ctx \<Rightarrow> btc_key"
  agg_nonce_sum :: "pub_nonce list \<Rightarrow> agg_nonce"
  verify_partial :: "key_agg_ctx \<Rightarrow> partial_signature \<Rightarrow> agg_nonce \<Rightarrow> btc_key \<Rightarrow> pub_nonce \<Rightarrow> 256 word \<Rightarrow> bool"
  aggregate_partial_signatures ::
    "key_agg_ctx \<Rightarrow> agg_nonce \<Rightarrow> partial_signature list \<Rightarrow> 256 word \<Rightarrow> schnorr_sig option"

abbreviation btc :: "bridge_env \<Rightarrow> btc_env" where
  "btc benv \<equiv> lib (graph_lib benv)"

subsection \<open>Metadata\<close>

datatype deposit_metadata =
    DepositRequestMetadata xonly_key bytes
  | DepositTxMetadata u32 bytes tap_node_hash amount

record auxiliary_data =
  aux_tag :: bytes
  aux_metadata :: deposit_metadata

definition auxiliary_to_vec :: "auxiliary_data \<Rightarrow> bytes" where
  "auxiliary_to_vec aux = aux_tag aux @
     (case aux_metadata aux of
        DepositRequestMetadata takeback_pubkey ee_address \<Rightarrow> xonly_bytes takeback_pubkey @ ee_address
      | DepositTxMetadata stake_index ee_address takeback_hash input_amount \<Rightarrow>
          u32_to_be_bytes stake_index @ ee_address @ xonly_bytes takeback_hash @
          u64_to_be_bytes (of_nat input_amount))"

definition metadata_script :: "btc_env \<Rightarrow> auxiliary_data \<Rightarrow> ('e, script_buf) outcome" where
  "metadata_script env aux =
     (let data = auxiliary_to_vec aux in
      if length data < 2 ^ 32 then Ok (OP_RETURN # env_push_slice env data) else Panic)"

definition drt_take_back :: "bridge_env \<Rightarrow> xonly_key \<Rightarrow> u16 \<Rightarrow> ('e, script_buf) outcome" where
  "drt_take_back benv key refund = expect (miniscript_take_back benv key refund)"

subsection \<open>Deposit requests and the deposit transaction\<close>

datatype bridge_tx_error =
    InvalidTapLeafHash
  | InvalidEeAddressSize nat nat
  | DepositBuilderError builder_error
  | PsbtError

record deposit_request_data =
  deposit_request_outpoint :: out_point
  stake_index :: u32
  ee_address :: bytes
  total_amount :: amount
  drd_x_only_public_key :: xonly_key
  original_script_pubkey :: script_buf

text \<open>The \<open>?\<close> operator on the result of \<open>create_taproot_addr\<close> and of \<open>Psbt::from_unsigned_tx\<close>.\<close>

fun builder_result :: "(builder_error, 'a) outcome \<Rightarrow> (bridge_tx_error, 'a) outcome" where
  "builder_result (Ok a) = Ok a"
| "builder_result (Err e) = Err (DepositBuilderError e)"
| "builder_result Panic = Panic"

definition deposit_request_validate ::
    "bridge_env \<Rightarrow> deposit_request_data \<Rightarrow> build_context \<Rightarrow> u16 \<Rightarrow> (bridge_tx_error, unit) outcome" where
  "deposit_request_validate benv data ctx refund =
     bind_outcome (drt_take_back benv (drd_x_only_public_key data) refund) (\<lambda>takeback_script.
     bind_outcome (expect_ok (create_taproot_addr (btc benv)
         (BothSpend (ctx_aggregated_pubkey ctx) [takeback_script]))) (\<lambda>(address, _).
     if address \<noteq> original_script_pubkey data then Err InvalidTapLeafHash else Ok ()))"

definition deposit_tx_new ::
    "bridge_env \<Rightarrow> deposit_request_data \<Rightarrow> build_context \<Rightarrow> peg_out_graph_params \<Rightarrow> u8 \<Rightarrow>
       (bridge_tx_error, covenant_tx) outcome" where
  "deposit_tx_new benv data ctx params address_length =
     bind_outcome (deposit_request_validate benv data ctx (refund_delay params)) (\<lambda>_.
     let ps = [\<lparr>txout_value = total_amount data, script_pubkey = original_script_pubkey data\<rparr>];
         ins = create_tx_ins [deposit_request_outpoint data] in
     bind_outcome (drt_take_back benv (drd_x_only_public_key data) (refund_delay params)) (\<lambda>takeback_script.
     let takeback_hash = env_tap_leaf_hash (btc benv) takeback_script in
     if length (ee_address data) \<noteq> unat address_length
     then Err (InvalidEeAddressSize (length (ee_address data)) (unat address_length)) else
     bind_outcome (metadata_script (btc benv)
         \<lparr>aux_tag = tag params, aux_metadata = DepositTxMetadata (stake_index data) (ee_address data)
            takeback_hash (total_amount data)\<rparr>) (\<lambda>meta.
     bind_outcome (builder_result (create_taproot_addr (btc benv) (KeySpend (ctx_aggregated_pubkey ctx))))
       (\<lambda>(bridge_addr, _).
     bind_outcome (ok_or PsbtError (psbt_from_unsigned_tx
         (create_tx ins (create_tx_outs [(bridge_addr, deposit_amount params), (meta, 0)])))) (\<lambda>p.
       Ok \<lparr>ct_psbt = set_prevouts SighashDefault ps p, ct_prevouts = PrevoutsAll ps,
           ct_witnesses = [WitnessTweaked takeback_hash]\<rparr>)))))"

subsection \<open>Withdrawal fulfillment\<close>

record withdrawal_metadata =
  wm_tag :: bytes
  wm_operator_idx :: operator_idx
  wm_deposit_idx :: u32
  wm_deposit_txid :: txid

definition op_return_data_of :: "bridge_env \<Rightarrow> withdrawal_metadata \<Rightarrow> bytes" where
  "op_return_data_of benv m =
     wm_tag m @ u32_to_be_bytes (wm_operator_idx m) @ u32_to_be_bytes (wm_deposit_idx m) @
     serialize_txid benv (wm_deposit_txid m)"

definition withdrawal_fulfillment_new ::
    "bridge_env \<Rightarrow> withdrawal_metadata \<Rightarrow> out_point list \<Rightarrow> amount \<Rightarrow> tx_out option \<Rightarrow> descriptor \<Rightarrow>
       ('e, transaction) outcome" where
  "withdrawal_fulfillment_new benv m sender_outpoints amt change recipient_desc =
     bind_outcome (op_return_nonce (btc benv) (op_return_data_of benv m)) (\<lambda>op_return_script.
       Ok (create_tx (create_tx_ins sender_outpoints)
         (create_tx_outs ([(descriptor_to_script benv recipient_desc, amt), (op_return_script, 0)] @
            (case change of None \<Rightarrow> [] | Some c \<Rightarrow> [(script_pubkey c, txout_value c)])))))"

subsection \<open>Predicates on confirmed transactions\<close>

definition op_return_data :: "bridge_env \<Rightarrow> script_buf \<Rightarrow> bytes option" where
  "op_return_data benv script =
     (case script_instructions benv script of
        Some (InstrOp opcode) # rest \<Rightarrow>
          if opcode = OP_RETURN
          then (case rest of Some (InstrPushBytes data) # _ \<Rightarrow> Some data | _ \<Rightarrow> None) else None
      | _ \<Rightarrow> None)"

definition starts_with :: "bytes \<Rightarrow> bytes \<Rightarrow> bool" where
  "starts_with data pre \<longleftrightarrow> take (length pre) data = pre"

definition magic_tagged_data :: "bridge_env \<Rightarrow> bytes \<Rightarrow> script_buf \<Rightarrow> bytes option" where
  "magic_tagged_data benv t script =
     Option.bind (op_return_data benv script)
       (\<lambda>data. if starts_with data t then Some (drop (length t) data) else None)"

text \<open>\<open>SCHNORR_PUBLIC_KEY_SIZE\<close> of the \<open>bitcoin\<close> crate.\<close>

definition schnorr_public_key_size :: nat where
  "schnorr_public_key_size = 32"

text \<open>The closure that splits the metadata; an unparsable key is an \<open>expect\<close>.\<close>

definition recovery_and_address ::
    "bridge_env \<Rightarrow> nat \<Rightarrow> bytes \<Rightarrow> ('e, (xonly_key \<times> bytes) option) outcome" where
  "recovery_and_address benv ee_address_size meta =
     (if length meta \<noteq> schnorr_public_key_size + ee_address_size then Ok None
      else case slice_get meta 0 schnorr_public_key_size of None \<Rightarrow> Ok None
      | Some key_bytes \<Rightarrow> bind_outcome (expect (xonly_from_slice benv key_bytes)) (\<lambda>key.
          Ok (map_option (Pair key)
            (slice_get meta schnorr_public_key_size (schnorr_public_key_size + ee_address_size)))))"

definition deposit_request_info ::
    "bridge_env \<Rightarrow> transaction \<Rightarrow> u8 \<Rightarrow> peg_out_graph_params \<Rightarrow> build_context \<Rightarrow> u32 \<Rightarrow>
       (bridge_tx_error, deposit_request_data option) outcome" where
  "deposit_request_info benv tx address_length params ctx stake_idx =
     (case list_get (tx_output tx) 0 of None \<Rightarrow> Ok None
      | Some request_output \<Rightarrow>
        if txout_value request_output \<le> deposit_amount params then Ok None
        else case list_get (tx_output tx) 1 of None \<Rightarrow> Ok None
        | Some meta_output \<Rightarrow>
          case magic_tagged_data benv (tag params) (script_pubkey meta_output) of None \<Rightarrow> Ok None
          | Some meta \<Rightarrow>
            bind_outcome (recovery_and_address benv (unat address_length) meta) (\<lambda>parsed.
            case parsed of None \<Rightarrow> Ok None
            | Some (key, el_addr) \<Rightarrow>
              let data = \<lparr>deposit_request_outpoint =
                            \<lparr>op_txid = env_compute_txid (btc benv) tx, op_vout = 0\<rparr>,
                          stake_index = stake_idx, ee_address = el_addr,
                          total_amount = txout_value request_output, drd_x_only_public_key = key,
                          original_script_pubkey = script_pubkey request_output\<rparr> in
              (case deposit_request_validate benv data ctx (refund_delay params) of
                 Ok _ \<Rightarrow> Ok (Some data) | Err _ \<Rightarrow> Ok None | Panic \<Rightarrow> Panic)))"

definition is_challenge :: "txid \<Rightarrow> transaction \<Rightarrow> bool" where
  "is_challenge claim tx \<longleftrightarrow>
     (case list_get (tx_input tx) 0 of None \<Rightarrow> False
      | Some i \<Rightarrow> previous_output i = \<lparr>op_txid = claim, op_vout = CHALLENGE_VOUT\<rparr>) \<and>
     length (tx_output tx) = 1"

definition POST_ASSERT_INPUT_INDEX :: nat where
  "POST_ASSERT_INPUT_INDEX = 1"

definition is_disprove :: "txid \<Rightarrow> transaction \<Rightarrow> bool" where
  "is_disprove post_assert tx \<longleftrightarrow>
     (case list_get (tx_input tx) POST_ASSERT_INPUT_INDEX of None \<Rightarrow> False
      | Some i \<Rightarrow> previous_output i = \<lparr>op_txid = post_assert, op_vout = 0\<rparr>) \<and>
     length (tx_input tx) = 2 \<and> length (tx_output tx) = 2"

text \<open>
  The amount is subtracted when the predicate is created; the closure then looks at the first two
  outputs. The slices \<open>metadata.get(a..b)\<close> are \<open>None\<close> out of range.
\<close>

definition fulfillment_metadata_ok ::
    "bridge_env \<Rightarrow> bytes \<Rightarrow> operator_idx \<Rightarrow> u32 \<Rightarrow> txid \<Rightarrow> bytes \<Rightarrow> bool" where
  "fulfillment_metadata_ok benv t op_idx dep_idx dep_txid metadata \<longleftrightarrow>
     (let op_bytes = u32_to_be_bytes op_idx; dep_bytes = u32_to_be_bytes dep_idx;
          txid_bytes = serialize_txid benv dep_txid;
          op_offset = length t; dep_offset = op_offset + length op_bytes;
          txid_offset = dep_offset + length dep_bytes in
      starts_with metadata t \<and>
      slice_get metadata op_offset (op_offset + length op_bytes) = Some op_bytes \<and>
      slice_get metadata dep_offset (dep_offset + length dep_bytes) = Some dep_bytes \<and>
      slice_get metadata txid_offset (txid_offset + length txid_bytes) = Some txid_bytes)"

definition is_fulfillment_tx ::
    "bridge_env \<Rightarrow> peg_out_graph_params \<Rightarrow> operator_idx \<Rightarrow> u32 \<Rightarrow> txid \<Rightarrow> descriptor \<Rightarrow> transaction \<Rightarrow>
       ('e, bool) outcome" where
  "is_fulfillment_tx benv params op_idx dep_idx dep_txid recipient tx =
     bind_outcome (amount_sub (deposit_amount params) (operator_fee params)) (\<lambda>output_amount.
     let first_output_ok =
           (case (descriptor_to_address benv recipient, list_get (tx_output tx) 0) of
              (Some addr, Some out) \<Rightarrow> script_pubkey out = addr \<and> txout_value out = output_amount
            | _ \<Rightarrow> False);
         second_output_ok =
           (case Option.bind (list_get (tx_output tx) 1) (\<lambda>out. op_return_data benv (script_pubkey out)) of
              Some metadata \<Rightarrow> fulfillment_metadata_ok benv (tag params) op_idx dep_idx dep_txid metadata
            | None \<Rightarrow> False) in
       Ok (first_output_ok \<and> second_output_ok))"

section \<open>Contracts of the libraries\<close>

text \<open>
  A script that consists of \<open>OP_RETURN\<close> and one push of at least two bytes parses back to these two
  instructions; the consensus encoding of a transaction id is its 32 bytes; the address of a
  descriptor, when it has one, carries its script.
\<close>

definition op_return_ok :: "bridge_env \<Rightarrow> bool" where
  "op_return_ok benv \<longleftrightarrow>
     (\<forall>d. 2 \<le> length d \<and> length d < 2 ^ 32 \<longrightarrow>
        script_instructions benv (OP_RETURN # env_push_slice (btc benv) d) =
          [Some (InstrOp OP_RETURN), Some (InstrPushBytes d)])"

definition txid_encoding_ok :: "bridge_env \<Rightarrow> bool" where
  "txid_encoding_ok benv \<longleftrightarrow> (\<forall>t. length (serialize_txid benv t) = 32) \<and> inj (serialize_txid benv)"

lemma op_return_data_push:
  "op_return_ok benv \<Longrightarrow> 2 \<le> length d \<Longrightarrow> length d < 2 ^ 32 \<Longrightarrow>
   op_return_data benv (OP_RETURN # env_push_slice (btc benv) d) = Some d"
  by (simp add: op_return_ok_def op_return_data_def)

section \<open>Fulfillment metadata\<close>

lemma length_xonly_bytes [simp]: "length (xonly_bytes w) = 32"
  by (simp add: xonly_bytes_def be_bytes_def)

lemma starts_with_append: "starts_with (t @ d) t' \<longleftrightarrow> t = t'" if "length t = length t'"
  using that by (auto simp: starts_with_def)

lemma slice_of_appends:
  "slice_get (a @ b @ c) (length a) (length a + length b) = Some b"
  by (rule slice_get_append) simp_all

lemma fulfillment_metadata_iff:
  assumes "txid_encoding_ok benv" and "length (wm_tag m) = length t"
  shows "fulfillment_metadata_ok benv t op dep txid (op_return_data_of benv m) \<longleftrightarrow>
           wm_tag m = t \<and> wm_operator_idx m = op \<and> wm_deposit_idx m = dep \<and> wm_deposit_txid m = txid"
proof -
  let ?o = "u32_to_be_bytes (wm_operator_idx m)" and ?d = "u32_to_be_bytes (wm_deposit_idx m)"
    and ?i = "serialize_txid benv (wm_deposit_txid m)"
  have data: "op_return_data_of benv m = wm_tag m @ ?o @ ?d @ ?i" by (simp add: op_return_data_of_def)
  have len: "length (serialize_txid benv x) = 32" for x
    using assms(1) by (simp add: txid_encoding_ok_def)
  have "slice_get (op_return_data_of benv m) (length t) (length t + 4) = Some ?o"
    using slice_of_appends [of "wm_tag m" ?o "?d @ ?i"] assms(2) by (simp add: data)
  moreover have "slice_get (op_return_data_of benv m) (length t + 4) (length t + 4 + 4) = Some ?d"
    using slice_of_appends [of "wm_tag m @ ?o" ?d ?i] assms(2) by (simp add: data)
  moreover have "slice_get (op_return_data_of benv m) (length t + 4 + 4) (length t + 4 + 4 + 32) = Some ?i"
    using slice_of_appends [of "wm_tag m @ ?o @ ?d" ?i "[]"] assms(2) len [of "wm_deposit_txid m"]
    by (simp add: data add.assoc)
  moreover have "serialize_txid benv (wm_deposit_txid m) = serialize_txid benv txid \<longleftrightarrow> wm_deposit_txid m = txid"
    using assms(1) by (auto simp: txid_encoding_ok_def dest: injD)
  moreover have "starts_with (op_return_data_of benv m) t \<longleftrightarrow> wm_tag m = t"
    unfolding data by (rule starts_with_append [OF assms(2)])
  ultimately show ?thesis
    by (simp add: fulfillment_metadata_ok_def Let_def len)
qed

lemma withdrawal_fulfillment_newD:
  assumes "withdrawal_fulfillment_new benv m ops amt change desc = Ok tx"
  shows "list_get (tx_output tx) 0 = Some \<lparr>txout_value = amt, script_pubkey = descriptor_to_script benv desc\<rparr>"
    and "list_get (tx_output tx) 1 = Some \<lparr>txout_value = 0,
           script_pubkey = OP_RETURN # env_push_slice (btc benv) (op_return_data_of benv m)\<rparr>"
    and "length (op_return_data_of benv m) < 2 ^ 32"
  using assms by (auto simp: withdrawal_fulfillment_new_def op_return_nonce_def outcome_simps list_get_def
      split: if_splits option.splits)

section \<open>An example environment\<close>

text \<open>
  Concrete instances of the library functions, for short payloads: a push is a length byte and the
  data.
\<close>

definition example_instructions :: "script_buf \<Rightarrow> instruction option list" where
  "example_instructions s =
     (case s of opcode # n # d \<Rightarrow> [Some (InstrOp opcode), Some (InstrPushBytes d)] | _ \<Rightarrow> [])"

definition example_bridge_env :: bridge_env where
  "example_bridge_env =
     \<lparr>graph_lib = example_env, miniscript_take_back = (\<lambda>k d. Some [1]),
      xonly_from_slice = (\<lambda>b. if b = replicate 32 0 then None else Some 9),
      script_instructions = example_instructions, serialize_txid = be_bytes 32,
      descriptor_to_address = Some, descriptor_to_script = id,
      key_agg_new = (\<lambda>ks. Some []), key_agg_unspendable_tweak = Some, key_agg_taproot_tweak = (\<lambda>c _. Some c),
      key_agg_pubkey = (\<lambda>_. 0), agg_nonce_sum = concat, verify_partial = (\<lambda>_ _ _ _ _ _. True),
      aggregate_partial_signatures = (\<lambda>_ _ _ _. Some 0)\<rparr>"

lemma example_op_return_ok: "op_return_ok example_bridge_env"
  by (simp add: op_return_ok_def example_bridge_env_def example_env_def btc_env.truncate_def example_instructions_def)

lemma example_txid_encoding_ok: "txid_encoding_ok example_bridge_env"
proof -
  have "inj (be_bytes 32 :: txid \<Rightarrow> bytes)" by (rule injI) (rule be_bytes_inj [of 32], simp_all)
  then show ?thesis by (simp add: txid_encoding_ok_def example_bridge_env_def be_bytes_def)
qed

lemma example_taproot_ok: "taproot_builder_ok (btc example_bridge_env)"
  using example_env_ok by (simp add: graph_env_ok_def example_bridge_env_def)

text \<open>
  (C24) A withdrawal fulfillment transaction is recognised exactly for what it was built: the predicate
  accepts it if and only if the amount is the deposit amount less the operator fee, the recipient's
  address has the paid script, and tag, operator index, deposit index and deposit transaction id are
  those of its metadata. So no fulfillment counts for another operator or another deposit.
\<close>

theorem is_fulfillment_tx_iff:
  assumes "withdrawal_fulfillment_new benv m ops amt change desc = Ok tx"
    and "op_return_ok benv" and "txid_encoding_ok benv"
    and "length (wm_tag m) = length (tag params)" and "operator_fee params \<le> deposit_amount params"
  shows "is_fulfillment_tx benv params op dep txid recipient tx =
           Ok (descriptor_to_address benv recipient = Some (descriptor_to_script benv desc) \<and>
               amt = deposit_amount params - operator_fee params \<and> wm_tag m = tag params \<and>
               wm_operator_idx m = op \<and> wm_deposit_idx m = dep \<and> wm_deposit_txid m = txid)"
proof -
  note outs = withdrawal_fulfillment_newD [OF assms(1)]
  have "2 \<le> length (op_return_data_of benv m)"
    by (simp add: op_return_data_of_def)
  then have "op_return_data benv (OP_RETURN # env_push_slice (btc benv) (op_return_data_of benv m)) =
      Some (op_return_data_of benv m)"
    using op_return_data_push [OF assms(2) _ outs(3)] by simp
  then show ?thesis
    using outs(1,2) fulfillment_metadata_iff [OF assms(3,4), of op dep txid] assms(5)
    by (auto simp: is_fulfillment_tx_def amount_sub_def split: option.splits)
qed

theorem is_fulfillment_tx_iff_witness:
  "\<exists>tx. withdrawal_fulfillment_new example_bridge_env
       \<lparr>wm_tag = [], wm_operator_idx = 1, wm_deposit_idx = 2, wm_deposit_txid = 3\<rparr> [] 990000000 None [5] =
       (Ok tx :: (unit, transaction) outcome) \<and>
     is_fulfillment_tx example_bridge_env example_graph_params 1 2 3 [5] tx = (Ok True :: (unit, bool) outcome) \<and>
     is_fulfillment_tx example_bridge_env example_graph_params 4 2 3 [5] tx = (Ok False :: (unit, bool) outcome)"
proof -
  let ?m = "\<lparr>wm_tag = [], wm_operator_idx = 1, wm_deposit_idx = 2, wm_deposit_txid = 3\<rparr>"
  obtain tx :: transaction where tx: "withdrawal_fulfillment_new example_bridge_env ?m [] 990000000 None [5] =
      (Ok tx :: (unit, transaction) outcome)"
    by (simp add: withdrawal_fulfillment_new_def op_return_nonce_def op_return_data_of_def
        example_bridge_env_def be_bytes_def)
  have "descriptor_to_address example_bridge_env [5] = Some (descriptor_to_script example_bridge_env [5])"
    by (simp add: example_bridge_env_def)
  then show ?thesis
    using tx is_fulfillment_tx_iff [OF tx example_op_return_ok example_txid_encoding_ok,
        of example_graph_params 1 2 3 "[5]"]
      is_fulfillment_tx_iff [OF tx example_op_return_ok example_txid_encoding_ok,
        of example_graph_params 4 2 3 "[5]"]
    by (simp add: example_graph_params_def)
qed

section \<open>Deposit requests\<close>

text \<open>The script of the take-back leaf and the address of the request output, when they exist.\<close>

lemma deposit_request_validateD:
  assumes "deposit_request_validate benv data ctx refund = Ok u"
  obtains takeback si where "miniscript_take_back benv (drd_x_only_public_key data) refund = Some takeback"
    "create_taproot_addr (btc benv) (BothSpend (ctx_aggregated_pubkey ctx) [takeback]) =
       Ok (original_script_pubkey data, si)"
  using assms by (auto simp: deposit_request_validate_def drt_take_back_def outcome_simps split: if_splits)

lemma deposit_request_infoD:
  assumes "deposit_request_info benv tx address_length params ctx stake_idx = Ok (Some data)"
  shows "deposit_request_validate benv data ctx (refund_delay params) = Ok ()"
    and "0 < length (tx_output tx)"
    and "tx_output tx ! 0 = \<lparr>txout_value = total_amount data, script_pubkey = original_script_pubkey data\<rparr>"
    and "deposit_amount params < total_amount data"
    and "deposit_request_outpoint data = \<lparr>op_txid = env_compute_txid (btc benv) tx, op_vout = 0\<rparr>"
    and "stake_index data = stake_idx"
    and "length (ee_address data) = unat address_length"
  using assms
  by (auto simp: deposit_request_info_def recovery_and_address_def outcome_simps Let_def list_get_def
      slice_get_def split: option.splits if_splits outcome.splits)

text \<open>The metadata of a deposit transaction.\<close>

definition deposit_metadata_of ::
    "bridge_env \<Rightarrow> peg_out_graph_params \<Rightarrow> deposit_request_data \<Rightarrow> script_buf \<Rightarrow> bytes" where
  "deposit_metadata_of benv params data takeback =
     tag params @ u32_to_be_bytes (stake_index data) @ ee_address data @
     xonly_bytes (env_tap_leaf_hash (btc benv) takeback) @ u64_to_be_bytes (of_nat (total_amount data))"

lemma deposit_tx_new_ok:
  assumes "deposit_request_validate benv data ctx (refund_delay params) = Ok ()"
    and "taproot_builder_ok (btc benv)" and "length (tag params) = 4"
    and "length (ee_address data) = unat address_length"
    and "miniscript_take_back benv (drd_x_only_public_key data) (refund_delay params) = Some takeback"
  obtains bridge_addr si where
    "create_taproot_addr (btc benv) (KeySpend (ctx_aggregated_pubkey ctx)) = Ok (bridge_addr, si)"
    "deposit_tx_new benv data ctx params address_length = Ok (built_ct
       (create_tx (create_tx_ins [deposit_request_outpoint data])
          (create_tx_outs [(bridge_addr, deposit_amount params),
             (OP_RETURN # env_push_slice (btc benv) (deposit_metadata_of benv params data takeback), 0)]))
       SighashDefault [\<lparr>txout_value = total_amount data, script_pubkey = original_script_pubkey data\<rparr>]
       [WitnessTweaked (env_tap_leaf_hash (btc benv) takeback)])"
proof -
  obtain bridge_addr si where addr: "build_taptree (btc benv) (ctx_aggregated_pubkey ctx) [] = Ok (bridge_addr, si)"
    using build_taptree_ok [OF assms(2), of "[]" "ctx_aggregated_pubkey ctx"] by auto
  have "unat address_length < 256" using unsigned_less [of address_length] by simp
  then have meta: "metadata_script (btc benv) \<lparr>aux_tag = tag params, aux_metadata = DepositTxMetadata
      (stake_index data) (ee_address data) (env_tap_leaf_hash (btc benv) takeback) (total_amount data)\<rparr> =
      (Ok (OP_RETURN # env_push_slice (btc benv) (deposit_metadata_of benv params data takeback)) ::
        (bridge_tx_error, script_buf) outcome)"
    using assms(3,4)
    by (simp add: metadata_script_def auxiliary_to_vec_def Let_def deposit_metadata_of_def)
  have "deposit_tx_new benv data ctx params address_length = Ok (built_ct
       (create_tx (create_tx_ins [deposit_request_outpoint data])
          (create_tx_outs [(bridge_addr, deposit_amount params),
             (OP_RETURN # env_push_slice (btc benv) (deposit_metadata_of benv params data takeback), 0)]))
       SighashDefault [\<lparr>txout_value = total_amount data, script_pubkey = original_script_pubkey data\<rparr>]
       [WitnessTweaked (env_tap_leaf_hash (btc benv) takeback)])"
    unfolding deposit_tx_new_def assms(1) bind_outcome.simps Let_def drt_take_back_def assms(5) expect_simps
      meta create_taproot_addr.simps addr builder_result.simps prod.case
    using assms(4) by (simp add: psbt_from_unsigned_tx_def create_tx_ins_def built_ct_def built_psbt_def
        set_prevouts_def)
  with that addr show thesis by simp
qed

text \<open>
  (C25) Every deposit request that a node recognises on chain can be turned into a deposit transaction:
  the construction succeeds, its only input spends the first output of the request and commits to that
  output's value and script, its first output pays the bridge denomination to the aggregated key, and
  its second output carries an \<open>OP_RETURN\<close> payload with the stake index, the execution address, the
  take-back hash and the spent amount. The request exceeds the denomination, so a fee is left.
\<close>

theorem deposit_request_to_deposit:
  assumes "deposit_request_info benv tx address_length params ctx stake_idx = Ok (Some data)"
    and "taproot_builder_ok (btc benv)" and "op_return_ok benv" and "length (tag params) = 4"
  shows "\<exists>ct takeback bridge_addr si. deposit_tx_new benv data ctx params address_length = Ok ct \<and>
           miniscript_take_back benv (drd_x_only_public_key data) (refund_delay params) = Some takeback \<and>
           create_taproot_addr (btc benv) (KeySpend (ctx_aggregated_pubkey ctx)) = Ok (bridge_addr, si) \<and>
           length (tx_input (ct_tx ct)) = 1 \<and> links_to (graph_lib benv) (ct_psbt ct) 0 tx 0 \<and>
           prevouts_agree ct (ct_prevouts ct) \<and>
           tx_output (ct_tx ct) ! 0 = \<lparr>txout_value = deposit_amount params, script_pubkey = bridge_addr\<rparr> \<and>
           op_return_data benv (script_pubkey (tx_output (ct_tx ct) ! 1)) =
             Some (deposit_metadata_of benv params data takeback) \<and>
           paid_value (ct_psbt ct) < spent_value (ct_psbt ct)"
proof -
  note info = deposit_request_infoD [OF assms(1)]
  obtain takeback where takeback:
    "miniscript_take_back benv (drd_x_only_public_key data) (refund_delay params) = Some takeback"
    by (rule deposit_request_validateD [OF info(1)])
  obtain bridge_addr si where addr:
    "create_taproot_addr (btc benv) (KeySpend (ctx_aggregated_pubkey ctx)) = Ok (bridge_addr, si)"
    and new: "deposit_tx_new benv data ctx params address_length = Ok (built_ct
       (create_tx (create_tx_ins [deposit_request_outpoint data])
          (create_tx_outs [(bridge_addr, deposit_amount params),
             (OP_RETURN # env_push_slice (btc benv) (deposit_metadata_of benv params data takeback), 0)]))
       SighashDefault [\<lparr>txout_value = total_amount data, script_pubkey = original_script_pubkey data\<rparr>]
       [WitnessTweaked (env_tap_leaf_hash (btc benv) takeback)])" (is "_ = Ok ?ct")
    by (rule deposit_tx_new_ok [OF info(1) assms(2,4) info(7) takeback])
  have "length (deposit_metadata_of benv params data takeback) = 48 + unat address_length"
    using assms(4) info(7) by (simp add: deposit_metadata_of_def)
  moreover have "unat address_length < 256" using unsigned_less [of address_length] by simp
  ultimately have "op_return_data benv
      (OP_RETURN # env_push_slice (btc benv) (deposit_metadata_of benv params data takeback)) =
      Some (deposit_metadata_of benv params data takeback)"
    by (intro op_return_data_push [OF assms(3)]) simp_all
  then have "op_return_data benv (script_pubkey (tx_output (ct_tx ?ct) ! 1)) =
      Some (deposit_metadata_of benv params data takeback)" by simp
  moreover have "links_to (graph_lib benv) (ct_psbt ?ct) 0 tx 0"
    using info(2,3,5) by (simp add: links_to_def btc_env.truncate_def)
  ultimately show ?thesis
    using new takeback addr info(4)
    by (intro exI [of _ ?ct] exI [of _ takeback] exI [of _ bridge_addr] exI [of _ si]) (simp add: paid_value_def)
qed

definition example_request :: "bytes \<Rightarrow> transaction" where
  "example_request key = create_tx [] (create_tx_outs [(p2tr_tweaked_script 0, 2000000000),
     (OP_RETURN # 37 # [7, 7, 7, 7] @ key @ [1], 0)])"

definition example_request_params :: peg_out_graph_params where
  "example_request_params = example_graph_params\<lparr>tag := [7, 7, 7, 7]\<rparr>"

definition example_ctx_0 :: build_context where
  "example_ctx_0 = \<lparr>ctx_aggregated_pubkey = 0, ctx_own_index = 0\<rparr>"

lemma example_op_return_data:
  "op_return_data example_bridge_env (OP_RETURN # 37 # [7, 7, 7, 7] @ d) = Some ([7, 7, 7, 7] @ d)"
  by (simp add: op_return_data_def example_bridge_env_def example_instructions_def)

lemma example_magic:
  "magic_tagged_data example_bridge_env [7, 7, 7, 7] (OP_RETURN # 37 # [7, 7, 7, 7] @ d) = Some d"
  unfolding magic_tagged_data_def example_op_return_data by (simp add: starts_with_def)

lemma example_recovery:
  "recovery_and_address example_bridge_env 1 (replicate 32 7 @ [1]) =
     (Ok (Some (9, [1])) :: (bridge_tx_error, _) outcome)"
proof -
  have "replicate 32 (7 :: u8) \<noteq> replicate 32 0" by (simp add: replicate_eq_replicate)
  then show ?thesis
    by (simp add: recovery_and_address_def schnorr_public_key_size_def slice_get_def example_bridge_env_def)
qed

lemma example_validate:
  "original_script_pubkey data = p2tr_tweaked_script 0 \<Longrightarrow>
   deposit_request_validate example_bridge_env data example_ctx_0 refund = Ok ()"
  by (simp add: deposit_request_validate_def drt_take_back_def example_bridge_env_def example_env_def
      btc_env.truncate_def build_taptree_def p2tr_script_def example_ctx_0_def)

lemma example_request_info:
  "\<exists>data. deposit_request_info example_bridge_env (example_request (replicate 32 7)) 1 example_request_params
     example_ctx_0 5 = Ok (Some data)"
proof -
  have "deposit_amount example_request_params = 1000000000" "tag example_request_params = [7, 7, 7, 7]"
    by (simp_all add: example_request_params_def example_graph_params_def)
  then show ?thesis
    unfolding deposit_request_info_def example_request_def create_tx_simps create_tx_outs_Cons list_get_Cons
      One_nat_def option.case
    by (simp add: example_magic [simplified] example_recovery [simplified] example_validate Let_def)
qed

theorem deposit_request_to_deposit_witness:
  "\<exists>data ct. deposit_request_info example_bridge_env (example_request (replicate 32 7)) 1 example_request_params
       example_ctx_0 5 = Ok (Some data) \<and>
     deposit_tx_new example_bridge_env data example_ctx_0 example_request_params 1 = Ok ct \<and>
     links_to example_env (ct_psbt ct) 0 (example_request (replicate 32 7)) 0"
proof -
  obtain data where info: "deposit_request_info example_bridge_env (example_request (replicate 32 7)) 1
      example_request_params example_ctx_0 5 = Ok (Some data)"
    using example_request_info by blast
  have "length (tag example_request_params) = 4" "graph_lib example_bridge_env = example_env"
    by (simp_all add: example_request_params_def example_bridge_env_def)
  then show ?thesis
    using deposit_request_to_deposit [OF info example_taproot_ok example_op_return_ok] info by auto
qed

text \<open>
  A recognised deposit request whose recovery key does not parse makes the node panic: nothing but
  the amount of the first output, the tag and the length of the metadata is checked before the
  \<open>expect\<close> on \<open>XOnlyPublicKey::from_slice\<close>.
\<close>

theorem deposit_request_info_panics:
  assumes "tx_output tx = request_output # meta_output # rest"
    and "deposit_amount params < txout_value request_output"
    and "op_return_data benv (script_pubkey meta_output) = Some (tag params @ key_bytes @ address)"
    and "length key_bytes = 32" and "length address = unat address_length"
    and "xonly_from_slice benv key_bytes = None"
  shows "deposit_request_info benv tx address_length params ctx stake_idx = Panic"
  using assms
  by (simp add: deposit_request_info_def magic_tagged_data_def starts_with_def recovery_and_address_def
      schnorr_public_key_size_def slice_get_def)

theorem deposit_request_info_panics_witness:
  "deposit_request_info example_bridge_env (example_request (replicate 32 0)) 1 example_request_params
     example_ctx_0 5 = Panic"
proof -
  have "xonly_from_slice example_bridge_env (replicate 32 0) = None"
    by (simp add: example_bridge_env_def)
  then show ?thesis
    using deposit_request_info_panics [of "example_request (replicate 32 0)"
        "\<lparr>txout_value = 2000000000, script_pubkey = p2tr_tweaked_script 0\<rparr>"
        "\<lparr>txout_value = 0, script_pubkey = OP_RETURN # 37 # [7, 7, 7, 7] @ replicate 32 0 @ [1]\<rparr>" "[]"
        example_request_params example_bridge_env "replicate 32 0" "[1]" 1 example_ctx_0 5]
      example_op_return_data [of "replicate 32 0 @ [1]"]
    by (simp add: example_request_def example_request_params_def example_graph_params_def)
qed

section \<open>Recognising the transactions of a graph\<close>

text \<open>
  The transactions of a generated graph are classified as they are meant: the challenge
  transaction is recognised as a challenge of its claim, and no payout, pre-assert or disprove
  transaction is; the disprove transaction, once the disprover has added the reward output, is
  recognised as disproving its post-assert transaction, and no payout transaction is.
\<close>

theorem graph_transactions_classified:
  assumes "peg_out_graph_generate env inp ctx deposit gp cp scp prevs = Ok (g, cs)" and "dust_ok env"
  shows "is_challenge (claim_txid env (pog_claim_tx g)) (ct_tx (pog_challenge_tx g)) \<and>
         \<not> is_challenge (claim_txid env (pog_claim_tx g)) (ct_tx (pog_payout_optimistic_tx g)) \<and>
         \<not> is_challenge (claim_txid env (pog_claim_tx g)) (ct_tx (pog_pre_assert_ct g)) \<and>
         is_disprove (ct_txid env (pog_post_assert_ct g))
           ((ct_tx (pog_disprove_tx g))\<lparr>tx_output := tx_output (ct_tx (pog_disprove_tx g)) @ [reward]\<rparr>) \<and>
         \<not> is_disprove (ct_txid env (pog_post_assert_ct g)) (ct_tx (pog_payout_tx g))"
proof -
  note gen = peg_out_graph_generateD [OF assms(1)] and dust = assms(2)
  note chain = assert_chain_newD [OF gen(5)]
  have "is_challenge (claim_txid env (pog_claim_tx g)) (ct_tx (pog_challenge_tx g))"
    by (rule challenge_tx_newD [OF gen(3) dust]) (simp add: is_challenge_def ct_tx_def create_tx_ins_def)
  moreover have "length (tx_output (ct_tx (pog_payout_optimistic_tx g))) = 2"
    by (rule payout_optimistic_tx_newD [OF gen(4) dust]) simp
  moreover have "length (tx_output (ct_tx (pog_pre_assert_ct g))) = 40"
    by (rule pre_assert_tx_newD [OF chain(1) dust]) (simp add: num_assert_data_tx_def)
  moreover have "length (tx_input (ct_tx (pog_payout_tx g))) = 4"
    by (rule payout_tx_newD [OF gen(6) dust]) (drule arg_cong [where f = length], simp)
  moreover have "is_disprove (ct_txid env (pog_post_assert_ct g))
      ((ct_tx (pog_disprove_tx g))\<lparr>tx_output := tx_output (ct_tx (pog_disprove_tx g)) @ [reward]\<rparr>)"
    by (rule disprove_tx_newD [OF gen(7) dust])
       (simp add: is_disprove_def POST_ASSERT_INPUT_INDEX_def create_tx_ins_def)
  ultimately show ?thesis by (simp add: is_challenge_def is_disprove_def)
qed

theorem graph_transactions_classified_witness:
  "\<exists>g cs. peg_out_graph_generate example_env example_input example_ctx 7 example_graph_params
      example_connector_params example_stake_params [5, 6] = Ok (g, cs) \<and>
     is_challenge (claim_txid example_env (pog_claim_tx g)) (ct_tx (pog_challenge_tx g))"
proof -
  obtain g cs where gen: "peg_out_graph_generate example_env example_input example_ctx 7 example_graph_params
      example_connector_params example_stake_params [5, 6] = Ok (g, cs)"
    using example_generate by blast
  then show ?thesis using graph_transactions_classified [OF gen example_dust_ok] by blast
qed

end
