(* ===== verification/Wots.thy ===== *)
theory Wots
  imports Connectors
begin

text \<open>
  The Winternitz one-time keys of a deposit (\<open>crates/primitives/src/wots.rs\<close>): the number of digits
  of a key, the conversion between the keys of a peer-to-peer message and the keys the bridge works
  with, and the serialisation of keys as a flat sequence of bytes. The element counts of the Groth16
  keys are those of the array types of the source. A serialiser is told how many elements will
  follow; a format such as JSON ignores the number, a length-prefixed format writes it and reads it
  back as the length of the sequence.
\<close>

section \<open>Sizes\<close>

definition WOTS_HASH_DIGEST_SIZE :: nat where "WOTS_HASH_DIGEST_SIZE = 20"
definition WOTS_SIGNATURE_SIZE :: nat where "WOTS_SIGNATURE_SIZE = WOTS_HASH_DIGEST_SIZE + 1"
definition WOTS_MSG_INDEX :: nat where "WOTS_MSG_INDEX = 20"

definition NUM_PUBS :: nat where "NUM_PUBS = 1"
definition NUM_U256 :: nat where "NUM_U256 = 14"
definition NUM_HASH :: nat where "NUM_HASH = 363"

definition WINTERNITZ_DIGIT_WIDTH :: nat where "WINTERNITZ_DIGIT_WIDTH = 4"

text \<open>The loop of \<open>log_base_ceil\<close>; it need not end for a base below 2.\<close>

partial_function (option) log_loop :: "u64 \<Rightarrow> u32 \<Rightarrow> u32 \<Rightarrow> u64 \<Rightarrow> u32 option" where
  "log_loop n base res cur =
     (if cur < n then log_loop n base (res + 1) (cur * ucast base) else Some res)"

definition log_base_ceil :: "u32 \<Rightarrow> u32 \<Rightarrow> u32 option" where
  "log_base_ceil n base = log_loop (ucast n) base 0 1"

definition div_ceil :: "nat \<Rightarrow> nat \<Rightarrow> nat" where
  "div_ceil a b = a div b + (if a mod b > 0 then 1 else 0)"

definition checksum_width :: "nat \<Rightarrow> nat \<Rightarrow> nat option" where
  "checksum_width num_bits digit_width =
     (let num_digits = div_ceil num_bits digit_width;
          max_digit = push_bit digit_width 2 - 1;
          max_checksum = num_digits * max_digit in
      map_option (\<lambda>checksum_bytes. div_ceil (unat checksum_bytes * 8) digit_width)
        (log_base_ceil (of_nat max_checksum) 256))"

definition wots_key_width :: "nat \<Rightarrow> nat option" where
  "wots_key_width num_bits =
     map_option (\<lambda>w. div_ceil num_bits WINTERNITZ_DIGIT_WIDTH + w)
       (checksum_width num_bits WINTERNITZ_DIGIT_WIDTH)"

text \<open>The loop returns the least exponent, for every base that can grow.\<close>

lemma unat_ucast_u64: "unat (ucast (b :: u32) :: u64) = unat b"
proof -
  have "unat b < 2 ^ 64"
    using unsigned_less [of b, where ?'a = nat] by (simp add: order_less_le_trans)
  then show ?thesis
    by (simp add: unsigned_ucast_eq take_bit_nat_eq_self_iff)
qed

lemma log_loop_next:
  assumes "unat cur < 2 ^ 32" and "unat res < 32"
  shows "unat (cur * ucast base :: u64) = unat cur * unat (base :: u32)"
    and "unat (res + 1 :: u32) = unat res + 1"
proof -
  have "unat base < 2 ^ 32"
    using unsigned_less [of base, where ?'a = nat] by simp
  then have "unat cur * unat base < 2 ^ 32 * 2 ^ 32"
    using assms(1) by (intro mult_strict_mono) auto
  then show "unat (cur * ucast base :: u64) = unat cur * unat base"
    by (simp add: unat_word_ariths unat_ucast_u64)
  show "unat (res + 1 :: u32) = unat res + 1"
    using assms(2) by (simp add: unat_word_ariths)
qed

lemma log_loop_spec:
  assumes "2 \<le> unat base" and "unat n < 2 ^ 32" and "unat cur = unat base ^ unat res"
    and "\<forall>k < unat res. unat base ^ k < unat n" and "unat res + d = 32"
  shows "\<exists>r. log_loop n base res cur = Some r \<and> unat n \<le> unat base ^ unat r \<and>
             (\<forall>k < unat r. unat base ^ k < unat n)"
  using assms
proof (induction d arbitrary: res cur)
  case 0
  then have "(2::nat) ^ 32 \<le> unat cur"
    by (metis add_0_right power_mono zero_le_numeral)
  with 0 have "\<not> cur < n"
    by (simp add: word_less_nat_alt)
  with 0 show ?case
    by (subst log_loop.simps) (simp add: word_less_nat_alt)
next
  case (Suc d)
  show ?case
  proof (cases "cur < n")
    case False
    with Suc.prems show ?thesis
      by (subst log_loop.simps) (simp add: word_less_nat_alt)
  next
    case True
    then have lt: "unat cur < unat n"
      by (simp add: word_less_nat_alt)
    have step: "unat (cur * ucast base) = unat cur * unat base" "unat (res + 1) = unat res + 1"
      using log_loop_next(1) [of cur res base] log_loop_next(2) [of cur res] lt Suc.prems(2,5) by auto
    have "\<forall>k < unat (res + 1). unat base ^ k < unat n"
      using Suc.prems(3,4) lt step(2) by (auto simp: less_Suc_eq)
    then have "\<exists>r. log_loop n base (res + 1) (cur * ucast base) = Some r \<and>
        unat n \<le> unat base ^ unat r \<and> (\<forall>k < unat r. unat base ^ k < unat n)"
      using Suc.prems step by (intro Suc.IH) simp_all
    then show ?thesis
      using True by (subst log_loop.simps) simp
  qed
qed

lemma log_base_ceil_least:
  assumes "2 \<le> unat base"
  shows "\<exists>r. log_base_ceil n base = Some r \<and> unat n \<le> unat base ^ unat r \<and>
             (\<forall>k < unat r. unat base ^ k < unat n)"
  using log_loop_spec [OF assms, of "ucast n" 1 0 32] unsigned_less [of n, where ?'a = nat]
  by (simp add: log_base_ceil_def unat_ucast_u64)

text \<open>
  For every base of at least 2 the loop of \<open>log_base_ceil\<close> ends, none of its multiplications
  overflows, and it returns the smallest exponent whose power reaches the argument.
\<close>
theorem log_base_ceil_spec:
  assumes "2 \<le> unat base"
  shows "\<exists>r. log_base_ceil n base = Some r \<and> unat n \<le> unat base ^ unat r \<and>
             (\<forall>k < unat r. unat base ^ k < unat n)"
  by (rule log_base_ceil_least [OF assms])

theorem log_base_ceil_spec_witness:
  "2 \<le> unat (256 :: u32) \<and> (\<exists>r. log_base_ceil 1984 256 = Some r \<and> (1984::nat) \<le> 256 ^ unat r \<and>
     (\<forall>k < unat r. (256::nat) ^ k < 1984))"
  using log_base_ceil_spec [of 256 1984] by simp

lemma log_base_ceil_256:
  assumes "256 < unat n" and "unat n \<le> 65536"
  shows "log_base_ceil n 256 = Some 2"
proof -
  obtain r where r: "log_base_ceil n 256 = Some r" "unat n \<le> 256 ^ unat r"
    "\<forall>k < unat r. (256::nat) ^ k < unat n"
    using log_base_ceil_least [of 256 n] by auto
  have "\<not> unat r < 2"
  proof
    assume "unat r < 2"
    then have "(256::nat) ^ unat r \<le> 256 ^ 1"
      by (intro power_increasing) auto
    with r(2) assms(1) show False by simp
  qed
  moreover have "\<not> 2 < unat r"
    using r(3) assms(2) by (auto dest!: spec [of _ 2])
  ultimately have "unat r = unat (2 :: u32)"
    by simp
  then have "r = 2"
    by (rule unsigned_word_eqI) 
  with r(1) show ?thesis
    by simp
qed

lemma wots_key_widths: "wots_key_width 256 = Some 68" "wots_key_width 128 = Some 36"
  by (simp_all add: wots_key_width_def checksum_width_def div_ceil_def WINTERNITZ_DIGIT_WIDTH_def
      log_base_ceil_256 push_bit_eq_mult unat_of_nat)

definition wots256_width :: nat where "wots256_width = 68"
definition wots_hash_width :: nat where "wots_hash_width = 36"

section \<open>Keys of a message\<close>

text \<open>
  \<open>strata_p2p_types::WotsPublicKeys\<close>, whose Groth16 keys are vectors, and the conversions from and to
  \<open>PublicKeys\<close>, whose Groth16 keys are arrays of \<open>NUM_PUBS\<close>, \<open>NUM_U256\<close> and \<open>NUM_HASH\<close> keys; the array
  of one public input is its element.
\<close>

record p2p_wots_public_keys =
  p2p_withdrawal_fulfillment :: wots_pk
  p2p_public_inputs :: "wots_pk list"
  p2p_fqs :: "wots_pk list"
  p2p_hashes :: "wots_pk list"

datatype wots_conversion_error = InvalidPublicInputs nat | InvalidFqs nat | InvalidHashes nat

definition wots_try_from ::
    "p2p_wots_public_keys \<Rightarrow> (wots_conversion_error \<times> p2p_wots_public_keys, wots_public_keys) outcome" where
  "wots_try_from k =
     (if length (p2p_public_inputs k) \<noteq> NUM_PUBS then Err (InvalidPublicInputs (length (p2p_public_inputs k)), k)
      else if length (p2p_fqs k) \<noteq> NUM_U256 then Err (InvalidFqs (length (p2p_fqs k)), k)
      else if length (p2p_hashes k) \<noteq> NUM_HASH then Err (InvalidHashes (length (p2p_hashes k)), k)
      else Ok \<lparr>withdrawal_fulfillment_pk = p2p_withdrawal_fulfillment k,
               groth16_public_inputs = p2p_public_inputs k ! 0,
               groth16_fqs = map (\<lambda>i. p2p_fqs k ! i) [0..<NUM_U256],
               groth16_hashes = map (\<lambda>i. p2p_hashes k ! i) [0..<NUM_HASH]\<rparr>)"

definition wots_into_p2p :: "wots_public_keys \<Rightarrow> p2p_wots_public_keys" where
  "wots_into_p2p k =
     \<lparr>p2p_withdrawal_fulfillment = withdrawal_fulfillment_pk k,
      p2p_public_inputs = [groth16_public_inputs k],
      p2p_fqs = groth16_fqs k, p2p_hashes = groth16_hashes k\<rparr>"

text \<open>The array types of \<open>PublicKeys\<close>.\<close>

definition wots_key_ok :: "nat \<Rightarrow> wots_pk \<Rightarrow> bool" where
  "wots_key_ok width k \<longleftrightarrow> length k = width \<and> list_all (\<lambda>d. length d = WOTS_HASH_DIGEST_SIZE) k"

definition wots_keys_ok :: "wots_public_keys \<Rightarrow> bool" where
  "wots_keys_ok k \<longleftrightarrow>
     wots_key_ok wots256_width (withdrawal_fulfillment_pk k) \<and>
     wots_key_ok wots256_width (groth16_public_inputs k) \<and>
     length (groth16_fqs k) = NUM_U256 \<and> list_all (wots_key_ok wots256_width) (groth16_fqs k) \<and>
     length (groth16_hashes k) = NUM_HASH \<and> list_all (wots_key_ok wots_hash_width) (groth16_hashes k)"

lemma wots_try_from_into:
  assumes "length (groth16_fqs k) = NUM_U256" and "length (groth16_hashes k) = NUM_HASH"
  shows "wots_try_from (wots_into_p2p k) = Ok k"
  using assms map_nth [of "groth16_fqs k"] map_nth [of "groth16_hashes k"]
  by (simp add: wots_try_from_def wots_into_p2p_def NUM_PUBS_def)

lemma wots_into_try_from:
  assumes "wots_try_from p = Ok k"
  shows "wots_into_p2p k = p"
proof -
  have len: "length (p2p_public_inputs p) = 1" "length (p2p_fqs p) = NUM_U256" "length (p2p_hashes p) = NUM_HASH"
    using assms by (auto simp: wots_try_from_def NUM_PUBS_def split: if_splits)
  then have "p2p_public_inputs p = [p2p_public_inputs p ! 0]"
    by (cases "p2p_public_inputs p") auto
  then show ?thesis
    using assms len map_nth [of "p2p_fqs p"] map_nth [of "p2p_hashes p"]
    by (auto simp: wots_try_from_def wots_into_p2p_def NUM_PUBS_def)
qed

section \<open>Keys as a sequence of bytes\<close>

text \<open>
  Serialisation visits the bytes of all digests in order. Deserialisation fills the arrays from the
  sequence and fails when it runs out; the number in the error is what the source computes.
\<close>

definition serialize_wots256_pk :: "wots_pk \<Rightarrow> bytes" where
  "serialize_wots256_pk k = concat k"

definition serialize_groth16_pks :: "wots_public_keys \<Rightarrow> bytes" where
  "serialize_groth16_pks k =
     concat (groth16_public_inputs k) @ concat (concat (groth16_fqs k)) @ concat (concat (groth16_hashes k))"

fun read_digest :: "nat \<Rightarrow> nat \<Rightarrow> nat \<Rightarrow> bytes \<Rightarrow> (nat, bytes \<times> bytes) outcome" where
  "read_digest scale byte_idx 0 seq = Ok ([], seq)"
| "read_digest scale byte_idx (Suc n) [] = Err (scale * (byte_idx + 1))"
| "read_digest scale byte_idx (Suc n) (b # seq) =
     bind_outcome (read_digest scale (byte_idx + 1) n seq) (\<lambda>(bs, rest). Ok (b # bs, rest))"

fun read_key :: "nat \<Rightarrow> nat \<Rightarrow> nat \<Rightarrow> bytes \<Rightarrow> (nat, wots_pk \<times> bytes) outcome" where
  "read_key scale key_idx 0 seq = Ok ([], seq)"
| "read_key scale key_idx (Suc n) seq =
     bind_outcome (read_digest (scale * (key_idx + 1)) 0 WOTS_HASH_DIGEST_SIZE seq) (\<lambda>(d, rest).
     bind_outcome (read_key scale (key_idx + 1) n rest) (\<lambda>(ds, rest'). Ok (d # ds, rest')))"

fun read_keys :: "nat \<Rightarrow> nat \<Rightarrow> nat \<Rightarrow> bytes \<Rightarrow> (nat, wots_pk list \<times> bytes) outcome" where
  "read_keys width idx 0 seq = Ok ([], seq)"
| "read_keys width idx (Suc n) seq =
     bind_outcome (read_key (idx + 1) 0 width seq) (\<lambda>(k, rest).
     bind_outcome (read_keys width (idx + 1) n rest) (\<lambda>(ks, rest'). Ok (k # ks, rest')))"

definition visit_wots256_pk :: "bytes \<Rightarrow> (nat, wots_pk \<times> bytes) outcome" where
  "visit_wots256_pk seq = read_key 1 0 wots256_width seq"

definition visit_groth16_pks ::
    "bytes \<Rightarrow> (nat, (wots_pk list \<times> wots_pk list \<times> wots_pk list) \<times> bytes) outcome" where
  "visit_groth16_pks seq =
     bind_outcome (read_keys wots256_width 0 NUM_PUBS seq) (\<lambda>(public_inputs, seq).
     bind_outcome (read_keys wots256_width 0 NUM_U256 seq) (\<lambda>(fqs, seq).
     bind_outcome (read_keys wots_hash_width 0 NUM_HASH seq) (\<lambda>(hashes, seq).
       Ok ((public_inputs, fqs, hashes), seq))))"

lemma read_digest_iff:
  "read_digest scale i n seq = Ok (d, rest) \<longleftrightarrow> length d = n \<and> seq = d @ rest"
proof (induction n arbitrary: seq d i)
  case (Suc n)
  show ?case
  proof (cases seq)
    case Nil
    then show ?thesis by (cases d) auto
  next
    case (Cons b bs)
    then show ?thesis
      using Suc.IH [of "Suc i" bs] by (cases d; cases "read_digest scale (Suc i) n bs") auto
  qed
qed auto

lemma read_key_iff:
  "read_key scale i n seq = Ok (k, rest) \<longleftrightarrow> wots_key_ok n k \<and> seq = concat k @ rest"
proof (induction n arbitrary: seq k i)
  case (Suc n)
  let ?r = "read_digest (scale * (i + 1)) 0 WOTS_HASH_DIGEST_SIZE seq"
  show ?case
  proof (cases k)
    case Nil
    then show ?thesis
      by (cases ?r) (auto simp: wots_key_ok_def simp: bind_outcome_Ok_iff split: prod.splits)
  next
    case (Cons d ds)
    have "read_key scale i (Suc n) seq = Ok (d # ds, rest) \<longleftrightarrow>
        (\<exists>seq'. ?r = Ok (d, seq') \<and> read_key scale (i + 1) n seq' = Ok (ds, rest))"
      by (cases ?r) (auto simp: bind_outcome_Ok_iff split: prod.splits)
    then show ?thesis
      using Suc.IH [of "i + 1"] by (auto simp: Cons read_digest_iff wots_key_ok_def)
  qed
qed (auto simp: wots_key_ok_def)

lemma read_keys_iff:
  "read_keys width i n seq = Ok (ks, rest) \<longleftrightarrow>
   length ks = n \<and> list_all (wots_key_ok width) ks \<and> seq = concat (concat ks) @ rest"
proof (induction n arbitrary: seq ks i)
  case (Suc n)
  let ?r = "read_key (i + 1) 0 width seq"
  show ?case
  proof (cases ks)
    case Nil
    then show ?thesis
      by (cases ?r) (auto simp: bind_outcome_Ok_iff split: prod.splits)
  next
    case (Cons k ks')
    have "read_keys width i (Suc n) seq = Ok (k # ks', rest) \<longleftrightarrow>
        (\<exists>seq'. ?r = Ok (k, seq') \<and> read_keys width (i + 1) n seq' = Ok (ks', rest))"
      by (cases ?r) (auto simp: bind_outcome_Ok_iff split: prod.splits)
    then show ?thesis
      using Suc.IH [of "i + 1"] by (auto simp: Cons read_key_iff)
  qed
qed auto

text \<open>
  (C35) Serialisation and deserialisation of the one-time keys are inverse to each other, for the
  withdrawal fulfillment key and for the Groth16 keys: reading a sequence yields given keys and a given
  rest exactly when the keys have the sizes of the array types and the sequence is their serialisation
  followed by the rest. In particular a sequence that is too short is refused.
\<close>
theorem wots_keys_serde_inverse:
  "(visit_wots256_pk seq = Ok (k, rest) \<longleftrightarrow>
      wots_key_ok wots256_width k \<and> seq = serialize_wots256_pk k @ rest) \<and>
   (visit_groth16_pks seq' = Ok (([p], fqs, hashes), rest') \<longleftrightarrow>
      wots_key_ok wots256_width p \<and>
      length fqs = NUM_U256 \<and> list_all (wots_key_ok wots256_width) fqs \<and>
      length hashes = NUM_HASH \<and> list_all (wots_key_ok wots_hash_width) hashes \<and>
      seq' = serialize_groth16_pks \<lparr>withdrawal_fulfillment_pk = k, groth16_public_inputs = p,
               groth16_fqs = fqs, groth16_hashes = hashes\<rparr> @ rest')"
proof (rule conjI)
  show "visit_wots256_pk seq = Ok (k, rest) \<longleftrightarrow>
      wots_key_ok wots256_width k \<and> seq = serialize_wots256_pk k @ rest"
    by (simp add: visit_wots256_pk_def read_key_iff serialize_wots256_pk_def)
  have "visit_groth16_pks seq' = Ok ((ps, fqs, hashes), rest') \<longleftrightarrow>
      (\<exists>s1 s2. read_keys wots256_width 0 NUM_PUBS seq' = Ok (ps, s1) \<and>
         read_keys wots256_width 0 NUM_U256 s1 = Ok (fqs, s2) \<and>
         read_keys wots_hash_width 0 NUM_HASH s2 = Ok (hashes, rest'))" for ps
    by (simp add: visit_groth16_pks_def bind_outcome_Ok_iff split_paired_Ex) blast
  then show "visit_groth16_pks seq' = Ok (([p], fqs, hashes), rest') \<longleftrightarrow>
      wots_key_ok wots256_width p \<and>
      length fqs = NUM_U256 \<and> list_all (wots_key_ok wots256_width) fqs \<and>
      length hashes = NUM_HASH \<and> list_all (wots_key_ok wots_hash_width) hashes \<and>
      seq' = serialize_groth16_pks \<lparr>withdrawal_fulfillment_pk = k, groth16_public_inputs = p,
               groth16_fqs = fqs, groth16_hashes = hashes\<rparr> @ rest'"
    unfolding read_keys_iff serialize_groth16_pks_def by (simp add: NUM_PUBS_def) blast
qed

subsection \<open>The announced length\<close>

text \<open>
  Both serialisers announce \<open>std::mem::size_of\<close> of their own type as the number of elements. The keys
  live behind an \<open>Arc\<close>, so this is the size of a pointer: 8 on the 64-bit targets.
\<close>

definition announced_len :: nat where "announced_len = 8"

text \<open>What the visitor of a length-prefixed format is given to read.\<close>

definition length_prefixed :: "bytes \<Rightarrow> bytes" where
  "length_prefixed elements = take announced_len elements"

text \<open>
  With a format that writes the announced length and reads back that many elements, no key can be
  read back: the announced length is the size of a pointer and not the number of bytes.
\<close>
theorem length_prefixed_keys_unreadable:
  "visit_wots256_pk (length_prefixed (serialize_wots256_pk k)) \<noteq> Ok (k', rest)"
proof
  assume "visit_wots256_pk (length_prefixed (serialize_wots256_pk k)) = Ok (k', rest)"
  then have k': "wots_key_ok wots256_width k'"
      and seq: "take announced_len (serialize_wots256_pk k) = concat k' @ rest"
    by (auto simp: visit_wots256_pk_def read_key_iff length_prefixed_def)
  have "length (concat k') = 68 * 20"
  proof -
    have "sum_list (map length k') = sum_list (map (\<lambda>_. 20) k')"
      using k' by (intro arg_cong [where f = sum_list] map_cong)
        (auto simp: wots_key_ok_def list_all_iff WOTS_HASH_DIGEST_SIZE_def)
    then show ?thesis
      using k' by (simp add: length_concat wots_key_ok_def wots256_width_def sum_list_triv)
  qed
  moreover have "length (concat k' @ rest) \<le> 8"
    unfolding seq [symmetric] by (simp add: announced_len_def)
  ultimately show False
    by simp
qed

section \<open>Signatures\<close>

text \<open>\<open>WotsSigStub\<close>: \<open>N\<close> items of \<open>WOTS_SIGNATURE_SIZE\<close> bytes, each serialised as one element.\<close>

definition serialize_sig_stub :: "bytes list \<Rightarrow> bytes list" where
  "serialize_sig_stub items = items"

fun visit_sig_stub :: "nat \<Rightarrow> nat \<Rightarrow> bytes list \<Rightarrow> (nat, bytes list \<times> bytes list) outcome" where
  "visit_sig_stub 0 got seq = Ok ([], seq)"
| "visit_sig_stub (Suc n) got [] = Err got"
| "visit_sig_stub (Suc n) got (item # seq) =
     bind_outcome (visit_sig_stub n (got + 1) seq) (\<lambda>(items, rest). Ok (item # items, rest))"

lemma visit_sig_stub_iff:
  "visit_sig_stub n got seq = Ok (items, rest) \<longleftrightarrow> length items = n \<and> seq = serialize_sig_stub items @ rest"
proof (induction n arbitrary: seq items got)
  case (Suc n)
  show ?case
  proof (cases seq)
    case (Cons b bs)
    then show ?thesis
      using Suc.IH [of "Suc got" bs]
      by (cases items; cases "visit_sig_stub n (Suc got) bs") (auto simp: serialize_sig_stub_def)
  qed (cases items, auto simp: serialize_sig_stub_def)
qed (auto simp: serialize_sig_stub_def)

end
