(* ===== verification/Stake_Chain.thy ===== *)
theory Stake_Chain
  imports Deposit Wots
begin

text \<open>
  The stake chain of an operator (\<open>crates/stake-chain\<close>) and the state machine that tracks the stake
  chains of all operators (\<open>duty-tracker/src/stake_chain_state_machine.rs\<close>). Each stake transaction
  moves the stake of the previous one and carries the output that funds the peg-out graph of one
  deposit.
\<close>

section \<open>Stake transactions\<close>

definition operator_funds_amount :: amount where
  "operator_funds_amount = (330 * 2 * num_assert_data_tx) + (330 * 2) + 330 + 330 + 330 + 330"

definition WITHDRAWAL_FULFILLMENT_VOUT :: u32 where "WITHDRAWAL_FULFILLMENT_VOUT = 0"
definition PAYOUT_VOUT :: u32 where "PAYOUT_VOUT = 1"
definition STAKE_VOUT :: u32 where "STAKE_VOUT = 2"

lemmas stake_vout_defs = WITHDRAWAL_FULFILLMENT_VOUT_def PAYOUT_VOUT_def STAKE_VOUT_def

record stake_tx_data =
  operator_funds :: out_point
  sd_hash :: sha256_hash
  sd_withdrawal_fulfillment_pk :: wots_pk
  sd_operator_pubkey :: xonly_key

record stake_tx =
  st_psbt :: psbt
  st_hash :: sha256_hash
  st_witnesses :: "taproot_witness list"

datatype stake_tx_kind = StakeHead stake_tx | StakeTail stake_tx

definition stake_txid_of :: "graph_env \<Rightarrow> stake_tx \<Rightarrow> txid" where
  "stake_txid_of env st = env_compute_txid env (unsigned_tx (st_psbt st))"

fun stake_tx_kind_psbt :: "stake_tx_kind \<Rightarrow> psbt" where
  "stake_tx_kind_psbt (StakeHead st) = st_psbt st"
| "stake_tx_kind_psbt (StakeTail st) = st_psbt st"

fun stake_tx_kind_txid :: "graph_env \<Rightarrow> stake_tx_kind \<Rightarrow> txid" where
  "stake_tx_kind_txid env (StakeHead st) = stake_txid_of env st"
| "stake_tx_kind_txid env (StakeTail st) = stake_txid_of env st"

text \<open>\<open>psbt.inputs[i].witness_utxo = Some(utxo)\<close>.\<close>

definition set_witness_utxo :: "nat \<Rightarrow> tx_out \<Rightarrow> psbt \<Rightarrow> (builder_error, psbt) outcome" where
  "set_witness_utxo i utxo p =
     (if i < length (psbt_inputs p)
      then Ok (p\<lparr>psbt_inputs := (psbt_inputs p)[i := (psbt_inputs p ! i)\<lparr>witness_utxo := Some utxo\<rparr>]\<rparr>)
      else Panic)"

definition stake_connector_of ::
    "build_context \<Rightarrow> stake_chain_params \<Rightarrow> xonly_key \<Rightarrow> sha256_hash \<Rightarrow> connector_stake" where
  "stake_connector_of ctx params key hash =
     \<lparr>s_n_of_n_agg_pubkey = ctx_aggregated_pubkey ctx, s_operator_pubkey = key, s_stake_hash = hash,
      s_delta = delta params\<rparr>"

definition stake_head_new ::
    "graph_env \<Rightarrow> build_context \<Rightarrow> stake_chain_params \<Rightarrow> sha256_hash \<Rightarrow> wots_pk \<Rightarrow> out_point \<Rightarrow> out_point \<Rightarrow>
       xonly_key \<Rightarrow> (builder_error, stake_tx) outcome" where
  "stake_head_new env ctx params hash pk pre_stake funds operator_key =
     (let ins = create_tx_ins [funds, pre_stake];
          p = \<lparr>p_n_of_n_agg_pubkey = ctx_aggregated_pubkey ctx, p_stake_hash = hash\<rparr>;
          s = stake_connector_of ctx params operator_key hash;
          cpfp = connector_cpfp_script operator_key in
     bind_outcome (connector_p_address env p) (\<lambda>p_out.
     bind_outcome (connector_k_address env pk) (\<lambda>k_out.
     bind_outcome (amount_sub operator_funds_amount (2 * 330)) (\<lambda>k_amount.
     bind_outcome (connector_stake_address env s) (\<lambda>s_out.
     let outs = create_tx_outs [(k_out, k_amount), (p_out, dust env p_out), (s_out, stake_amount params),
                                (cpfp, dust env cpfp)];
         tx = (create_tx ins outs)\<lparr>tx_version := 3\<rparr> in
     bind_outcome (expect (psbt_from_unsigned_tx tx)) (\<lambda>p.
       Ok \<lparr>st_psbt = p, st_hash = hash, st_witnesses = [WitnessKey, WitnessKey]\<rparr>))))))"

definition stake_tail_new ::
    "graph_env \<Rightarrow> build_context \<Rightarrow> stake_chain_params \<Rightarrow> stake_tx_data \<Rightarrow> sha256_hash \<Rightarrow> out_point \<Rightarrow>
       (builder_error, stake_tx) outcome" where
  "stake_tail_new env ctx params data prev_hash prev_stake =
     (let ins = create_tx_ins [operator_funds data, prev_stake];
          p = \<lparr>p_n_of_n_agg_pubkey = ctx_aggregated_pubkey ctx, p_stake_hash = sd_hash data\<rparr>;
          s = stake_connector_of ctx params (sd_operator_pubkey data) (sd_hash data);
          cpfp = connector_cpfp_script (sd_operator_pubkey data) in
     bind_outcome (connector_k_address env (sd_withdrawal_fulfillment_pk data)) (\<lambda>k_out.
     bind_outcome (connector_p_address env p) (\<lambda>p_out.
     bind_outcome (connector_stake_address env s) (\<lambda>s_out.
     let outs = create_tx_outs [(k_out, funding_amount), (p_out, dust env p_out),
                                (s_out, stake_amount params), (cpfp, segwit_min_amount)];
         ins = ins[1 := (ins ! 1)\<lparr>sequence := sequence_from_height (as_u16 (delta params))\<rparr>];
         tx = (create_tx ins outs)\<lparr>tx_version := 3\<rparr> in
     bind_outcome (expect (psbt_from_unsigned_tx tx)) (\<lambda>psbt.
     let prev_connector = stake_connector_of ctx params (sd_operator_pubkey data) prev_hash in
     bind_outcome (connector_stake_address env prev_connector) (\<lambda>prev_out.
     bind_outcome (set_witness_utxo 1
         \<lparr>txout_value = stake_amount params, script_pubkey = prev_out\<rparr> psbt) (\<lambda>psbt.
     bind_outcome (connector_stake_spend_info env prev_connector) (\<lambda>(script, cb).
       Ok \<lparr>st_psbt = psbt, st_hash = sd_hash data,
           st_witnesses = [WitnessKey, WitnessScript script cb]\<rparr>))))))))"

text \<open>
  \<open>StakeTx::advance\<close> repeats the body of \<open>StakeTx::<Tail>::new\<close> with the hash and the stake output of
  the current transaction.
\<close>

definition stake_tx_advance ::
    "graph_env \<Rightarrow> build_context \<Rightarrow> stake_chain_params \<Rightarrow> stake_tx \<Rightarrow> stake_tx_data \<Rightarrow>
       (builder_error, stake_tx) outcome" where
  "stake_tx_advance env ctx params self data =
     (let prev_stake = \<lparr>op_txid = stake_txid_of env self, op_vout = STAKE_VOUT\<rparr>;
          ins = create_tx_ins [operator_funds data, prev_stake];
          p = \<lparr>p_n_of_n_agg_pubkey = ctx_aggregated_pubkey ctx, p_stake_hash = sd_hash data\<rparr>;
          s = stake_connector_of ctx params (sd_operator_pubkey data) (sd_hash data);
          cpfp = connector_cpfp_script (sd_operator_pubkey data) in
     bind_outcome (connector_k_address env (sd_withdrawal_fulfillment_pk data)) (\<lambda>k_out.
     bind_outcome (connector_p_address env p) (\<lambda>p_out.
     bind_outcome (connector_stake_address env s) (\<lambda>s_out.
     let outs = create_tx_outs [(k_out, funding_amount), (p_out, dust env p_out),
                                (s_out, stake_amount params), (cpfp, segwit_min_amount)];
         ins = ins[1 := (ins ! 1)\<lparr>sequence := sequence_from_height (as_u16 (delta params))\<rparr>];
         tx = (create_tx ins outs)\<lparr>tx_version := 3\<rparr> in
     bind_outcome (expect (psbt_from_unsigned_tx tx)) (\<lambda>psbt.
     let prev_connector = stake_connector_of ctx params (sd_operator_pubkey data) (st_hash self) in
     bind_outcome (connector_stake_address env prev_connector) (\<lambda>prev_out.
     bind_outcome (set_witness_utxo 1
         \<lparr>txout_value = stake_amount params, script_pubkey = prev_out\<rparr> psbt) (\<lambda>psbt.
     bind_outcome (connector_stake_spend_info env prev_connector) (\<lambda>(script, cb).
       Ok \<lparr>st_psbt = psbt, st_hash = sd_hash data,
           st_witnesses = [WitnessKey, WitnessScript script cb]\<rparr>))))))))"

definition compute_sighash_with_prevouts ::
    "graph_env \<Rightarrow> stake_tx \<Rightarrow> prevouts \<Rightarrow> (builder_error, 256 word list) outcome" where
  "compute_sighash_with_prevouts env st ps =
     bind_outcome (traverse (\<lambda>(i, inp).
       bind_outcome (expect (list_get (st_witnesses st) i)) (\<lambda>w.
         expect (create_message_hash (lib env) (unsigned_tx (st_psbt st)) ps w
           (case psbt_sighash_type inp of Some ty \<Rightarrow> ty | None \<Rightarrow> SighashDefault) i)))
       (enumerate 0 (psbt_inputs (st_psbt st)))) (\<lambda>hashes.
     if length hashes = 2 then Ok hashes else Panic)"

definition stake_head_sighashes ::
    "graph_env \<Rightarrow> stake_tx \<Rightarrow> amount \<Rightarrow> script_buf list \<Rightarrow> (builder_error, 256 word list) outcome" where
  "stake_head_sighashes env st stake_amt scripts =
     compute_sighash_with_prevouts env st (PrevoutsAll
       (map (\<lambda>(s, v). \<lparr>txout_value = v, script_pubkey = s\<rparr>) (zip scripts [operator_funds_amount, stake_amt])))"

definition stake_tail_sighashes ::
    "graph_env \<Rightarrow> stake_tx \<Rightarrow> script_buf \<Rightarrow> (builder_error, 256 word list) outcome" where
  "stake_tail_sighashes env st funding_script =
     bind_outcome (expect (list_get (psbt_inputs (st_psbt st)) 1)) (\<lambda>inp.
     bind_outcome (expect (witness_utxo inp)) (\<lambda>prev.
       compute_sighash_with_prevouts env st (PrevoutsAll
         [\<lparr>txout_value = operator_funds_amount, script_pubkey = funding_script\<rparr>, prev])))"

record pre_stake_tx =
  pre_stake_psbt :: psbt
  pre_stake_amount :: amount

definition pre_stake_tx_new :: "tx_in list \<Rightarrow> tx_out list \<Rightarrow> tx_out \<Rightarrow> (builder_error, pre_stake_tx) outcome" where
  "pre_stake_tx_new ins outs previous_utxo =
     bind_outcome (expect (list_get outs 0)) (\<lambda>out.
     bind_outcome (expect (psbt_from_unsigned_tx
         \<lparr>tx_version = 2, lock_time = 0, tx_input = ins, tx_output = outs\<rparr>)) (\<lambda>p.
     bind_outcome (set_witness_utxo 0 previous_utxo p) (\<lambda>p.
       Ok \<lparr>pre_stake_psbt = p, pre_stake_amount = txout_value out\<rparr>)))"

section \<open>The stake chain\<close>

record stake_chain_inputs =
  stake_inputs :: "(u32, stake_tx_data) btree_map"
  pre_stake_outpoint :: out_point

record stake_chain =
  sc_head :: "stake_tx option"
  sc_tail :: "stake_tx list"

text \<open>The loop over the indices from 2; a missing input ends it.\<close>

fun extend_tail ::
    "graph_env \<Rightarrow> build_context \<Rightarrow> stake_chain_params \<Rightarrow> (u32, stake_tx_data) btree_map \<Rightarrow> nat list \<Rightarrow>
       stake_tx list \<Rightarrow> (builder_error, stake_tx list) outcome" where
  "extend_tail env ctx params inputs [] tail = Ok tail"
| "extend_tail env ctx params inputs (i # is) tail =
     (case bt_get inputs (of_nat i) of
        None \<Rightarrow> Ok tail
      | Some data \<Rightarrow>
          bind_outcome (if tail = [] then Panic else Ok (last tail)) (\<lambda>prev.
          bind_outcome (stake_tx_advance env ctx params prev data) (\<lambda>st.
            extend_tail env ctx params inputs is (tail @ [st]))))"

definition stake_chain_new ::
    "graph_env \<Rightarrow> build_context \<Rightarrow> stake_chain_inputs \<Rightarrow> stake_chain_params \<Rightarrow>
       (builder_error, stake_chain) outcome" where
  "stake_chain_new env ctx chain_inputs params =
     (let inputs = stake_inputs chain_inputs in
     (case bt_get inputs 0 of
        None \<Rightarrow> Ok \<lparr>sc_head = None, sc_tail = []\<rparr>
      | Some first \<Rightarrow>
     bind_outcome (stake_head_new env ctx params (sd_hash first) (sd_withdrawal_fulfillment_pk first)
         (pre_stake_outpoint chain_inputs) (operator_funds first) (sd_operator_pubkey first)) (\<lambda>head.
     (case bt_get inputs 1 of
        None \<Rightarrow> Ok \<lparr>sc_head = Some head, sc_tail = []\<rparr>
      | Some next_input \<Rightarrow>
     bind_outcome (stake_tx_advance env ctx params head next_input) (\<lambda>next_tx.
     bind_outcome (extend_tail env ctx params inputs (drop 2 [0..<bt_len inputs]) [next_tx]) (\<lambda>tail.
       Ok \<lparr>sc_head = Some head, sc_tail = tail\<rparr>))))))"

definition stake_chain_len :: "stake_chain \<Rightarrow> nat" where
  "stake_chain_len c = (case sc_head c of None \<Rightarrow> 0 | Some _ \<Rightarrow> 1 + length (sc_tail c))"

definition stake_chain_is_empty :: "stake_chain \<Rightarrow> bool" where
  "stake_chain_is_empty c \<longleftrightarrow> sc_head c = None"

definition stake_hashes :: "stake_chain_inputs \<Rightarrow> sha256_hash list" where
  "stake_hashes ci = map sd_hash (bt_values (stake_inputs ci))"

definition stake_hash_at_index :: "stake_chain_inputs \<Rightarrow> nat \<Rightarrow> sha256_hash option" where
  "stake_hash_at_index ci i = map_option sd_hash (list_get (bt_values (stake_inputs ci)) i)"

definition operator_funds_at_index :: "stake_chain_inputs \<Rightarrow> nat \<Rightarrow> out_point option" where
  "operator_funds_at_index ci i = map_option operator_funds (list_get (bt_values (stake_inputs ci)) i)"

section \<open>The stake chain state machine\<close>

datatype stake_chain_err =
    OperatorP2PKeyNotFound p2p_key
  | IncompleteState "p2p_key list"
  | MissingStakeTxid p2p_key u32
  | IncompleteStakeChainInput p2p_key u32
  | StakeSetupDataNotFound p2p_key
  | StakeTxNotFound p2p_key u32
  | Unexpected string

text \<open>\<open>OperatorTable::tx_build_context\<close> with \<open>get_aggregated_pubkey\<close>.\<close>

definition get_aggregated_pubkey :: "bridge_env \<Rightarrow> btc_key list \<Rightarrow> ('e, xonly_key) outcome" where
  "get_aggregated_pubkey benv keys =
     bind_outcome (expect (key_agg_new benv keys)) (\<lambda>c. Ok (x_only_public_key (key_agg_pubkey benv c)))"

definition tx_build_context :: "bridge_env \<Rightarrow> operator_table \<Rightarrow> ('e, build_context) outcome" where
  "tx_build_context benv t =
     bind_outcome (get_aggregated_pubkey benv (bt_values (public_key_table t))) (\<lambda>key.
       Ok \<lparr>ctx_aggregated_pubkey = key, ctx_own_index = pov_idx t\<rparr>)"

record deposit_setup =
  setup_index :: u32
  setup_hash :: sha256_hash
  funding_outpoint :: out_point
  setup_operator_pk :: xonly_key
  setup_wots_pks :: p2p_wots_public_keys

definition setup_stake_tx_data :: "deposit_setup \<Rightarrow> stake_tx_data" where
  "setup_stake_tx_data d =
     \<lparr>operator_funds = funding_outpoint d, sd_hash = setup_hash d,
      sd_withdrawal_fulfillment_pk = p2p_withdrawal_fulfillment (setup_wots_pks d),
      sd_operator_pubkey = setup_operator_pk d\<rparr>"

record stake_chain_sm =
  scsm_params :: stake_chain_params
  scsm_operator_table :: operator_table
  stake_chains :: "(p2p_key, stake_chain_inputs) btree_map"
  stake_txids :: "(p2p_key, (u32, txid) btree_map) btree_map"

definition stake_chain_sm_new :: "operator_table \<Rightarrow> stake_chain_params \<Rightarrow> stake_chain_sm" where
  "stake_chain_sm_new t params =
     \<lparr>scsm_params = params, scsm_operator_table = t, stake_chains = bt_empty, stake_txids = bt_empty\<rparr>"

definition chain_txids :: "graph_env \<Rightarrow> stake_chain \<Rightarrow> (u32, txid) btree_map" where
  "chain_txids env c =
     (case sc_head c of
        None \<Rightarrow> bt_empty
      | Some head \<Rightarrow>
          foldl (\<lambda>m (k, v). bt_insert k v m) (bt_insert 0 (stake_txid_of env head) bt_empty)
            (map (\<lambda>(i, st). (of_nat i + 1, stake_txid_of env st)) (enumerate 0 (sc_tail c))))"

definition stake_chain_sm_restore ::
    "bridge_env \<Rightarrow> operator_table \<Rightarrow> stake_chain_params \<Rightarrow> (p2p_key, stake_chain_inputs) btree_map \<Rightarrow>
       (builder_error, stake_chain_sm) outcome" where
  "stake_chain_sm_restore benv t params saved =
     (let keys = p2p_keys t in
     bind_outcome (traverse (\<lambda>inputs.
         bind_outcome (tx_build_context benv t) (\<lambda>ctx.
         map_outcome_ok (chain_txids (graph_lib benv)) (stake_chain_new (graph_lib benv) ctx inputs params)))
       (List.map_filter (bt_get saved) keys)) (\<lambda>txids.
       Ok \<lparr>scsm_params = params, scsm_operator_table = t, stake_chains = saved,
           stake_txids = bt_collect (map (\<lambda>(ids, key). (key, ids)) (zip txids keys))\<rparr>))"

definition process_exchange :: "stake_chain_sm \<Rightarrow> p2p_key \<Rightarrow> out_point \<Rightarrow> stake_chain_sm" where
  "process_exchange sm operator pre_stake =
     (let inputs = \<lparr>stake_inputs = bt_empty, pre_stake_outpoint = pre_stake\<rparr>;
          old = bt_get (stake_chains sm) operator;
          chains = bt_insert operator inputs (stake_chains sm) in
      sm\<lparr>stake_chains := (case old of None \<Rightarrow> chains | Some inputs' \<Rightarrow> bt_insert operator inputs' chains)\<rparr>)"

definition sm_stake_tx ::
    "bridge_env \<Rightarrow> stake_chain_sm \<Rightarrow> p2p_key \<Rightarrow> u32 \<Rightarrow> (stake_chain_err, stake_tx_kind option) outcome" where
  "sm_stake_tx benv sm op n =
     (case bt_get (stake_chains sm) op of
        None \<Rightarrow> Ok None
      | Some ci \<Rightarrow>
     bind_outcome (tx_build_context benv (scsm_operator_table sm)) (\<lambda>ctx.
     if n = 0 then
       bind_outcome (ok_or (StakeTxNotFound op 0) (list_get (bt_values (stake_inputs ci)) 0)) (\<lambda>first.
       bind_outcome (expect_ok (stake_head_new (graph_lib benv) ctx (scsm_params sm) (sd_hash first)
           (sd_withdrawal_fulfillment_pk first) (pre_stake_outpoint ci) (operator_funds first)
           (sd_operator_pubkey first))) (\<lambda>st. Ok (Some (StakeHead st))))
     else
       bind_outcome (ok_or (StakeTxNotFound op n) (bt_get (stake_txids sm) op)) (\<lambda>txids.
       bind_outcome (ok_or (MissingStakeTxid op (n - 1)) (bt_get txids (n - 1))) (\<lambda>prev_txid.
       bind_outcome (ok_or (IncompleteStakeChainInput op (n - 1)) (bt_get (stake_inputs ci) (n - 1)))
         (\<lambda>prev_input.
       bind_outcome (ok_or (IncompleteStakeChainInput op n) (bt_get (stake_inputs ci) n)) (\<lambda>data.
       bind_outcome (expect_ok (stake_tail_new (graph_lib benv) ctx (scsm_params sm) data (sd_hash prev_input)
           \<lparr>op_txid = prev_txid, op_vout = STAKE_VOUT\<rparr>)) (\<lambda>st. Ok (Some (StakeTail st)))))))))"

definition sm_stake_txid :: "stake_chain_sm \<Rightarrow> p2p_key \<Rightarrow> u32 \<Rightarrow> txid option" where
  "sm_stake_txid sm op deposit_idx =
     Option.bind (bt_get (stake_txids sm) op) (\<lambda>txids. bt_get txids deposit_idx)"

definition sm_height :: "stake_chain_sm \<Rightarrow> ('e, u32) outcome" where
  "sm_height sm =
     bind_outcome (pov_p2p_key (scsm_operator_table sm)) (\<lambda>my_key.
       Ok (case bt_get (stake_txids sm) my_key of Some txids \<Rightarrow> of_nat (bt_len txids) | None \<Rightarrow> 0))"

definition process_setup ::
    "bridge_env \<Rightarrow> stake_chain_sm \<Rightarrow> p2p_key \<Rightarrow> deposit_setup \<Rightarrow>
       stake_chain_sm \<times> (stake_chain_err, txid option) outcome" where
  "process_setup benv sm operator setup =
     (let idx = setup_index setup in
     (case sm_stake_txid sm operator idx of
        Some txid \<Rightarrow> (sm, Ok (Some txid))
      | None \<Rightarrow>
     (case bt_get (stake_chains sm) operator of
        None \<Rightarrow> (sm, Err (StakeSetupDataNotFound operator))
      | Some ci \<Rightarrow>
     let ci = ci\<lparr>stake_inputs := bt_insert idx (setup_stake_tx_data setup) (stake_inputs ci)\<rparr>;
         sm = sm\<lparr>stake_chains := bt_insert operator ci (stake_chains sm)\<rparr> in
     (case sm_stake_tx benv sm operator idx of
        Err e \<Rightarrow> (sm, Err e)
      | Panic \<Rightarrow> (sm, Panic)
      | Ok None \<Rightarrow> (sm, Ok None)
      | Ok (Some st) \<Rightarrow>
          let txid = stake_tx_kind_txid (graph_lib benv) st;
              txids = (case bt_get (stake_txids sm) operator of Some m \<Rightarrow> m | None \<Rightarrow> bt_empty) in
          (sm\<lparr>stake_txids := bt_insert operator (bt_insert idx txid txids) (stake_txids sm)\<rparr>,
           Ok (Some txid))))))"

end
