(* ===== verification/Stake_Correctness.thy ===== *)
theory Stake_Correctness
  imports Stake_Chain
begin

text \<open>
  Properties of the stake chain: its transactions carry the outputs that the peg-out graph and the next
  stake transaction spend, the chain built at once and the chain built step by step by the state
  machine agree, and the cached transaction ids are those of the chain.
\<close>

section \<open>The outputs of a stake transaction\<close>

text \<open>
  \<open>stake_outs\<close>: the four outputs of a stake transaction with the given data; head and tail share it.
\<close>

definition stake_outs ::
    "graph_env \<Rightarrow> build_context \<Rightarrow> stake_chain_params \<Rightarrow> stake_tx_data \<Rightarrow> transaction \<Rightarrow> bool" where
  "stake_outs env ctx params data tx \<longleftrightarrow>
     (\<exists>k_out p_out s_out.
        connector_k_address env (sd_withdrawal_fulfillment_pk data) = Ok k_out \<and>
        connector_p_address env
          \<lparr>p_n_of_n_agg_pubkey = ctx_aggregated_pubkey ctx, p_stake_hash = sd_hash data\<rparr> = Ok p_out \<and>
        connector_stake_address env (stake_connector_of ctx params (sd_operator_pubkey data) (sd_hash data)) =
          Ok s_out \<and>
        tx_output tx = create_tx_outs [(k_out, funding_amount), (p_out, 330),
          (s_out, stake_amount params), (connector_cpfp_script (sd_operator_pubkey data), 330)])"

lemma stake_head_newD:
  assumes "stake_head_new env ctx params (sd_hash data) (sd_withdrawal_fulfillment_pk data) pre funds
             (sd_operator_pubkey data) = Ok st" and "dust_ok env"
  shows "stake_outs env ctx params data (unsigned_tx (st_psbt st)) \<and> st_hash st = sd_hash data \<and>
         map previous_output (tx_input (unsigned_tx (st_psbt st))) = [funds, pre]"
proof -
  have "operator_funds_amount - 660 = funding_amount"
    by (simp add: operator_funds_amount_def funding_amount_def num_assert_data_tx_def)
  then show ?thesis
    using assms(1)
    by (auto simp: stake_head_new_def Let_def outcome_simps dust_connectors(4) [OF assms(2)]
        dust_cpfp [OF assms(2)] segwit_min_amount_def stake_outs_def create_tx_ins_def
        dest!: psbt_from_unsigned_tx_Some)
qed

lemma stake_tail_newD:
  assumes "stake_tail_new env ctx params data prev_hash prev_stake = Ok st" and "dust_ok env"
  obtains prev_out where
    "stake_outs env ctx params data (unsigned_tx (st_psbt st))" "st_hash st = sd_hash data"
    "map previous_output (tx_input (unsigned_tx (st_psbt st))) = [operator_funds data, prev_stake]"
    "connector_stake_address env (stake_connector_of ctx params (sd_operator_pubkey data) prev_hash) = Ok prev_out"
    "length (psbt_inputs (st_psbt st)) = 2"
    "witness_utxo (psbt_inputs (st_psbt st) ! 1) = Some \<lparr>txout_value = stake_amount params, script_pubkey = prev_out\<rparr>"
  using assms(1)
  by (auto simp: stake_tail_new_def Let_def outcome_simps dust_connectors(4) [OF assms(2)]
      segwit_min_amount_def stake_outs_def create_tx_ins_def set_witness_utxo_def split: if_splits
      dest!: psbt_from_unsigned_tx_Some intro!: that)

text \<open>A stake transaction made for the given data, by either constructor.\<close>

definition stake_tx_made ::
    "graph_env \<Rightarrow> build_context \<Rightarrow> stake_chain_params \<Rightarrow> stake_tx_data \<Rightarrow> stake_tx \<Rightarrow> bool" where
  "stake_tx_made env ctx params data st \<longleftrightarrow>
     (\<exists>pre funds. stake_head_new env ctx params (sd_hash data) (sd_withdrawal_fulfillment_pk data) pre funds
        (sd_operator_pubkey data) = Ok st) \<or>
     (\<exists>prev_hash prev_stake. stake_tail_new env ctx params data prev_hash prev_stake = Ok st)"

lemma stake_tx_made_outs:
  assumes "stake_tx_made env ctx params data st" and "dust_ok env"
  shows "stake_outs env ctx params data (unsigned_tx (st_psbt st))"
  using assms(1) unfolding stake_tx_made_def
proof (elim disjE exE)
  fix pre funds assume "stake_head_new env ctx params (sd_hash data) (sd_withdrawal_fulfillment_pk data) pre funds
        (sd_operator_pubkey data) = Ok st"
  from stake_head_newD [OF this assms(2)] show ?thesis by simp
next
  fix ph po assume "stake_tail_new env ctx params data ph po = Ok st"
  then show ?thesis by (rule stake_tail_newD [OF _ assms(2)])
qed

section \<open>The peg-out graph on top of a stake transaction\<close>

text \<open>
  The graph input that \<open>process_deposit_setup\<close> builds for a stake transaction and its data.
\<close>

definition graph_input_of :: "graph_env \<Rightarrow> stake_tx_data \<Rightarrow> stake_tx \<Rightarrow> peg_out_graph_input \<Rightarrow> bool" where
  "graph_input_of env data st inp \<longleftrightarrow>
     stake_outpoint inp = \<lparr>op_txid = stake_txid_of env st, op_vout = STAKE_VOUT\<rparr> \<and>
     withdrawal_fulfillment_outpoint inp =
       \<lparr>op_txid = stake_txid_of env st, op_vout = WITHDRAWAL_FULFILLMENT_VOUT\<rparr> \<and>
     stake_hash inp = sd_hash data \<and> operator_pubkey inp = sd_operator_pubkey data \<and>
     withdrawal_fulfillment_pk (input_wots_public_keys inp) = sd_withdrawal_fulfillment_pk data"

lemma connectors_newD:
  assumes "peg_out_graph_connectors_new env ctx deposit params key hash d pks = Ok cs"
  shows "kickoff cs = withdrawal_fulfillment_pk pks"
    and "hashlock_payout cs = \<lparr>p_n_of_n_agg_pubkey = ctx_aggregated_pubkey ctx, p_stake_hash = hash\<rparr>"
    and "stake_connector cs = \<lparr>s_n_of_n_agg_pubkey = ctx_aggregated_pubkey ctx, s_operator_pubkey = key,
           s_stake_hash = hash, s_delta = d\<rparr>"
  using assms by (auto simp: peg_out_graph_connectors_new_def Let_def outcome_simps)

lemma claim_spends_stake:
  assumes "claim_tx_new env sop k c0 c1 n_of_n cpfp = Ok claim" and "dust_ok env"
    and "sop = \<lparr>op_txid = env_compute_txid env tx, op_vout = 0\<rparr>"
    and "connector_k_address env k = Ok k_out" and "tx_output tx = create_tx_outs ((k_out, funding_amount) # os)"
  shows "links_to env (claim_psbt claim) 0 tx 0"
  by (rule claim_tx_newD [OF assms(1,2)]) (simp add: links_to_def assms(3-5))

lemma payout_optimistic_spends_stake:
  assumes "payout_optimistic_tx_new env claim deposit
             \<lparr>op_txid = env_compute_txid env tx, op_vout = 1\<rparr> amt key c0 c1 n_of_n cp cpfp = Ok ct" and "dust_ok env"
    and "connector_p_address env cp = Ok p_out" and "tx_output tx = create_tx_outs (o1 # (p_out, 330) # os)"
  shows "links_to env (ct_psbt ct) 4 tx 1"
proof (rule payout_optimistic_tx_newD [OF assms(1,2)], goal_cases)
  case (1 ins operator_out n_of_n_out c0_out c1_out p_out' script cb)
  obtain s v where "o1 = (s, v)" by force
  then show ?case
    using nth_previous_output [OF 1(7), of 4] 1(4) assms(3,4)
    by (simp add: 1(8) links_to_def)
qed

lemma payout_spends_stake:
  assumes "payout_tx_new env post deposit cop \<lparr>op_txid = env_compute_txid env tx, op_vout = 1\<rparr> amt key a3
             n_of_n cp cpfp = Ok ct" and "dust_ok env"
    and "connector_p_address env cp = Ok p_out" and "tx_output tx = create_tx_outs (o1 # (p_out, 330) # os)"
  shows "links_to env (ct_psbt ct) 3 tx 1"
proof (rule payout_tx_newD [OF assms(1,2)], goal_cases)
  case (1 ins operator_out n_of_n_out p_out' script cb)
  obtain s v where "o1 = (s, v)" by force
  then show ?case
    using nth_previous_output [OF 1(5), of 3] 1(2) assms(3,4)
    by (simp add: 1(6) links_to_def)
qed

lemma disprove_spends_stake:
  assumes "disprove_tx_new env post \<lparr>op_txid = env_compute_txid env tx, op_vout = 2\<rparr> amt burn a3 stake = Ok ct"
    and "dust_ok env" and "connector_stake_address env stake = Ok s_out"
    and "tx_output tx = create_tx_outs [o1, o2, (s_out, amt), o3]"
  shows "links_to env (ct_psbt ct) 0 tx 2"
  by (rule disprove_tx_newD [OF assms(1,2)])
     (cases o1; cases o2; simp add: links_to_def assms(3,4) create_tx_outs_def flip: ct_tx_def)

lemma slash_stake_spends_stake:
  assumes "slash_stake_tx_new env \<lparr>op_txid = env_compute_txid env tx, op_vout = 2\<rparr> cop scp n_of_n stake = Ok ct"
    and "dust_ok env" and "connector_stake_address env stake = Ok s_out"
    and "tx_output tx = create_tx_outs [o1, o2, (s_out, stake_amount scp), o3]"
  shows "links_to env (ct_psbt ct) 1 tx 2"
  by (rule slash_stake_tx_newD [OF assms(1,2)])
     (cases o1; cases o2; simp add: links_to_def assms(3,4) create_tx_outs_def)

text \<open>
  (C20) The peg-out graph that is generated for a stake transaction spends the outputs of that very
  transaction: the claim its withdrawal-fulfillment output, both payouts its hashlocked payout output,
  disprove and every slash-stake transaction its stake output; each with the value and the script to
  which the signatures commit.
\<close>

theorem peg_out_graph_spends_stake:
  assumes "peg_out_graph_generate env inp ctx deposit gp cp scp prevs = Ok (g, cs)" and "dust_ok env"
    and "stake_tx_made env ctx scp data st" and "graph_input_of env data st inp"
  shows "let stake = unsigned_tx (st_psbt st) in
         links_to env (claim_psbt (pog_claim_tx g)) 0 stake 0 \<and>
         links_to env (ct_psbt (pog_payout_optimistic_tx g)) 4 stake 1 \<and>
         links_to env (ct_psbt (pog_payout_tx g)) 3 stake 1 \<and>
         links_to env (ct_psbt (pog_disprove_tx g)) 0 stake 2 \<and>
         (\<forall>ct \<in> set (pog_slash_stake_txs g). links_to env (ct_psbt ct) 1 stake 2)"
proof -
  let ?stake = "unsigned_tx (st_psbt st)"
  note gen = peg_out_graph_generateD [OF assms(1)] and dust = assms(2)
  note cs = connectors_newD [OF gen(1)]
  note inp = assms(4) [unfolded graph_input_of_def stake_txid_of_def stake_vout_defs]
  obtain k_out p_out s_out where
    k: "connector_k_address env (kickoff cs) = Ok k_out"
    and p: "connector_p_address env (hashlock_payout cs) = Ok p_out"
    and s: "connector_stake_address env (stake_connector cs) = Ok s_out"
    and outs: "tx_output ?stake = create_tx_outs [(k_out, funding_amount), (p_out, 330),
          (s_out, stake_amount scp), (connector_cpfp_script (sd_operator_pubkey data), 330)]"
    using stake_tx_made_outs [OF assms(3) dust] inp
    unfolding stake_outs_def cs stake_connector_of_def by auto
  have "links_to env (ct_psbt ct) 1 ?stake 2" if ct: "ct \<in> set (pog_slash_stake_txs g)" for ct
  proof -
    obtain prev where "slash_stake_tx_new env (stake_outpoint inp)
       \<lparr>op_txid = prev, op_vout = SLASH_STAKE_VOUT\<rparr> scp (n_of_n_key cs) (stake_connector cs) = Ok ct"
      using gen(8) ct unfolding traverse_Ok_iff by (auto simp: list_all2_conv_all_nth in_set_conv_nth)
    then show ?thesis using inp slash_stake_spends_stake [OF _ dust s outs] by simp
  qed
  then show ?thesis
    using inp claim_spends_stake [OF gen(2) dust _ k outs] gen(4,6,7)
      payout_optimistic_spends_stake [OF _ dust p outs] payout_spends_stake [OF _ dust p outs]
      disprove_spends_stake [OF _ dust s outs]
    by (simp add: Let_def)
qed

lemma connector_stake_spend_info_ok:
  assumes "graph_env_ok env"
  shows "\<exists>script cb. connector_stake_spend_info env c = Ok (script, cb)"
  using assms taproot_spend_info_ok [of "lib env" "BothSpend (s_n_of_n_agg_pubkey c) [connector_stake_script env c]"
      "[connector_stake_script env c]" "connector_stake_script env c"]
  by (auto simp: graph_env_ok_def connector_stake_spend_info_def)

lemma stake_head_new_ok:
  assumes "graph_env_ok env"
  shows "\<exists>st. stake_head_new env ctx params hash pk pre funds key = Ok st"
proof -
  obtain k_out where "connector_k_address env pk = Ok k_out" using connectors_ok(4) [OF assms] ..
  moreover obtain p_out where
    "connector_p_address env \<lparr>p_n_of_n_agg_pubkey = ctx_aggregated_pubkey ctx, p_stake_hash = hash\<rparr> = Ok p_out"
    using connectors_ok(5) [OF assms] ..
  moreover obtain s_out where "connector_stake_address env (stake_connector_of ctx params key hash) = Ok s_out"
    using connectors_ok(6) [OF assms] ..
  ultimately show ?thesis
    by (simp add: stake_head_new_def Let_def amount_sub_def operator_funds_amount_def num_assert_data_tx_def
        psbt_from_unsigned_tx_def create_tx_ins_def)
qed

lemma stake_tail_new_ok:
  assumes "graph_env_ok env"
  shows "\<exists>st. stake_tail_new env ctx params data prev_hash prev_stake = Ok st"
proof -
  let ?prev = "stake_connector_of ctx params (sd_operator_pubkey data) prev_hash"
  obtain k_out where "connector_k_address env (sd_withdrawal_fulfillment_pk data) = Ok k_out"
    using connectors_ok(4) [OF assms] ..
  moreover obtain p_out where
    "connector_p_address env \<lparr>p_n_of_n_agg_pubkey = ctx_aggregated_pubkey ctx, p_stake_hash = sd_hash data\<rparr> = Ok p_out"
    using connectors_ok(5) [OF assms] ..
  moreover obtain s_out where
    "connector_stake_address env (stake_connector_of ctx params (sd_operator_pubkey data) (sd_hash data)) = Ok s_out"
    using connectors_ok(6) [OF assms] ..
  moreover obtain prev_out where "connector_stake_address env ?prev = Ok prev_out"
    using connectors_ok(6) [OF assms] ..
  moreover obtain script cb where "connector_stake_spend_info env ?prev = Ok (script, cb)"
    using connector_stake_spend_info_ok [OF assms] by blast
  ultimately show ?thesis
    by (simp add: stake_tail_new_def Let_def psbt_from_unsigned_tx_def create_tx_ins_def set_witness_utxo_def)
qed

theorem peg_out_graph_spends_stake_witness:
  "\<exists>st inp g cs. stake_tail_new example_env example_ctx example_stake_params
       \<lparr>operator_funds = \<lparr>op_txid = 2, op_vout = 0\<rparr>, sd_hash = 3, sd_withdrawal_fulfillment_pk = [],
        sd_operator_pubkey = 4\<rparr> 9 \<lparr>op_txid = 1, op_vout = 2\<rparr> = Ok st \<and>
     peg_out_graph_generate example_env inp example_ctx 7 example_graph_params
       example_connector_params example_stake_params [5] = Ok (g, cs) \<and>
     links_to example_env (claim_psbt (pog_claim_tx g)) 0 (unsigned_tx (st_psbt st)) 0"
proof -
  let ?data = "\<lparr>operator_funds = \<lparr>op_txid = 2, op_vout = 0\<rparr>, sd_hash = 3, sd_withdrawal_fulfillment_pk = [],
        sd_operator_pubkey = 4\<rparr>"
  obtain st where st: "stake_tail_new example_env example_ctx example_stake_params ?data 9
      \<lparr>op_txid = 1, op_vout = 2\<rparr> = Ok st"
    using stake_tail_new_ok [OF example_env_ok] by blast
  then have made: "stake_tx_made example_env example_ctx example_stake_params ?data st"
    by (auto simp: stake_tx_made_def)
  define inp where "inp = \<lparr>stake_outpoint = \<lparr>op_txid = stake_txid_of example_env st, op_vout = STAKE_VOUT\<rparr>,
     withdrawal_fulfillment_outpoint =
       \<lparr>op_txid = stake_txid_of example_env st, op_vout = WITHDRAWAL_FULFILLMENT_VOUT\<rparr>, stake_hash = 3,
     input_wots_public_keys = example_wots, operator_pubkey = 4\<rparr>"
  have input: "graph_input_of example_env ?data st inp"
    by (simp add: graph_input_of_def inp_def example_wots_def)
  obtain g cs where gen: "peg_out_graph_generate example_env inp example_ctx 7 example_graph_params
      example_connector_params example_stake_params [5] = Ok (g, cs)"
    using peg_out_graph_generate_ok [OF example_env_ok example_params_ok example_tapscripts] by blast
  then show ?thesis
    using st peg_out_graph_spends_stake [OF gen example_dust_ok made input] by (auto simp: Let_def)
qed

end
