(* ===== verification/Stake_Machine.thy ===== *)
theory Stake_Machine
  imports Stake_Correctness
begin

text \<open>
  The stake chain as a sequence and the state machine that builds it one setup message at a time. The
  reference \<open>stake_tx_at\<close> gives the stake transaction at every index; \<open>StakeChain::new\<close> and the machine's
  cache of transaction ids are both related to it, the machine by an invariant kept by every message.
\<close>

section \<open>The chain as a sequence\<close>

text \<open>
  The reference: the \<open>n\<close>-th stake transaction is made from the inputs up to index \<open>n\<close>, by \<open>advance\<close>
  from the previous one; \<open>None\<close> when one of the inputs is missing.
\<close>

fun stake_tx_at ::
    "graph_env \<Rightarrow> build_context \<Rightarrow> stake_chain_params \<Rightarrow> stake_chain_inputs \<Rightarrow> nat \<Rightarrow>
       (builder_error, stake_tx option) outcome" where
  "stake_tx_at env ctx params ci 0 =
     (case bt_get (stake_inputs ci) 0 of None \<Rightarrow> Ok None
      | Some first \<Rightarrow> map_outcome_ok Some (stake_head_new env ctx params (sd_hash first)
          (sd_withdrawal_fulfillment_pk first) (pre_stake_outpoint ci) (operator_funds first)
          (sd_operator_pubkey first)))"
| "stake_tx_at env ctx params ci (Suc n) =
     bind_outcome (stake_tx_at env ctx params ci n) (\<lambda>prev.
     case prev of None \<Rightarrow> Ok None
     | Some st \<Rightarrow>
       (case bt_get (stake_inputs ci) (of_nat (Suc n)) of None \<Rightarrow> Ok None
        | Some data \<Rightarrow> map_outcome_ok Some (stake_tx_advance env ctx params st data)))"

definition chain_list :: "stake_chain \<Rightarrow> stake_tx list" where
  "chain_list c = (case sc_head c of None \<Rightarrow> [] | Some h \<Rightarrow> h # sc_tail c)"

text \<open>The build context of a table, \<open>None\<close> when the keys cannot be aggregated.\<close>

definition build_context_of :: "bridge_env \<Rightarrow> operator_table \<Rightarrow> build_context option" where
  "build_context_of benv t =
     map_option (\<lambda>c. \<lparr>ctx_aggregated_pubkey = x_only_public_key (key_agg_pubkey benv c), ctx_own_index = pov_idx t\<rparr>)
       (key_agg_new benv (bt_values (public_key_table t)))"

text \<open>The messages that change the machine.\<close>

datatype stake_chain_event =
    StakeChainExchange p2p_key out_point
  | DepositSetupMsg p2p_key deposit_setup

fun scsm_step :: "bridge_env \<Rightarrow> stake_chain_sm \<Rightarrow> stake_chain_event \<Rightarrow> stake_chain_sm" where
  "scsm_step benv sm (StakeChainExchange op pre) = process_exchange sm op pre"
| "scsm_step benv sm (DepositSetupMsg op setup) = fst (process_setup benv sm op setup)"

text \<open>
  The cached ids of an operator are a prefix of the ids of that operator's chain.
\<close>

definition txids_of_chain ::
    "bridge_env \<Rightarrow> operator_table \<Rightarrow> stake_chain_params \<Rightarrow> stake_chain_inputs \<Rightarrow> (u32, txid) btree_map \<Rightarrow> bool" where
  "txids_of_chain benv t params ci txids \<longleftrightarrow>
     (\<forall>n id. bt_get txids n = Some id \<longrightarrow>
        (n \<noteq> 0 \<longrightarrow> bt_get txids (n - 1) \<noteq> None) \<and>
        (\<exists>ctx st. build_context_of benv t = Some ctx \<and>
          stake_tx_at (graph_lib benv) ctx params ci (unat n) = Ok (Some st) \<and>
          id = stake_txid_of (graph_lib benv) st))"

definition scsm_inv :: "bridge_env \<Rightarrow> stake_chain_sm \<Rightarrow> bool" where
  "scsm_inv benv sm \<longleftrightarrow>
     (\<forall>op txids. bt_get (stake_txids sm) op = Some txids \<longrightarrow>
        (\<exists>ci. bt_get (stake_chains sm) op = Some ci \<and>
          txids_of_chain benv (scsm_operator_table sm) (scsm_params sm) ci txids))"

section \<open>Building the chain at once\<close>

lemma tx_build_context_eq: "tx_build_context benv t = expect (build_context_of benv t)"
  by (cases "key_agg_new benv (bt_values (public_key_table t))")
     (simp_all add: tx_build_context_def get_aggregated_pubkey_def build_context_of_def)

lemma unat_minus_one_u32: "n \<noteq> 0 \<Longrightarrow> unat n = Suc (unat (n - 1 :: u32))"
  by (simp add: unat_minus_one unat_gt_0)

lemma bt_len_u32: "bt_len (m :: (u32, 'v) btree_map) \<le> 2 ^ 32"
  using bt.len_le_if_keys_subset [of "UNIV :: u32 set" m] card_word [where 'a = 32] by simp

lemma stake_tx_at_0_iff:
  "stake_tx_at env ctx params ci 0 = Ok (Some st) \<longleftrightarrow>
     (\<exists>data. bt_get (stake_inputs ci) 0 = Some data \<and>
        stake_head_new env ctx params (sd_hash data) (sd_withdrawal_fulfillment_pk data)
          (pre_stake_outpoint ci) (operator_funds data) (sd_operator_pubkey data) = Ok st)"
  by (auto simp: outcome_simps split: option.splits)

lemma stake_tx_at_Suc_iff:
  "stake_tx_at env ctx params ci (Suc n) = Ok (Some st) \<longleftrightarrow>
     (\<exists>prev data. stake_tx_at env ctx params ci n = Ok (Some prev) \<and>
        bt_get (stake_inputs ci) (of_nat (Suc n)) = Some data \<and> stake_tx_advance env ctx params prev data = Ok st)"
  by (cases "stake_tx_at env ctx params ci n"; cases "bt_get (stake_inputs ci) (of_nat (Suc n))")
     (auto simp: outcome_simps simp del: of_nat_Suc split: option.splits)

lemma stake_hash_of_new:
  "stake_head_new env ctx params hash pk pre funds key = Ok st \<Longrightarrow> st_hash st = hash"
  "stake_tail_new env ctx params data prev_hash prev = Ok st \<Longrightarrow> st_hash st = sd_hash data"
  "stake_tx_advance env ctx params prev_tx data = Ok st \<Longrightarrow> st_hash st = sd_hash data"
  by (auto simp: stake_head_new_def stake_tail_new_def stake_tx_advance_def Let_def outcome_simps)

declare stake_tx_at.simps(2) [simp del]

lemma stake_tx_at_hash:
  assumes "stake_tx_at env ctx params ci n = Ok (Some st)"
  shows "\<exists>data. bt_get (stake_inputs ci) (of_nat n) = Some data \<and> st_hash st = sd_hash data"
  using assms
  by (cases n) (auto simp: stake_tx_at_0_iff stake_tx_at_Suc_iff stake_hash_of_new simp del: stake_tx_at.simps of_nat_Suc)

lemma stake_tx_at_cong:
  assumes "\<And>i. i \<le> n \<Longrightarrow> bt_get (stake_inputs ci) (of_nat i) = bt_get (stake_inputs ci') (of_nat i)"
    and "pre_stake_outpoint ci = pre_stake_outpoint ci'"
  shows "stake_tx_at env ctx params ci n = stake_tx_at env ctx params ci' n"
  using assms(1)
proof (induction n)
  case 0
  show ?case using 0 [of 0] assms(2) by (simp split: option.split)
next
  case (Suc n)
  have "stake_tx_at env ctx params ci n = stake_tx_at env ctx params ci' n" using Suc by simp
  then show ?case using Suc.prems [of "Suc n"] by (simp add: stake_tx_at.simps(2) del: of_nat_Suc)
qed

text \<open>The loop extends a correct prefix to the first missing input.\<close>

definition chain_prefix ::
    "graph_env \<Rightarrow> build_context \<Rightarrow> stake_chain_params \<Rightarrow> stake_chain_inputs \<Rightarrow> stake_tx list \<Rightarrow> bool" where
  "chain_prefix env ctx params ci sts \<longleftrightarrow>
     (\<forall>i < length sts. stake_tx_at env ctx params ci i = Ok (Some (sts ! i)))"

lemma chain_prefix_snoc:
  assumes "chain_prefix env ctx params ci sts" and "stake_tx_at env ctx params ci (length sts) = Ok (Some st)"
  shows "chain_prefix env ctx params ci (sts @ [st])"
  using assms by (auto simp: chain_prefix_def nth_append less_Suc_eq)

lemma extend_tail_spec:
  assumes "extend_tail env ctx params (stake_inputs ci) [Suc (length tail)..<n] tail = Ok tail'"
    and "tail \<noteq> []" and "length tail < n" and "chain_prefix env ctx params ci (h # tail)"
  shows "chain_prefix env ctx params ci (h # tail') \<and>
         (length (h # tail') = n \<or>
          length (h # tail') < n \<and> bt_get (stake_inputs ci) (of_nat (length (h # tail'))) = None)"
  using assms
proof (induction "n - length tail" arbitrary: tail)
  case (Suc d)
  let ?k = "Suc (length tail)"
  show ?case
  proof (cases "?k < n")
    case False
    then show ?thesis using Suc.prems by auto
  next
    case True
    then have upt: "[?k..<n] = ?k # [Suc ?k..<n]" by (simp add: upt_rec)
    show ?thesis
    proof (cases "bt_get (stake_inputs ci) (of_nat ?k)")
      case None
      then have "tail' = tail" using Suc.prems(1) by (simp add: upt del: upt_Suc of_nat_Suc)
      then show ?thesis using Suc.prems(4) None True by simp
    next
      case (Some data)
      then obtain st where adv: "stake_tx_advance env ctx params (last tail) data = Ok st"
        and rest: "extend_tail env ctx params (stake_inputs ci) [Suc ?k..<n] (tail @ [st]) = Ok tail'"
        using Suc.prems(1,2) by (auto simp: upt outcome_simps simp del: upt_Suc of_nat_Suc)
      have "stake_tx_at env ctx params ci (length tail) = Ok (Some (last tail))"
        using Suc.prems(2,4) by (auto simp: chain_prefix_def last_conv_nth nth_Cons' dest!: spec [of _ "length tail"])
      then have "stake_tx_at env ctx params ci (length (h # tail)) = Ok (Some st)"
        using Some adv by (simp add: stake_tx_at_Suc_iff del: of_nat_Suc)
      from chain_prefix_snoc [OF Suc.prems(4) this] show ?thesis
        using Suc.hyps(1) [of "tail @ [st]"] rest True Suc.hyps(2) by simp
    qed
  qed
qed simp

lemma bt_len_eq_next_None:
  fixes m :: "(u32, 'v) btree_map"
  assumes "\<And>i. i < bt_len m \<Longrightarrow> bt_get m (of_nat i) \<noteq> None" and "bt_len m < 2 ^ 32"
  shows "bt_get m (of_nat (bt_len m)) = None"
proof (rule ccontr)
  let ?S = "of_nat ` {..bt_len m} :: u32 set"
  assume nxt: "bt_get m (of_nat (bt_len m)) \<noteq> None"
  have "?S \<subseteq> {k. bt_get m k \<noteq> None}"
  proof
    fix k assume "k \<in> ?S"
    then obtain i where "k = of_nat i" "i \<le> bt_len m" by auto
    then show "k \<in> {k. bt_get m k \<noteq> None}" using assms(1) [of i] nxt by (cases "i = bt_len m") auto
  qed
  from card_mono [OF bt.finite_dom this] have "card ?S \<le> bt_len m" by (simp add: bt.len_card)
  moreover have "inj_on (of_nat :: nat \<Rightarrow> u32) {..bt_len m}"
    using assms(2) by (intro inj_onI) (simp add: word_of_nat_eq_iff take_bit_eq_mod)
  ultimately show False by (simp add: card_image)
qed

text \<open>
  \<open>StakeTx::advance\<close>, which repeats the body of the constructor of a tail transaction, is that
  constructor applied to the hash and the stake output of the current transaction.
\<close>

lemma stake_tx_advance_new:
  "stake_tx_advance env ctx params st data =
     stake_tail_new env ctx params data (st_hash st) \<lparr>op_txid = stake_txid_of env st, op_vout = STAKE_VOUT\<rparr>"
  by (simp add: stake_tx_advance_def stake_tail_new_def Let_def)

lemma chain_len_list: "stake_chain_len c = length (chain_list c)"
  by (simp add: stake_chain_len_def chain_list_def split: option.splits)

lemma extend_tail_ok:
  assumes "graph_env_ok env" and "tail \<noteq> []"
  shows "\<exists>tail'. extend_tail env ctx params inputs is tail = Ok tail'"
  using assms(2)
proof (induction "is" arbitrary: tail)
  case (Cons i "is")
  show ?case
  proof (cases "bt_get inputs (of_nat i)")
    case (Some data)
    obtain st where "stake_tx_advance env ctx params (last tail) data = Ok st"
      using stake_tail_new_ok [OF assms(1)] unfolding stake_tx_advance_new by blast
    then show ?thesis using Some Cons by simp
  qed simp
qed simp

lemma stake_chain_new_ok:
  assumes "graph_env_ok env"
  shows "\<exists>c. stake_chain_new env ctx ci params = Ok c"
proof (cases "bt_get (stake_inputs ci) 0")
  case (Some first)
  then obtain h where h: "stake_head_new env ctx params (sd_hash first) (sd_withdrawal_fulfillment_pk first)
      (pre_stake_outpoint ci) (operator_funds first) (sd_operator_pubkey first) = Ok h"
    using stake_head_new_ok [OF assms] by blast
  show ?thesis
  proof (cases "bt_get (stake_inputs ci) 1")
    case (Some d)
    obtain st where "stake_tx_advance env ctx params h d = Ok st"
      using stake_tail_new_ok [OF assms] unfolding stake_tx_advance_new by blast
    moreover obtain tail where "extend_tail env ctx params (stake_inputs ci)
        (drop 2 [0..<bt_len (stake_inputs ci)]) [st] = Ok tail"
      using extend_tail_ok [OF assms] by blast
    ultimately show ?thesis using \<open>bt_get _ 0 = _\<close> h Some by (simp add: stake_chain_new_def)
  qed (use Some h in \<open>simp add: stake_chain_new_def\<close>)
qed (simp add: stake_chain_new_def)

lemma two_keys_len:
  fixes m :: "(u32, 'v) btree_map"
  assumes "bt_get m 0 = Some a" and "bt_get m 1 = Some b"
  shows "1 < bt_len m"
proof -
  have "card {0 :: u32, 1} \<le> bt_len m"
    unfolding bt.len_card using assms by (intro card_mono bt.finite_dom) auto
  then show ?thesis by simp
qed

lemma chain_prefix_inputs:
  "chain_prefix env ctx params ci sts \<Longrightarrow> i < length sts \<Longrightarrow> bt_get (stake_inputs ci) (of_nat i) \<noteq> None"
  unfolding chain_prefix_def using stake_tx_at_hash by fastforce

lemma stake_chain_new_prefix:
  assumes "stake_chain_new env ctx ci params = Ok c"
  shows "chain_prefix env ctx params ci (chain_list c) \<and>
         (length (chain_list c) < 2 ^ 32 \<longrightarrow>
            bt_get (stake_inputs ci) (of_nat (length (chain_list c))) = None)"
proof (cases "sc_head c")
  case None
  then show ?thesis
    using assms by (auto simp: stake_chain_new_def Let_def outcome_simps chain_list_def chain_prefix_def split: option.splits)
next
  case (Some h)
  let ?inputs = "stake_inputs ci"
  from Some assms have at0: "stake_tx_at env ctx params ci 0 = Ok (Some h)"
    by (auto simp: stake_chain_new_def Let_def outcome_simps split: option.splits)
  show ?thesis
  proof (cases "bt_get ?inputs 1")
    case None
    then show ?thesis using assms Some at0
      by (auto simp: stake_chain_new_def Let_def outcome_simps chain_list_def chain_prefix_def split: option.splits)
  next
    case next_input: (Some d)
    then obtain st a where st: "stake_tx_advance env ctx params h d = Ok st" "bt_get ?inputs 0 = Some a"
      and tail: "extend_tail env ctx params ?inputs [Suc (Suc 0)..<bt_len ?inputs] [st] = Ok (sc_tail c)"
      using assms Some by (auto simp: stake_chain_new_def Let_def outcome_simps split: option.splits)
    have "chain_prefix env ctx params ci [h, st]"
      using chain_prefix_snoc [of env ctx params ci "[h]" st] at0 st(1) next_input
      by (simp add: chain_prefix_def stake_tx_at_Suc_iff)
    with extend_tail_spec [of env ctx params ci "[st]" "bt_len ?inputs" "sc_tail c" h] tail
      two_keys_len [OF st(2) next_input]
    have spec: "chain_prefix env ctx params ci (chain_list c)"
      "length (chain_list c) = bt_len ?inputs \<or> bt_get ?inputs (of_nat (length (chain_list c))) = None"
      by (auto simp: chain_list_def Some)
    then show ?thesis
      using bt_len_eq_next_None [of ?inputs] chain_prefix_inputs [OF spec(1)] by auto
  qed
qed

text \<open>
  \<open>StakeChain::new\<close> never fails and builds the chain up to the first missing input: it holds at
  each position the transaction of the reference, and stops only where the next input is missing.
\<close>

theorem stake_chain_new_spec:
  assumes "graph_env_ok env"
  shows "\<exists>c. stake_chain_new env ctx ci params = Ok c \<and>
     (\<forall>i < stake_chain_len c. stake_tx_at env ctx params ci i = Ok (Some (chain_list c ! i))) \<and>
     (stake_chain_len c < 2 ^ 32 \<longrightarrow> bt_get (stake_inputs ci) (of_nat (stake_chain_len c)) = None)"
proof -
  obtain c where c: "stake_chain_new env ctx ci params = Ok c" using stake_chain_new_ok [OF assms] by blast
  show ?thesis
    using stake_chain_new_prefix [OF c] c unfolding chain_len_list chain_prefix_def by blast
qed

definition example_stake_data :: "256 word \<Rightarrow> stake_tx_data" where
  "example_stake_data n =
     \<lparr>operator_funds = \<lparr>op_txid = n, op_vout = 0\<rparr>, sd_hash = n + 10, sd_withdrawal_fulfillment_pk = [],
      sd_operator_pubkey = 4\<rparr>"

definition example_chain_inputs :: stake_chain_inputs where
  "example_chain_inputs =
     \<lparr>stake_inputs = bt_insert 1 (example_stake_data 1) (bt_insert 0 (example_stake_data 0) bt_empty),
      pre_stake_outpoint = \<lparr>op_txid = 99, op_vout = 0\<rparr>\<rparr>"

lemma example_chain_input_at:
  "bt_get (stake_inputs example_chain_inputs) 0 = Some (example_stake_data 0)"
  "bt_get (stake_inputs example_chain_inputs) 1 = Some (example_stake_data 1)"
  "bt_get (stake_inputs example_chain_inputs) 2 = None"
  by (simp_all add: example_chain_inputs_def bt.get_insert bt.get_empty)

lemma example_chain_stop:
  assumes "n < 2 ^ 32 \<longrightarrow> bt_get (stake_inputs example_chain_inputs) (of_nat n) = None"
  shows "1 < n"
  using assms by (cases "n = 0"; cases "n = 1") (auto simp: example_chain_input_at)

theorem stake_chain_new_spec_witness:
  "\<exists>c. stake_chain_new example_env example_ctx example_chain_inputs example_stake_params = Ok c \<and>
     stake_chain_len c = 2"
proof -
  let ?ci = example_chain_inputs
  obtain c where c: "stake_chain_new example_env example_ctx ?ci example_stake_params = Ok c"
    and at: "\<forall>i < stake_chain_len c. stake_tx_at example_env example_ctx example_stake_params ?ci i =
        Ok (Some (chain_list c ! i))"
    and stop: "stake_chain_len c < 2 ^ 32 \<longrightarrow> bt_get (stake_inputs ?ci) (of_nat (stake_chain_len c)) = None"
    using stake_chain_new_spec [OF example_env_ok, of example_ctx ?ci example_stake_params] by auto
  have "\<not> 2 < stake_chain_len c"
  proof
    assume "2 < stake_chain_len c"
    with at have "stake_tx_at example_env example_ctx example_stake_params ?ci 2 = Ok (Some (chain_list c ! 2))" by blast
    from stake_tx_at_hash [OF this] show False by (simp add: example_chain_input_at)
  qed
  moreover have "1 < stake_chain_len c" using stop by (rule example_chain_stop)
  ultimately have "stake_chain_len c = 2" by linarith
  with c show ?thesis by blast
qed

text \<open>
  (C23) Continuity of the stake: in a chain the stake input of each transaction is the stake output of
  the one before, with the script and the value to which the signature commits, provided that the
  operator keeps the same key; every stake output carries the same amount.
\<close>

theorem stake_chain_continuous:
  assumes "stake_chain_new env ctx ci params = Ok c" and "dust_ok env" and "Suc i < stake_chain_len c"
    and "bt_get (stake_inputs ci) (of_nat i) = Some prev" and "bt_get (stake_inputs ci) (of_nat (Suc i)) = Some data"
    and "sd_operator_pubkey prev = sd_operator_pubkey data"
  shows "links_to env (st_psbt (chain_list c ! Suc i)) 1 (unsigned_tx (st_psbt (chain_list c ! i))) 2 \<and>
         txout_value (tx_output (unsigned_tx (st_psbt (chain_list c ! i))) ! 2) = stake_amount params"
proof -
  let ?st = "chain_list c ! i" and ?st' = "chain_list c ! Suc i"
  have at: "stake_tx_at env ctx params ci i = Ok (Some ?st)"
    "stake_tx_at env ctx params ci (Suc i) = Ok (Some ?st')"
    using stake_chain_new_prefix [OF assms(1)] assms(3) unfolding chain_len_list chain_prefix_def by auto
  then have new: "stake_tail_new env ctx params data (st_hash ?st)
      \<lparr>op_txid = stake_txid_of env ?st, op_vout = STAKE_VOUT\<rparr> = Ok ?st'"
    using assms(5) by (auto simp: stake_tx_at_Suc_iff stake_tx_advance_new simp del: of_nat_Suc)
  have hash: "st_hash ?st = sd_hash prev" using stake_tx_at_hash [OF at(1)] assms(4) by simp
  have "stake_tx_made env ctx params prev ?st"
    using at(1) assms(4) unfolding stake_tx_made_def
    by (cases i) (auto simp: stake_tx_at_0_iff stake_tx_at_Suc_iff stake_tx_advance_new
        simp del: stake_tx_at.simps of_nat_Suc)
  from stake_tx_made_outs [OF this assms(2)] obtain k_out p_out s_out where
    "connector_stake_address env (stake_connector_of ctx params (sd_operator_pubkey prev) (sd_hash prev)) = Ok s_out"
    "tx_output (unsigned_tx (st_psbt ?st)) = create_tx_outs [(k_out, funding_amount), (p_out, 330),
          (s_out, stake_amount params), (connector_cpfp_script (sd_operator_pubkey prev), 330)]"
    unfolding stake_outs_def by blast
  note outs = this
  show ?thesis
  proof (rule stake_tail_newD [OF new assms(2)], goal_cases)
    case (1 prev_out)
    then show ?case
      using outs hash assms(6) nth_previous_output [OF 1(3), of 1]
      by (simp add: links_to_def stake_vout_defs stake_txid_of_def create_tx_outs_def)
  qed
qed

lemma example_chain:
  obtains c where "stake_chain_new example_env example_ctx example_chain_inputs example_stake_params = Ok c"
    and "1 < stake_chain_len c"
proof -
  obtain c where c: "stake_chain_new example_env example_ctx example_chain_inputs example_stake_params = Ok c"
    using stake_chain_new_ok [OF example_env_ok] by blast
  have "1 < stake_chain_len c"
    using stake_chain_new_prefix [OF c] unfolding chain_len_list by (intro example_chain_stop) blast
  then show ?thesis using c that by simp
qed

theorem stake_chain_continuous_witness:
  "\<exists>c. stake_chain_new example_env example_ctx example_chain_inputs example_stake_params = Ok c \<and>
     links_to example_env (st_psbt (chain_list c ! 1)) 1 (unsigned_tx (st_psbt (chain_list c ! 0))) 2"
proof -
  obtain c where c: "stake_chain_new example_env example_ctx example_chain_inputs example_stake_params = Ok c"
    "1 < stake_chain_len c" by (rule example_chain)
  then show ?thesis
    using stake_chain_continuous [OF c(1) example_dust_ok, of 0 "example_stake_data 0" "example_stake_data 1"]
    by (auto simp: example_chain_input_at example_stake_data_def)
qed

section \<open>The state machine\<close>

lemma bt_values_0:
  fixes m :: "(u32, 'v) btree_map"
  assumes "bt_get m 0 = Some v"
  shows "list_get (bt_values m) 0 = Some v"
proof -
  have "0 \<in> set (bt_keys m)" using assms by (simp add: bt_keys_get)
  then obtain ks where "bt_keys m = 0 # ks"
    using bt_keys_sorted [of m] by (cases "bt_keys m") auto
  then show ?thesis using assms by (simp add: bt_values_map_keys)
qed

text \<open>A cached index has all the smaller ones cached.\<close>

lemma txids_downward:
  assumes "txids_of_chain benv t params ci txids" and "bt_get txids n \<noteq> None" and "m \<le> n"
  shows "bt_get txids m \<noteq> None"
  using assms(2,3)
proof (induction "unat n" arbitrary: n)
  case 0
  then show ?case by (simp add: unat_eq_0)
next
  case (Suc k)
  then have n: "n \<noteq> 0" by auto
  show ?case
  proof (cases "m = n")
    case False
    then have "m \<le> n - 1"
      using Suc.prems(2) n unat_minus_one_u32 [OF n] by (auto simp: word_le_nat_alt word_unat_eq_iff)
    moreover have "bt_get txids (n - 1) \<noteq> None" using assms(1) Suc.prems(1) n unfolding txids_of_chain_def by blast
    ultimately show ?thesis using Suc.hyps unat_minus_one_u32 [OF n] by simp
  qed (use Suc in simp)
qed

lemma txids_of_chain_update:
  assumes "txids_of_chain benv t params ci txids" and "bt_get txids idx = None"
  shows "txids_of_chain benv t params (ci\<lparr>stake_inputs := bt_insert idx data (stake_inputs ci)\<rparr>) txids"
proof -
  have "stake_tx_at env ctx params (ci\<lparr>stake_inputs := bt_insert idx data (stake_inputs ci)\<rparr>) (unat n) =
        stake_tx_at env ctx params ci (unat n)" if "bt_get txids n \<noteq> None" for n env ctx
  proof (rule stake_tx_at_cong)
    fix i assume "i \<le> unat n"
    then have "(of_nat i :: u32) \<le> n" by (simp add: word_le_nat_alt unat_of_nat)
    from txids_downward [OF assms(1) that this] have "of_nat i \<noteq> idx" using assms(2) by auto
    then show "bt_get (stake_inputs (ci\<lparr>stake_inputs := bt_insert idx data (stake_inputs ci)\<rparr>)) (of_nat i) =
        bt_get (stake_inputs ci) (of_nat i)" by (simp add: bt.get_insert)
  qed simp
  then show ?thesis using assms(1) unfolding txids_of_chain_def by (metis option.distinct(1))
qed

text \<open>The transaction the machine makes for an index is that of the reference.\<close>

lemma sm_stake_tx_at:
  assumes "sm_stake_tx benv sm op n = Ok (Some kind)" and "bt_get (stake_chains sm) op = Some ci"
    and "bt_get (stake_inputs ci) n \<noteq> None"
    and "\<And>txids. bt_get (stake_txids sm) op = Some txids \<Longrightarrow>
           txids_of_chain benv (scsm_operator_table sm) (scsm_params sm) ci txids"
  shows "\<exists>ctx st. build_context_of benv (scsm_operator_table sm) = Some ctx \<and>
           stake_tx_at (graph_lib benv) ctx (scsm_params sm) ci (unat n) = Ok (Some st) \<and>
           stake_tx_kind_txid (graph_lib benv) kind = stake_txid_of (graph_lib benv) st \<and>
           (n \<noteq> 0 \<longrightarrow> (\<exists>txids. bt_get (stake_txids sm) op = Some txids \<and> bt_get txids (n - 1) \<noteq> None))"
proof (cases "n = 0")
  case True
  obtain first where "bt_get (stake_inputs ci) 0 = Some first" using assms(3) True by auto
  then show ?thesis
    using assms(1,2) bt_values_0 [of "stake_inputs ci" first] True
    by (auto simp: sm_stake_tx_def tx_build_context_eq outcome_simps)
next
  case False
  let ?env = "graph_lib benv"
  obtain ctx txids prev_txid prev_input data st where
    ctx: "build_context_of benv (scsm_operator_table sm) = Some ctx"
    and txids: "bt_get (stake_txids sm) op = Some txids" "bt_get txids (n - 1) = Some prev_txid"
    and inputs: "bt_get (stake_inputs ci) (n - 1) = Some prev_input" "bt_get (stake_inputs ci) n = Some data"
    and st: "stake_tail_new ?env ctx (scsm_params sm) data (sd_hash prev_input)
        \<lparr>op_txid = prev_txid, op_vout = STAKE_VOUT\<rparr> = Ok st" "kind = StakeTail st"
    using assms(1,2) False by (auto simp: sm_stake_tx_def tx_build_context_eq outcome_simps)
  from assms(4) [OF txids(1)] txids(2) ctx obtain prev where
    prev: "stake_tx_at ?env ctx (scsm_params sm) ci (unat (n - 1)) = Ok (Some prev)"
      "prev_txid = stake_txid_of ?env prev"
    unfolding txids_of_chain_def by fastforce
  from stake_tx_at_hash [OF prev(1)] inputs(1) have "st_hash prev = sd_hash prev_input" by simp
  moreover have "of_nat (Suc (unat (n - 1))) = n" unfolding unat_minus_one_u32 [OF False, symmetric] by simp
  ultimately have "stake_tx_at ?env ctx (scsm_params sm) ci (Suc (unat (n - 1))) = Ok (Some st)"
    using prev st(1) inputs(2)
    by (auto simp: stake_tx_at_Suc_iff stake_tx_advance_new simp del: of_nat_Suc)
  then show ?thesis using ctx st(2) txids unat_minus_one_u32 [OF False] by auto
qed

text \<open>The input is stored first; everything else of a setup works on this state.\<close>

definition with_input :: "stake_chain_sm \<Rightarrow> p2p_key \<Rightarrow> stake_chain_inputs \<Rightarrow> deposit_setup \<Rightarrow> stake_chain_sm" where
  "with_input sm op ci setup = sm\<lparr>stake_chains := bt_insert op
     (ci\<lparr>stake_inputs := bt_insert (setup_index setup) (setup_stake_tx_data setup) (stake_inputs ci)\<rparr>)
     (stake_chains sm)\<rparr>"

lemma with_input_inv:
  assumes "scsm_inv benv sm" and "bt_get (stake_chains sm) op = Some ci"
    and "sm_stake_txid sm op (setup_index setup) = None"
  shows "scsm_inv benv (with_input sm op ci setup)"
  unfolding scsm_inv_def
proof (intro allI impI)
  fix op' txids assume txids: "bt_get (stake_txids (with_input sm op ci setup)) op' = Some txids"
  then obtain ci' where ci': "bt_get (stake_chains sm) op' = Some ci'"
    "txids_of_chain benv (scsm_operator_table sm) (scsm_params sm) ci' txids"
    using assms(1) by (auto simp: scsm_inv_def with_input_def)
  show "\<exists>ci''. bt_get (stake_chains (with_input sm op ci setup)) op' = Some ci'' \<and>
      txids_of_chain benv (scsm_operator_table (with_input sm op ci setup))
        (scsm_params (with_input sm op ci setup)) ci'' txids"
  proof (cases "op' = op")
    case True
    then have "bt_get txids (setup_index setup) = None"
      using assms(3) txids by (simp add: sm_stake_txid_def with_input_def)
    then show ?thesis using ci' assms(2) True txids_of_chain_update by (simp add: with_input_def bt.get_insert)
  qed (use ci' in \<open>simp add: with_input_def bt.get_insert\<close>)
qed

lemma txids_of_chain_insert:
  assumes "txids_of_chain benv t params ci txids"
    and "build_context_of benv t = Some ctx" "stake_tx_at (graph_lib benv) ctx params ci (unat n) = Ok (Some st)"
    and "n \<noteq> 0 \<longrightarrow> bt_get txids (n - 1) \<noteq> None"
  shows "txids_of_chain benv t params ci (bt_insert n (stake_txid_of (graph_lib benv) st) txids)"
  using assms unfolding txids_of_chain_def by (auto simp: bt.get_insert)

lemma process_setup_eq:
  assumes "sm_stake_txid sm op (setup_index setup) = None" and "bt_get (stake_chains sm) op = Some ci"
  shows "process_setup benv sm op setup =
     (case sm_stake_tx benv (with_input sm op ci setup) op (setup_index setup) of
        Err e \<Rightarrow> (with_input sm op ci setup, Err e)
      | Panic \<Rightarrow> (with_input sm op ci setup, Panic)
      | Ok None \<Rightarrow> (with_input sm op ci setup, Ok None)
      | Ok (Some st) \<Rightarrow>
          let txid = stake_tx_kind_txid (graph_lib benv) st;
              txids = (case bt_get (stake_txids (with_input sm op ci setup)) op of Some m \<Rightarrow> m | None \<Rightarrow> bt_empty) in
          ((with_input sm op ci setup)\<lparr>stake_txids := bt_insert op (bt_insert (setup_index setup) txid txids)
             (stake_txids (with_input sm op ci setup))\<rparr>, Ok (Some txid)))"
  unfolding process_setup_def with_input_def Let_def assms option.case ..

lemma process_setup_inv:
  assumes "scsm_inv benv sm"
  shows "scsm_inv benv (fst (process_setup benv sm op setup))"
proof (cases "sm_stake_txid sm op (setup_index setup) = None \<and> bt_get (stake_chains sm) op \<noteq> None")
  case False
  then show ?thesis using assms by (auto simp: process_setup_def Let_def split: option.splits)
next
  case True
  then obtain ci where ci: "bt_get (stake_chains sm) op = Some ci" by auto
  let ?sm = "with_input sm op ci setup" and ?n = "setup_index setup"
  let ?ci = "ci\<lparr>stake_inputs := bt_insert ?n (setup_stake_tx_data setup) (stake_inputs ci)\<rparr>"
  have inv: "scsm_inv benv ?sm" using with_input_inv [OF assms ci] True by simp
  have get: "bt_get (stake_chains ?sm) op = Some ?ci" "bt_get (stake_inputs ?ci) ?n \<noteq> None"
    by (simp_all add: with_input_def bt.get_insert)
  have chain: "txids_of_chain benv (scsm_operator_table ?sm) (scsm_params ?sm) ?ci txids"
    if "bt_get (stake_txids ?sm) op = Some txids" for txids
    using inv that get(1) unfolding scsm_inv_def by (metis option.inject)
  note eq = process_setup_eq [OF conjunct1 [OF True] ci]
  show ?thesis
  proof (cases "\<exists>kind. sm_stake_tx benv ?sm op ?n = Ok (Some kind)")
    case False
    then show ?thesis using inv by (auto simp: eq split: outcome.splits option.splits)
  next
    case True
    then obtain kind where kind: "sm_stake_tx benv ?sm op ?n = Ok (Some kind)" by blast
    note made = sm_stake_tx_at [OF kind get chain]
    have "txids_of_chain benv (scsm_operator_table ?sm) (scsm_params ?sm) ?ci bt_empty"
      by (simp add: txids_of_chain_def bt.get_empty)
    then show ?thesis
      using made inv chain get(1) by (auto simp: eq kind Let_def scsm_inv_def bt.get_insert bt.get_empty
          txids_of_chain_insert split: option.splits)
  qed
qed

lemma process_exchange_inv:
  assumes "scsm_inv benv sm"
  shows "scsm_inv benv (process_exchange sm op pre)"
  using assms unfolding scsm_inv_def
  by (fastforce simp: process_exchange_def Let_def bt.get_insert split: option.splits)

interpretation scsm: invariant_machine
  "\<lambda>sm. sm = stake_chain_sm_new t params" "scsm_step benv" "scsm_inv benv" for t params benv
proof unfold_locales
  show "sm = stake_chain_sm_new t params \<Longrightarrow> scsm_inv benv sm" for sm
    by (simp add: scsm_inv_def stake_chain_sm_new_def bt.get_empty)
  show "scsm_inv benv sm \<Longrightarrow> scsm_inv benv (scsm_step benv sm e)" for sm e
    by (cases e) (simp_all add: process_setup_inv process_exchange_inv)
qed

end
