(* ===== verification/Stake_Runs.thy ===== *)
theory Stake_Runs
  imports Stake_Machine
begin

text \<open>
  The runs of the stake chain state machine: what its cache says of the chains, what messages in and out
  of order do, and what a restart from the saved inputs restores.
\<close>

section \<open>The cache and the chain\<close>

lemma stake_tx_at_inputs:
  assumes "stake_tx_at env ctx params ci n = Ok (Some st)" and "i \<le> n"
  shows "bt_get (stake_inputs ci) (of_nat i) \<noteq> None"
  using assms
proof (induction n arbitrary: st)
  case (Suc n)
  then show ?case
    by (cases "i = Suc n") (auto simp: stake_tx_at_Suc_iff simp del: of_nat_Suc)
qed (auto simp: stake_tx_at_0_iff simp del: stake_tx_at.simps)

lemma stake_chain_new_at:
  assumes "stake_chain_new env ctx ci params = Ok c" and "stake_tx_at env ctx params ci (unat (n :: u32)) = Ok (Some st)"
  shows "unat n < stake_chain_len c \<and> chain_list c ! unat n = st"
proof -
  note spec = stake_chain_new_prefix [OF assms(1)]
  have "unat n < stake_chain_len c"
  proof (rule ccontr)
    assume "\<not> unat n < stake_chain_len c"
    then have "length (chain_list c) \<le> unat n" by (simp add: chain_len_list)
    moreover have "unat n < 2 ^ 32" by (rule order_less_le_trans [OF unsigned_less]) simp
    ultimately show False using stake_tx_at_inputs [OF assms(2)] spec by (meson le_less_trans)
  qed
  then show ?thesis using spec assms(2) by (auto simp: chain_len_list chain_prefix_def)
qed

text \<open>
  (C22) Whatever messages were processed, the transaction id cached for an operator and a deposit index
  is the id of the transaction at that index in the chain that \<open>StakeChain::new\<close> builds from the inputs
  stored for that operator: the chain made one message at a time refines the chain made at once.
\<close>

theorem stake_machine_refines_chain:
  assumes "graph_env_ok (graph_lib benv)" and "sm = foldl (scsm_step benv) (stake_chain_sm_new t params) es"
    and "sm_stake_txid sm op n = Some txid"
  shows "\<exists>ci ctx c. bt_get (stake_chains sm) op = Some ci \<and>
     build_context_of benv (scsm_operator_table sm) = Some ctx \<and>
     stake_chain_new (graph_lib benv) ctx ci (scsm_params sm) = Ok c \<and>
     unat n < stake_chain_len c \<and> txid = stake_txid_of (graph_lib benv) (chain_list c ! unat n)"
proof -
  have "scsm_inv benv sm" unfolding assms(2) by (rule scsm.inv_reachable [OF refl])
  then obtain ci ctx st where ci: "bt_get (stake_chains sm) op = Some ci"
    "build_context_of benv (scsm_operator_table sm) = Some ctx"
    and st: "stake_tx_at (graph_lib benv) ctx (scsm_params sm) ci (unat n) = Ok (Some st)"
    "txid = stake_txid_of (graph_lib benv) st"
    using assms(3) unfolding scsm_inv_def txids_of_chain_def sm_stake_txid_def
    by (fastforce simp: bind_eq_Some_conv)
  obtain c where c: "stake_chain_new (graph_lib benv) ctx ci (scsm_params sm) = Ok c"
    using stake_chain_new_ok [OF assms(1)] by blast
  show ?thesis using ci c st(2) stake_chain_new_at [OF c st(1)] by blast
qed

text \<open>An example: two operators, the first of which has exchanged its pre-stake.\<close>

definition example_sm :: stake_chain_sm where
  "example_sm = foldl (scsm_step example_bridge_env) (stake_chain_sm_new example_table example_stake_params)
     [StakeChainExchange [1] \<lparr>op_txid = 99, op_vout = 0\<rparr>]"

definition example_setup :: "u32 \<Rightarrow> deposit_setup" where
  "example_setup n = \<lparr>setup_index = n, setup_hash = 5, funding_outpoint = \<lparr>op_txid = 7, op_vout = 0\<rparr>,
     setup_operator_pk = 4, setup_wots_pks = wots_into_p2p example_wots\<rparr>"

lemma example_bridge_graph_ok: "graph_env_ok (graph_lib example_bridge_env)"
  using example_env_ok by (simp add: example_bridge_env_def)

lemma example_sm_eq:
  "example_sm = (stake_chain_sm_new example_table example_stake_params)\<lparr>stake_chains :=
     bt_insert [1] \<lparr>stake_inputs = bt_empty, pre_stake_outpoint = \<lparr>op_txid = 99, op_vout = 0\<rparr>\<rparr> bt_empty\<rparr>"
  by (simp add: example_sm_def process_exchange_def stake_chain_sm_new_def bt.get_empty)

lemma example_sm_facts:
  "\<exists>ctx. build_context_of example_bridge_env (scsm_operator_table example_sm) = Some ctx"
  "\<exists>ci. bt_get (stake_chains example_sm) [1] = Some ci" "bt_get (stake_txids example_sm) op = None"
  by (simp_all add: example_sm_eq stake_chain_sm_new_def build_context_of_def example_bridge_env_def bt.get_insert
      bt.get_empty)

section \<open>Messages in order and out of order\<close>

lemma process_setup_keeps:
  shows "scsm_operator_table (fst (process_setup benv sm op setup)) = scsm_operator_table sm"
    and "scsm_params (fst (process_setup benv sm op setup)) = scsm_params sm"
    and "bt_get (stake_chains sm) op' \<noteq> None \<Longrightarrow> bt_get (stake_chains (fst (process_setup benv sm op setup))) op' \<noteq> None"
    and "sm_stake_txid sm op' n = Some txid \<Longrightarrow> sm_stake_txid (fst (process_setup benv sm op setup)) op' n = Some txid"
proof -
  let ?sm' = "fst (process_setup benv sm op setup)"
  consider (same) "?sm' = sm" | (upd) ci where "bt_get (stake_chains sm) op = Some ci"
      "sm_stake_txid sm op (setup_index setup) = None"
    by (cases "sm_stake_txid sm op (setup_index setup)"; cases "bt_get (stake_chains sm) op")
       (auto simp: process_setup_def Let_def)
  note c = this
  show "scsm_operator_table ?sm' = scsm_operator_table sm"
    by (cases rule: c) (simp_all add: process_setup_eq with_input_def Let_def split: outcome.split option.split)
  show "scsm_params ?sm' = scsm_params sm"
    by (cases rule: c) (simp_all add: process_setup_eq with_input_def Let_def split: outcome.split option.split)
  show "bt_get (stake_chains ?sm') op' \<noteq> None" if "bt_get (stake_chains sm) op' \<noteq> None"
    by (cases rule: c)
       (use that in \<open>simp_all add: process_setup_eq with_input_def Let_def bt.get_insert split: outcome.split option.split\<close>)
  show "sm_stake_txid ?sm' op' n = Some txid" if "sm_stake_txid sm op' n = Some txid"
    by (cases rule: c)
       (use that in \<open>auto simp: process_setup_eq with_input_def Let_def sm_stake_txid_def bt.get_insert
          bind_eq_Some_conv split: outcome.split option.split\<close>)
qed

lemma process_setup_next:
  assumes "graph_env_ok (graph_lib benv)" and "scsm_inv benv sm"
    and "bt_get (stake_chains sm) op \<noteq> None" and "build_context_of benv (scsm_operator_table sm) = Some ctx"
    and "setup_index setup = 0 \<or> sm_stake_txid sm op (setup_index setup - 1) \<noteq> None"
  shows "\<exists>txid. snd (process_setup benv sm op setup) = Ok (Some txid) \<and>
           sm_stake_txid (fst (process_setup benv sm op setup)) op (setup_index setup) = Some txid"
proof (cases "sm_stake_txid sm op (setup_index setup)")
  case (Some txid)
  then show ?thesis by (simp add: process_setup_def)
next
  case None
  let ?n = "setup_index setup"
  obtain ci where ci: "bt_get (stake_chains sm) op = Some ci" using assms(3) by blast
  let ?sm = "with_input sm op ci setup"
  have "\<exists>kind. sm_stake_tx benv ?sm op ?n = Ok (Some kind)"
  proof (cases "?n = 0")
    case True
    then have "list_get (bt_values (bt_insert ?n (setup_stake_tx_data setup) (stake_inputs ci))) 0 =
        Some (setup_stake_tx_data setup)" by (intro bt_values_0) (simp add: bt.get_insert)
    then show ?thesis
      using True assms(4) stake_head_new_ok [OF assms(1)]
      by (auto simp: sm_stake_tx_def with_input_def bt.get_insert tx_build_context_eq outcome_simps)
  next
    case False
    then obtain txids prev where prev: "bt_get (stake_txids sm) op = Some txids" "bt_get txids (?n - 1) = Some prev"
      using assms(5) by (auto simp: sm_stake_txid_def bind_eq_Some_conv)
    then obtain st ctx' where "stake_tx_at (graph_lib benv) ctx' (scsm_params sm) ci (unat (?n - 1)) = Ok (Some st)"
      using assms(2) ci unfolding scsm_inv_def txids_of_chain_def by fastforce
    from stake_tx_at_hash [OF this] obtain d where "bt_get (stake_inputs ci) (?n - 1) = Some d" by auto
    moreover have "?n \<noteq> ?n - 1" by simp
    ultimately show ?thesis
      using prev False assms(4) stake_tail_new_ok [OF assms(1)]
      by (auto simp: sm_stake_tx_def with_input_def bt.get_insert tx_build_context_eq outcome_simps)
  qed
  then show ?thesis
    by (auto simp: process_setup_eq [OF None ci] Let_def sm_stake_txid_def bt.get_insert)
qed

lemma setups_in_order:
  assumes "graph_env_ok (graph_lib benv)" and "scsm_inv benv sm" and "bt_get (stake_chains sm) op \<noteq> None"
    and "build_context_of benv (scsm_operator_table sm) = Some ctx"
    and "\<forall>i < length setups. setup_index (setups ! i) = of_nat i"
  shows "let sm' = foldl (scsm_step benv) sm (map (DepositSetupMsg op) setups) in
         scsm_inv benv sm' \<and> scsm_operator_table sm' = scsm_operator_table sm \<and>
         bt_get (stake_chains sm') op \<noteq> None \<and> (\<forall>i < length setups. sm_stake_txid sm' op (of_nat i) \<noteq> None)"
  using assms(5)
proof (induction setups rule: rev_induct)
  case Nil
  then show ?case using assms by simp
next
  case (snoc s setups)
  let ?sm = "foldl (scsm_step benv) sm (map (DepositSetupMsg op) setups)"
  have "\<forall>i < length setups. setup_index (setups ! i) = of_nat i"
  proof (intro allI impI)
    fix i assume "i < length setups"
    then show "setup_index (setups ! i) = of_nat i" using snoc.prems [rule_format, of i] by (simp add: nth_append)
  qed
  from snoc.IH [OF this] have IH: "scsm_inv benv ?sm" "scsm_operator_table ?sm = scsm_operator_table sm"
    "bt_get (stake_chains ?sm) op \<noteq> None" "\<forall>i < length setups. sm_stake_txid ?sm op (of_nat i) \<noteq> None"
    by (simp_all add: Let_def)
  have idx: "setup_index s = of_nat (length setups)"
    using snoc.prems [rule_format, of "length setups"] by simp
  have "setup_index s = 0 \<or> sm_stake_txid ?sm op (setup_index s - 1) \<noteq> None"
    using IH(4) idx by (cases "length setups") auto
  then obtain txid where new: "sm_stake_txid (fst (process_setup benv ?sm op s)) op (setup_index s) = Some txid"
    using process_setup_next [OF assms(1) IH(1,3)] assms(4) IH(2) by metis
  have "sm_stake_txid (fst (process_setup benv ?sm op s)) op (of_nat i) \<noteq> None" if "i < Suc (length setups)" for i
  proof (cases "i = length setups")
    case False
    then have "i < length setups" using \<open>i < Suc _\<close> by simp
    then obtain t where "sm_stake_txid ?sm op (of_nat i) = Some t" using IH(4) by blast
    then show ?thesis using process_setup_keeps(4) by fastforce
  qed (use new idx in simp)
  then show ?case
    using IH process_setup_inv [OF IH(1)] process_setup_keeps(1,3) by (simp add: Let_def)
qed

text \<open>
  An operator whose pre-stake was exchanged makes progress: when setup messages arrive in the order
  of their indices, whatever was processed before, each of them ends with a cached stake transaction.
\<close>

theorem setup_messages_progress:
  assumes "graph_env_ok (graph_lib benv)" and "sm = foldl (scsm_step benv) (stake_chain_sm_new t params) es"
    and "bt_get (stake_chains sm) op \<noteq> None" and "build_context_of benv (scsm_operator_table sm) = Some ctx"
    and "\<forall>i < length setups. setup_index (setups ! i) = of_nat i"
  shows "\<forall>i < length setups.
           sm_stake_txid (foldl (scsm_step benv) sm (map (DepositSetupMsg op) setups)) op (of_nat i) \<noteq> None"
proof -
  have "scsm_inv benv sm" unfolding assms(2) by (rule scsm.inv_reachable [OF refl])
  from setups_in_order [OF assms(1) this assms(3-5)] show ?thesis by (simp add: Let_def)
qed

text \<open>
  A setup message that arrives before its predecessor is answered with an error, never with the
  \<open>Ok(None)\<close> that the code announces for this case; its input is stored nevertheless, and no transaction
  id is cached.
\<close>

theorem setup_out_of_order:
  assumes "build_context_of benv (scsm_operator_table sm) = Some ctx" and "setup_index setup = n" and "n \<noteq> 0"
    and "bt_get (stake_chains sm) op = Some ci"
    and "sm_stake_txid sm op n = None" and "sm_stake_txid sm op (n - 1) = None"
  shows "\<exists>e ci'. process_setup benv sm op setup = (sm\<lparr>stake_chains := bt_insert op ci' (stake_chains sm)\<rparr>, Err e) \<and>
           e \<in> {StakeTxNotFound op n, MissingStakeTxid op (n - 1)} \<and>
           bt_get (stake_inputs ci') n = Some (setup_stake_tx_data setup)"
proof -
  let ?sm = "with_input sm op ci setup"
  have "sm_stake_tx benv ?sm op n = Err (if bt_get (stake_txids sm) op = None
      then StakeTxNotFound op n else MissingStakeTxid op (n - 1))"
    using assms(1,3,6)
    by (cases "bt_get (stake_txids sm) op")
       (auto simp: sm_stake_tx_def with_input_def bt.get_insert tx_build_context_eq sm_stake_txid_def)
  then show ?thesis
    using process_setup_eq [of sm op "setup" ci benv] assms(2,4,5)
    by (auto simp: with_input_def bt.get_insert split: if_splits)
qed

lemma example_sm_inv: "scsm_inv example_bridge_env example_sm"
  unfolding example_sm_def by (rule scsm.inv_reachable [OF refl])

lemma example_run:
  "sm_stake_txid (foldl (scsm_step example_bridge_env) example_sm
     (map (DepositSetupMsg [1]) [example_setup 0, example_setup 1])) [1] 1 \<noteq> None"
proof -
  obtain ctx where ctx: "build_context_of example_bridge_env (scsm_operator_table example_sm) = Some ctx"
    using example_sm_facts(1) by blast
  have "\<forall>i < length [example_setup 0, example_setup 1]. setup_index ([example_setup 0, example_setup 1] ! i) = of_nat i"
    by (simp add: example_setup_def less_Suc_eq)
  from setups_in_order [OF example_bridge_graph_ok example_sm_inv _ ctx this, of "[1]"] show ?thesis
    using example_sm_facts(2) by (auto simp: Let_def dest: spec [of _ 1])
qed

theorem stake_machine_refines_chain_witness:
  "\<exists>sm ci ctx c. sm = foldl (scsm_step example_bridge_env) (stake_chain_sm_new example_table example_stake_params)
       [StakeChainExchange [1] \<lparr>op_txid = 99, op_vout = 0\<rparr>, DepositSetupMsg [1] (example_setup 0),
        DepositSetupMsg [1] (example_setup 1)] \<and>
     bt_get (stake_chains sm) [1] = Some ci \<and>
     stake_chain_new (graph_lib example_bridge_env) ctx ci (scsm_params sm) = Ok c \<and>
     sm_stake_txid sm [1] 1 = Some (stake_txid_of (graph_lib example_bridge_env) (chain_list c ! 1))"
proof -
  let ?sm = "foldl (scsm_step example_bridge_env) (stake_chain_sm_new example_table example_stake_params)
       [StakeChainExchange [1] \<lparr>op_txid = 99, op_vout = 0\<rparr>, DepositSetupMsg [1] (example_setup 0),
        DepositSetupMsg [1] (example_setup 1)]"
  obtain txid where "sm_stake_txid ?sm [1] 1 = Some txid"
    using example_run by (auto simp: example_sm_def simp del: scsm_step.simps)
  with stake_machine_refines_chain [OF example_bridge_graph_ok refl this] show ?thesis by fastforce
qed

theorem setup_messages_progress_witness:
  "sm_stake_txid (foldl (scsm_step example_bridge_env) example_sm
     (map (DepositSetupMsg [1]) [example_setup 0, example_setup 1])) [1] 0 \<noteq> None"
proof -
  obtain ctx where ctx: "build_context_of example_bridge_env (scsm_operator_table example_sm) = Some ctx"
    using example_sm_facts(1) by blast
  have "\<forall>i < length [example_setup 0, example_setup 1]. setup_index ([example_setup 0, example_setup 1] ! i) = of_nat i"
    by (simp add: example_setup_def less_Suc_eq)
  from setup_messages_progress [OF example_bridge_graph_ok example_sm_def _ ctx this, of "[1]"] show ?thesis
    using example_sm_facts(2) by (auto dest: spec [of _ 0])
qed

theorem setup_out_of_order_witness:
  "\<exists>e. snd (process_setup example_bridge_env example_sm [1] (example_setup 1)) = Err e \<and>
     e \<in> {StakeTxNotFound [1] 1, MissingStakeTxid [1] 0}"
proof -
  obtain ctx ci where "build_context_of example_bridge_env (scsm_operator_table example_sm) = Some ctx"
    "bt_get (stake_chains example_sm) [1] = Some ci" using example_sm_facts(1,2) by blast
  from setup_out_of_order [OF this(1) _ _ this(2), of "example_setup 1" 1] show ?thesis
    by (auto simp: example_setup_def sm_stake_txid_def example_sm_facts(3))
qed

section \<open>Restoring the machine\<close>

text \<open>The id of the stake transaction at an index of the reference chain.\<close>

definition chain_txid_at ::
    "graph_env \<Rightarrow> build_context \<Rightarrow> stake_chain_params \<Rightarrow> stake_chain_inputs \<Rightarrow> u32 \<Rightarrow> txid option" where
  "chain_txid_at env ctx params ci n =
     (case stake_tx_at env ctx params ci (unat n) of Ok (Some st) \<Rightarrow> Some (stake_txid_of env st) | _ \<Rightarrow> None)"

lemma map_of_rev_enumerate:
  assumes "length xs < 2 ^ 32"
  shows "map_of (rev (map (\<lambda>(i, x). (of_nat i + 1 :: u32, f x)) (enumerate 0 xs))) n =
     (if 0 < unat n \<and> unat n \<le> length xs then Some (f (xs ! (unat n - 1))) else None)"
  using assms
proof (induction xs rule: rev_induct)
  case (snoc x xs)
  let ?l = "length xs"
  have "unat (of_nat (Suc ?l) :: u32) = Suc ?l" using snoc.prems by (simp add: unat_of_nat del: of_nat_Suc)
  then have "n = of_nat ?l + 1 \<longleftrightarrow> unat n = Suc ?l" by (metis of_nat_Suc add.commute word_unat_eq_iff)
  then show ?case using snoc by (auto simp: enumerate_append_eq nth_append)
qed auto

lemma extend_tail_length: "extend_tail env ctx params inputs is tail = Ok tail' \<Longrightarrow> length tail' \<le> length tail + length is"
  by (induction "is" arbitrary: tail) (fastforce simp: outcome_simps split: option.splits)+

lemma stake_chain_new_length:
  assumes "stake_chain_new env ctx ci params = Ok c"
  shows "length (chain_list c) \<le> 2 ^ 32"
proof -
  have "length (chain_list c) \<le> max 2 (bt_len (stake_inputs ci))"
    using assms by (auto simp: stake_chain_new_def Let_def outcome_simps chain_list_def split: option.splits
        dest!: extend_tail_length)
  moreover have "bt_len (stake_inputs ci) \<le> 2 ^ 32" by (rule bt_len_u32)
  ultimately show ?thesis by simp
qed

lemma chain_txids_get:
  assumes "stake_chain_new env ctx ci params = Ok c"
  shows "bt_get (chain_txids env c) n = chain_txid_at env ctx params ci n"
proof -
  note spec = stake_chain_new_prefix [OF assms] and len = stake_chain_new_length [OF assms]
  have "bt_get (chain_txids env c) n =
      (if unat n < length (chain_list c) then Some (stake_txid_of env (chain_list c ! unat n)) else None)"
  proof (cases "sc_head c")
    case None
    then show ?thesis by (simp add: chain_txids_def chain_list_def bt.get_empty)
  next
    case (Some h)
    have "length (sc_tail c) < 2 ^ 32" using len Some by (simp add: chain_list_def)
    from map_of_rev_enumerate [OF this, of "stake_txid_of env" n] show ?thesis
      using Some by (auto simp: chain_txids_def chain_list_def bt_get_foldl_insert bt.get_insert
          bt.get_empty nth_Cons' unat_eq_0 less_Suc_eq_le)
  qed
  moreover have "chain_txid_at env ctx params ci n =
      (if unat n < length (chain_list c) then Some (stake_txid_of env (chain_list c ! unat n)) else None)"
  proof (cases "unat n < length (chain_list c)")
    case True
    then have "stake_tx_at env ctx params ci (unat n) = Ok (Some (chain_list c ! unat n))"
      using spec by (simp add: chain_prefix_def)
    then show ?thesis using True by (simp add: chain_txid_at_def)
  next
    case False
    then have "stake_tx_at env ctx params ci (unat n) \<noteq> Ok (Some st)" for st
      using stake_chain_new_at [OF assms, of n st] by (auto simp: chain_len_list)
    then show ?thesis using False by (simp add: chain_txid_at_def split: outcome.split option.split)
  qed
  ultimately show ?thesis by simp
qed

text \<open>
  Restoring pairs the operators' keys with the chains of those operators that have saved inputs, in
  order: the \<open>i\<close>-th key gets the ids of the \<open>i\<close>-th saved chain.
\<close>

lemma map_of_zip_prefix:
  assumes "distinct ks" and "length vs \<le> length ks" and "i < length ks"
  shows "map_of (zip ks vs) (ks ! i) = (if i < length vs then Some (vs ! i) else None)"
  using assms
proof (induction ks arbitrary: vs i)
  case (Cons k ks)
  then show ?case by (cases vs; cases i) auto
qed simp

lemma restore_pairs:
  assumes "graph_env_ok (graph_lib benv)" and "build_context_of benv t = Some ctx"
    and "present = filter (\<lambda>k. bt_get saved k \<noteq> None) (p2p_keys t)"
  shows "\<exists>sm. stake_chain_sm_restore benv t params saved = Ok sm \<and> stake_chains sm = saved \<and>
     (\<forall>i < length (p2p_keys t). \<forall>n. sm_stake_txid sm (p2p_keys t ! i) n =
        (if i < length present
         then chain_txid_at (graph_lib benv) ctx params (the (bt_get saved (present ! i))) n else None))"
proof -
  let ?env = "graph_lib benv" and ?keys = "p2p_keys t"
  let ?cis = "map (\<lambda>k. the (bt_get saved k)) present"
  let ?f = "\<lambda>ci. map_outcome_ok (chain_txids ?env) (stake_chain_new ?env ctx ci params)"
  have "\<forall>ci. \<exists>c. stake_chain_new ?env ctx ci params = Ok c" using stake_chain_new_ok [OF assms(1)] by blast
  from choice [OF this] obtain g where g: "\<And>ci. stake_chain_new ?env ctx ci params = Ok (g ci)" by blast
  have "traverse ?f ?cis = Ok (map (\<lambda>ci. chain_txids ?env (g ci)) ?cis)"
    by (simp add: traverse_Ok_iff list_all2_conv_all_nth g)
  moreover have "List.map_filter (bt_get saved) ?keys = ?cis"
    by (simp add: List.map_filter_def assms(3) comp_def)
  ultimately obtain sm where sm: "stake_chain_sm_restore benv t params saved = Ok sm" "stake_chains sm = saved"
    "stake_txids sm = bt_collect (map (\<lambda>(ids, key). (key, ids)) (zip (map (\<lambda>ci. chain_txids ?env (g ci)) ?cis) ?keys))"
    using assms(2) by (simp add: stake_chain_sm_restore_def tx_build_context_eq)
  let ?txids = "map (\<lambda>ci. chain_txids ?env (g ci)) ?cis"
  have keys: "distinct ?keys" by (simp add: p2p_keys_def)
  have "map (\<lambda>(ids, key). (key, ids)) (zip ?txids ?keys) = zip ?keys ?txids" by (subst zip_commute) simp
  moreover have "distinct (map fst (zip ?keys ?txids))" using keys by (simp add: map_fst_zip_take)
  ultimately have "bt_get (stake_txids sm) k = map_of (zip ?keys ?txids) k" for k
    by (simp add: sm(3) bt_get_collect_distinct)
  moreover have "length ?txids \<le> length ?keys" by (simp add: assms(3))
  ultimately have "bt_get (stake_txids sm) (?keys ! i) = (if i < length present then Some (?txids ! i) else None)"
    if "i < length ?keys" for i
    using map_of_zip_prefix [OF keys _ that, of ?txids] by simp
  then show ?thesis
    using sm(1,2) chain_txids_get [OF g] by (auto simp: sm_stake_txid_def)
qed

text \<open>
  When the inputs of every operator were saved, the restored machine has for every operator the
  transaction ids of that operator's chain.
\<close>

theorem restore_complete:
  assumes "graph_env_ok (graph_lib benv)" and "build_context_of benv t = Some ctx"
    and "\<forall>k \<in> set (p2p_keys t). bt_get saved k \<noteq> None"
  shows "\<exists>sm. stake_chain_sm_restore benv t params saved = Ok sm \<and> stake_chains sm = saved \<and>
     (\<forall>k ci n. k \<in> set (p2p_keys t) \<and> bt_get saved k = Some ci \<longrightarrow>
        sm_stake_txid sm k n = chain_txid_at (graph_lib benv) ctx params ci n)"
proof -
  have "p2p_keys t = filter (\<lambda>k. bt_get saved k \<noteq> None) (p2p_keys t)" using assms(3) by simp
  from restore_pairs [OF assms(1,2) this, of params] show ?thesis by (auto simp: in_set_conv_nth)
qed

text \<open>
  When the inputs of one operator were not saved, the restored machine attributes the transaction
  ids of the other operator to it, and none to the other operator.
\<close>

theorem restore_misaligned:
  assumes "graph_env_ok (graph_lib benv)" and "build_context_of benv t = Some ctx"
    and "p2p_keys t = [a, b]" and "bt_get saved a = None" and "bt_get saved b = Some ci"
  shows "\<exists>sm. stake_chain_sm_restore benv t params saved = Ok sm \<and>
     sm_stake_txid sm a n = chain_txid_at (graph_lib benv) ctx params ci n \<and> sm_stake_txid sm b n = None"
proof -
  have present: "[b] = filter (\<lambda>k. bt_get saved k \<noteq> None) (p2p_keys t)" using assms(3-5) by simp
  from restore_pairs [OF assms(1,2) present, of params] obtain sm where
    sm: "stake_chain_sm_restore benv t params saved = Ok sm"
    and ids: "\<forall>i < length (p2p_keys t). \<forall>n. sm_stake_txid sm (p2p_keys t ! i) n =
        (if i < length [b] then chain_txid_at (graph_lib benv) ctx params (the (bt_get saved ([b] ! i))) n else None)"
    by blast
  show ?thesis using sm spec [OF ids, of 0] spec [OF ids, of 1] assms(3,5) by auto
qed

lemma example_keys: "p2p_keys example_table = [[1], [2]]"
  by (simp add: p2p_keys_def example_table_eq bt_keys_def btree_simps)

lemma example_context: "\<exists>ctx. build_context_of example_bridge_env example_table = Some ctx"
  by (simp add: build_context_of_def example_bridge_env_def)

lemma example_chain_txid:
  assumes "build_context_of example_bridge_env example_table = Some ctx"
  shows "\<exists>id. chain_txid_at (graph_lib example_bridge_env) ctx example_stake_params example_chain_inputs 0 = Some id"
proof -
  let ?d = "example_stake_data 0" and ?env = "graph_lib example_bridge_env"
  obtain st where "stake_head_new ?env ctx example_stake_params (sd_hash ?d) (sd_withdrawal_fulfillment_pk ?d)
      (pre_stake_outpoint example_chain_inputs) (operator_funds ?d) (sd_operator_pubkey ?d) = Ok st"
    using stake_head_new_ok [OF example_bridge_graph_ok] by blast
  then have "stake_tx_at ?env ctx example_stake_params example_chain_inputs 0 = Ok (Some st)"
    unfolding stake_tx_at_0_iff using example_chain_input_at(1) by blast
  then show ?thesis by (simp add: chain_txid_at_def del: stake_tx_at.simps)
qed

theorem restore_complete_witness:
  "\<exists>sm id. stake_chain_sm_restore example_bridge_env example_table example_stake_params
       (bt_insert [2] example_chain_inputs (bt_insert [1] example_chain_inputs bt_empty)) = Ok sm \<and>
     sm_stake_txid sm [2] 0 = Some id"
proof -
  let ?saved = "bt_insert ([2] :: p2p_key) example_chain_inputs (bt_insert [1] example_chain_inputs bt_empty)"
  obtain ctx where ctx: "build_context_of example_bridge_env example_table = Some ctx"
    using example_context by blast
  have saved: "\<forall>k \<in> set (p2p_keys example_table). bt_get ?saved k \<noteq> None"
    "bt_get ?saved [2] = Some example_chain_inputs" by (simp_all add: example_keys bt.get_insert)
  obtain id where id: "chain_txid_at (graph_lib example_bridge_env) ctx example_stake_params example_chain_inputs 0 = Some id"
    using example_chain_txid [OF ctx] by blast
  from restore_complete [OF example_bridge_graph_ok ctx saved(1), of example_stake_params] obtain sm where
    sm: "stake_chain_sm_restore example_bridge_env example_table example_stake_params ?saved = Ok sm"
    and ids: "\<forall>k ci n. k \<in> set (p2p_keys example_table) \<and> bt_get ?saved k = Some ci \<longrightarrow>
        sm_stake_txid sm k n = chain_txid_at (graph_lib example_bridge_env) ctx example_stake_params ci n" by blast
  have "sm_stake_txid sm [2] 0 = Some id" using ids saved(2) id by (simp add: example_keys)
  with sm show ?thesis by blast
qed

theorem restore_misaligned_witness:
  "\<exists>sm id. stake_chain_sm_restore example_bridge_env example_table example_stake_params
       (bt_insert [2] example_chain_inputs bt_empty) = Ok sm \<and>
     sm_stake_txid sm [1] 0 = Some id \<and> sm_stake_txid sm [2] 0 = None"
proof -
  let ?saved = "bt_insert ([2] :: p2p_key) example_chain_inputs bt_empty"
  obtain ctx where ctx: "build_context_of example_bridge_env example_table = Some ctx"
    using example_context by blast
  have "bt_get ?saved [1] = None" "bt_get ?saved [2] = Some example_chain_inputs"
    by (simp_all add: bt.get_insert bt.get_empty)
  from restore_misaligned [OF example_bridge_graph_ok ctx example_keys this, of example_stake_params 0]
    example_chain_txid [OF ctx] show ?thesis by auto
qed

end
