(* ===== verification/Witness_Parsing.thy ===== *)
theory Witness_Parsing
  imports Stake_Chain
begin

text \<open>
  Reading the commitments back from confirmed transactions: the Winternitz signature of a claim
  transaction (\<open>ClaimTx::parse_witness\<close>) and the signatures of the 39 assert-data transactions
  (\<open>AssertDataTxBatch::parse_witnesses\<close> with \<open>primitives/src/scripts/parse_witness.rs\<close>).
\<close>

section \<open>Definitions\<close>

text \<open>
  The environment of the state machines: the bridge's libraries, the lengths of the Winternitz
  signatures of \<open>bitvm\<close>, the pushes of its \<open>script!\<close> macro, an access to the final stack of
  \<open>execute_script\<close> (\<open>None\<close> when the access panics), and the two switches of the build and of the
  process: debug assertions (with them, overflow checks) and \<open>MULTI_THREAD_GRAPH_GEN\<close>.
\<close>

type_synonym wots_digit_sig = bytes
type_synonym wots_sig = "wots_digit_sig list"

record csm_env =
  bridge :: bridge_env
  wots256_digit_len :: nat
  wots_hash_digit_len :: nat
  macro_push_u8 :: "u8 \<Rightarrow> script_buf"
  macro_push_vec :: "bytes \<Rightarrow> script_buf"
  final_stack_get :: "script_buf \<Rightarrow> nat \<Rightarrow> bytes option"
  debug_assertions :: bool
  multi_thread_graph_gen :: bool

datatype witness_error =
    WitnessEmpty
  | PreimageSizeInvalid nat
  | SignatureSizeInvalid
  | WitnessCountInvalid

record groth16_sigs =
  sig_public_inputs :: "wots_sig list"
  sig_fqs :: "wots_sig list"
  sig_hashes :: "wots_sig list"

text \<open>One digit: the preimage must have 20 bytes; the digit's item is empty for zero.\<close>

definition digit_of :: "bytes \<Rightarrow> u8" where
  "digit_of item = (case item of [] \<Rightarrow> 0 | b # _ \<Rightarrow> b)"

definition claim_digit :: "bytes list \<Rightarrow> nat \<Rightarrow> (witness_error, wots_digit_sig) outcome" where
  "claim_digit items i =
     bind_outcome (expect (list_get items (2 * i))) (\<lambda>preimage.
     if length preimage \<noteq> 20 then Err (PreimageSizeInvalid (length preimage)) else
     bind_outcome (expect (list_get items (2 * i + 1))) (\<lambda>item.
     let sig = preimage @ [digit_of item] in
     if length sig = 21 then Ok sig else Err SignatureSizeInvalid))"

definition claim_parse_witness :: "csm_env \<Rightarrow> transaction \<Rightarrow> (witness_error, wots_sig) outcome" where
  "claim_parse_witness env tx =
     bind_outcome (expect (list_get (tx_input tx) 0)) (\<lambda>inp.
     if witness inp = [] then Err WitnessEmpty
     else traverse (claim_digit (witness inp)) [0..<wots256_digit_len env])"

definition stack_digit :: "(nat \<Rightarrow> bytes option) \<Rightarrow> nat \<Rightarrow> (witness_error, wots_digit_sig) outcome" where
  "stack_digit get k =
     bind_outcome (expect (get k)) (\<lambda>preimage.
     bind_outcome (expect (get (k + 1))) (\<lambda>item.
     let sig = preimage @ [digit_of item] in
     if length sig = 21 then Ok sig else Err SignatureSizeInvalid))"

text \<open>
  \<open>parse_wots256_signatures\<close> and \<open>parse_wots_hash_signatures\<close> differ in the length of a signature.
\<close>

definition parse_wots_signatures ::
    "csm_env \<Rightarrow> nat \<Rightarrow> nat \<Rightarrow> script_buf \<Rightarrow> (witness_error, wots_sig list) outcome" where
  "parse_wots_signatures env digits n_sigs script =
     traverse (\<lambda>i. traverse (\<lambda>j. stack_digit (final_stack_get env script) (2 * j + i * 2 * digits)) [0..<digits])
       [0..<n_sigs]"

text \<open>
  The arrays of the result have \<open>NUM_PUBS\<close> = 1, \<open>NUM_U256\<close> and \<open>NUM_HASH\<close> elements; the compile-time
  checks of \<open>constants.rs\<close> equate \<open>NUM_U256 + NUM_PUBS\<close> and \<open>NUM_HASH\<close> with the numbers of committed
  elements.
\<close>

definition num_field_elements :: nat where
  "num_field_elements = num_field_connectors_batch_1 * num_field_elems_per_connector_batch_1 +
     num_field_connectors_batch_2 * num_field_elems_per_connector_batch_2"

definition num_hash_elements :: nat where
  "num_hash_elements = num_hash_connectors_batch_1 * num_hash_elems_per_connector_batch_1 +
     num_hash_connectors_batch_2 * num_hash_elems_per_connector_batch_2"

definition parse_assertion_witnesses ::
    "csm_env \<Rightarrow> script_buf list \<Rightarrow> script_buf list \<Rightarrow> script_buf list \<Rightarrow> script_buf list \<Rightarrow>
       (witness_error, groth16_sigs) outcome" where
  "parse_assertion_witnesses env f1 f2 h1 h2 =
     bind_outcome (traverse (parse_wots_signatures env (wots256_digit_len env)
         num_field_elems_per_connector_batch_1) f1) (\<lambda>w1.
     bind_outcome (traverse (parse_wots_signatures env (wots256_digit_len env)
         num_field_elems_per_connector_batch_2) f2) (\<lambda>w2.
     bind_outcome (traverse (parse_wots_signatures env (wots_hash_digit_len env)
         num_hash_elems_per_connector_batch_1) h1) (\<lambda>v1.
     bind_outcome (traverse (parse_wots_signatures env (wots_hash_digit_len env)
         num_hash_elems_per_connector_batch_2) h2) (\<lambda>v2.
     let w256 = concat w1 @ concat w2; w_hash = concat v1 @ concat v2 in
     if w256 = [] \<or> length (tl w256) \<noteq> num_field_elements - 1 \<or> length w_hash \<noteq> num_hash_elements then Panic
     else Ok \<lparr>sig_public_inputs = [hd w256], sig_fqs = tl w256, sig_hashes = w_hash\<rparr>))))"

text \<open>
  The witness of an input as a script, without its last two items. On a witness of fewer than two items
  the subtraction overflows: a panic with overflow checks, otherwise all items are taken.
\<close>

definition witness_script :: "csm_env \<Rightarrow> tx_in \<Rightarrow> (witness_error, script_buf) outcome" where
  "witness_script env inp =
     (let items = witness inp in
      if length items < 2 \<and> debug_assertions env then Panic
      else Ok (concat (map (\<lambda>w. case w of [b] \<Rightarrow> macro_push_u8 env b | _ \<Rightarrow> macro_push_vec env w)
        (if length items < 2 then items else take (length items - 2) items))))"

definition total_connectors :: nat where
  "total_connectors = num_field_connectors_batch_1 + num_field_connectors_batch_2 +
     num_hash_connectors_batch_1 + num_hash_connectors_batch_2"

definition assert_data_parse_witnesses ::
    "csm_env \<Rightarrow> transaction list \<Rightarrow> (witness_error, groth16_sigs) outcome" where
  "assert_data_parse_witnesses env txs =
     bind_outcome (traverse (witness_script env) (concat (map tx_input txs))) (\<lambda>ws.
     if length ws \<noteq> total_connectors then Err WitnessCountInvalid else
     let f1 = num_field_connectors_batch_1; f2 = f1 + num_field_connectors_batch_2;
         h1 = f2 + num_hash_connectors_batch_1 in
     parse_assertion_witnesses env (take f1 ws) (take (f2 - f1) (drop f1 ws)) (take (h1 - f2) (drop f2 ws))
       (drop (length ws - num_hash_connectors_batch_2) ws))"

section \<open>The claim witness\<close>

text \<open>The stack items of a signature: preimage and digit, the digit zero as an empty item.\<close>

definition witness_items :: "wots_sig \<Rightarrow> bytes list" where
  "witness_items sig = concat (map (\<lambda>d. [butlast d, if last d = 0 then [] else [last d]]) sig)"

lemma witness_items_nth:
  assumes "i < length sig"
  shows "list_get (witness_items sig @ rest) (2 * i) = Some (butlast (sig ! i))"
    and "list_get (witness_items sig @ rest) (2 * i + 1) =
           Some (if last (sig ! i) = 0 then [] else [last (sig ! i)])"
  using assms
proof (induction sig arbitrary: i)
  case (Cons d sig)
  { case 1 then show ?case by (cases i) (simp_all add: witness_items_def Cons.IH(1) [unfolded witness_items_def]) }
  { case 2 then show ?case by (cases i) (simp_all add: witness_items_def Cons.IH(2) [unfolded witness_items_def, simplified]) }
qed simp_all

lemma claim_digit_items:
  assumes "i < length sig" and "\<forall>d \<in> set sig. length d = 21"
  shows "claim_digit (witness_items sig @ rest) i = Ok (sig ! i)"
proof -
  have "length (sig ! i) = 21" using assms by simp
  moreover from this have "sig ! i \<noteq> []" by auto
  ultimately show ?thesis
    using witness_items_nth [OF assms(1), of rest] append_butlast_last_id [of "sig ! i"]
    by (cases "last (sig ! i) = 0") (simp_all add: claim_digit_def digit_of_def)
qed

text \<open>
  (C34) The commitment of a claim transaction survives the chain: from a first input whose witness
  consists of the items of a Winternitz signature and the two items of the script path,
  \<open>ClaimTx::parse_witness\<close> reads exactly that signature.
\<close>

theorem claim_witness_round_trip:
  assumes "list_get (tx_input tx) 0 = Some inp" and "witness inp = witness_items sig @ [script, control]"
    and "length sig = wots256_digit_len env" and "\<forall>d \<in> set sig. length d = 21"
  shows "claim_parse_witness env tx = Ok sig"
proof -
  have "claim_digit (witness inp) i = Ok (sig ! i)" if "i < length sig" for i
    using claim_digit_items [OF that assms(4)] assms(2) by simp
  then show ?thesis
    using assms(1-3) by (simp add: claim_parse_witness_def traverse_map_Ok_iff)
qed

text \<open>
  A claim witness that has items but not two for every digit is not reported as an error: the
  indexing panics, when the items that are there are well formed.
\<close>

theorem claim_witness_panics:
  assumes "list_get (tx_input tx) 0 = Some inp" and "witness inp = witness_items sig" and "sig \<noteq> []"
    and "length sig < wots256_digit_len env" and "\<forall>d \<in> set sig. length d = 21"
  shows "claim_parse_witness env tx = Panic"
proof -
  have digits: "claim_digit (witness inp) i = Ok (sig ! i)" if "i < length sig" for i
    using claim_digit_items [OF that assms(5), of "[]"] assms(2) by simp
  have "length (witness_items sig) = 2 * length sig"
    by (induction sig) (simp_all add: witness_items_def)
  then have "claim_digit (witness inp) (length sig) = Panic"
    by (simp add: claim_digit_def assms(2) list_get_def)
  then have "traverse (claim_digit (witness inp)) ([0..<length sig] @ length sig # is) = Panic" for "is"
    using digits by (intro traverse_append_Panic) auto
  moreover have "[0..<wots256_digit_len env] =
      [0..<length sig] @ length sig # [Suc (length sig)..<wots256_digit_len env]"
    using assms(4) by (metis le_eq_less_or_eq less_imp_le upt_add_eq_append upt_conv_Cons le_add_diff_inverse zero_le)
  moreover have "witness inp \<noteq> []" using assms(2,3) by (cases sig) (simp_all add: witness_items_def)
  ultimately show ?thesis using assms(1) by (simp add: claim_parse_witness_def)
qed


definition example_csm_env :: csm_env where
  "example_csm_env =
     \<lparr>bridge = example_bridge_env, wots256_digit_len = 2, wots_hash_digit_len = 1, macro_push_u8 = (\<lambda>b. [b]),
      macro_push_vec = id, final_stack_get = (\<lambda>s k. Some (replicate 20 0)), debug_assertions = True,
      multi_thread_graph_gen = False\<rparr>"

definition example_signed_in :: "bytes list \<Rightarrow> tx_in" where
  "example_signed_in items =
     \<lparr>previous_output = \<lparr>op_txid = 1, op_vout = 0\<rparr>, sequence = 0, script_sig = [], witness = items\<rparr>"

definition example_signed_tx :: "bytes list \<Rightarrow> transaction" where
  "example_signed_tx items =
     \<lparr>tx_version = 3, lock_time = 0, tx_input = [example_signed_in items], tx_output = []\<rparr>"

theorem claim_witness_round_trip_witness:
  "claim_parse_witness example_csm_env (example_signed_tx
     (witness_items [replicate 21 0, replicate 21 7] @ [[1], [2]])) = Ok [replicate 21 0, replicate 21 7]"
  by (rule claim_witness_round_trip [where script = "[1]" and control = "[2]" and
        inp = "example_signed_in (witness_items [replicate 21 0, replicate 21 7] @ [[1], [2]])"])
     (simp_all add: example_signed_tx_def example_signed_in_def example_csm_env_def)

theorem claim_witness_panics_witness:
  "claim_parse_witness example_csm_env (example_signed_tx (witness_items [replicate 21 7])) = Panic"
  by (rule claim_witness_panics [where sig = "[replicate 21 7]" and
        inp = "example_signed_in (witness_items [replicate 21 7])"])
     (simp_all add: example_signed_tx_def example_signed_in_def example_csm_env_def)

section \<open>The assertion witnesses\<close>

lemma parse_batch_length:
  assumes "traverse (parse_wots_signatures env d n) ws = Ok vs"
  shows "length (concat vs) = length ws * n"
proof -
  have "\<forall>v \<in> set vs. length v = n"
    using assms traverse_length by (fastforce simp: traverse_map_Ok_iff parse_wots_signatures_def in_set_conv_nth)
  from concat_lengths [OF this] show ?thesis using traverse_length [OF assms] by simp
qed

lemma parse_wots_not_Panic:
  assumes "\<And>s k. final_stack_get env s k \<noteq> None"
  shows "parse_wots_signatures env d n w \<noteq> Panic"
  unfolding parse_wots_signatures_def using assms
  by (intro traverse_not_Panic) (simp add: stack_digit_def outcome_simps Let_def)

text \<open>
  The assertion parser is safe: on transactions whose inputs carry at least the two items of the
  script path, and with a final stack that is long enough, it never panics, and a success gives one
  public input, fourteen field elements and the 363 hashes that the disprove scripts read.
\<close>

theorem assert_data_parse_total:
  assumes "\<And>s k. final_stack_get env s k \<noteq> None"
    and "\<forall>tx \<in> set txs. \<forall>i \<in> set (tx_input tx). 2 \<le> length (witness i)"
  shows "case assert_data_parse_witnesses env txs of
           Ok sigs \<Rightarrow> length (sig_public_inputs sigs) = 1 \<and> length (sig_fqs sigs) = 14 \<and> length (sig_hashes sigs) = 363
         | Err e \<Rightarrow> True | Panic \<Rightarrow> False"
proof -
  have script: "traverse (witness_script env) (concat (map tx_input txs)) \<noteq> Panic"
    using assms(2) by (intro traverse_not_Panic) (auto simp: witness_script_def Let_def not_less)
  have batch: "traverse (parse_wots_signatures env d n) ws \<noteq> Panic" for d n ws
    using parse_wots_not_Panic [OF assms(1)] by (intro traverse_not_Panic) simp
  have parse: "case parse_assertion_witnesses env f1 f2 h1 h2 of
           Ok sigs \<Rightarrow> length (sig_public_inputs sigs) = 1 \<and> length (sig_fqs sigs) = 14 \<and> length (sig_hashes sigs) = 363
         | Err e \<Rightarrow> True | Panic \<Rightarrow> False"
    if "length f1 = 3" "length f2 = 0" "length h1 = 33" "length h2 = 3" for f1 f2 h1 h2
    using that batch by (auto simp: parse_assertion_witnesses_def Let_def num_field_elements_def num_hash_elements_def
        num_connectors_defs outcome_simps simp del: concat_eq_Nil_conv dest!: parse_batch_length split: outcome.split)
  show ?thesis
  proof (cases "traverse (witness_script env) (concat (map tx_input txs))")
    case (Ok ws)
    then show ?thesis
      using parse [of "take 3 ws" "[]" "take 33 (drop 3 ws)" "drop 36 ws"]
      by (simp add: assert_data_parse_witnesses_def Let_def total_connectors_def num_connectors_defs)
  qed (use script in \<open>simp_all add: assert_data_parse_witnesses_def\<close>)
qed

theorem assert_data_parse_total_witness:
  "case assert_data_parse_witnesses example_csm_env (replicate 39 (example_signed_tx [[1], [2], [3]])) of
     Ok sigs \<Rightarrow> length (sig_hashes sigs) = 363 | Err e \<Rightarrow> True | Panic \<Rightarrow> False"
  using assert_data_parse_total [of example_csm_env "replicate 39 (example_signed_tx [[1], [2], [3]])"]
  by (simp add: example_csm_env_def example_signed_tx_def example_signed_in_def split: outcome.splits)

end
