(* ===== verification/Contract_State.thy ===== *)
theory Contract_State
  imports Witness_Parsing
begin

text \<open>
  The data of the contract state machine (\<open>duty-tracker/src/contract_state_machine.rs\<close>): the states of
  a deposit contract, the events that drive it, the duties it gives out, its configuration, and the
  functions that only read the state.
\<close>

section \<open>Events, duties and errors\<close>

text \<open>
  A deposit entry of the orchestration layer, with the fields the machine reads: only a dispatched
  deposit carries an assignment.
\<close>

record dispatched_state =
  assignee :: operator_idx
  withdraw_destinations :: "descriptor list"
  exec_deadline :: block_height

datatype deposit_state = Dispatched dispatched_state | NotDispatched

record deposit_entry =
  entry_idx :: u32
  entry_deposit_state :: deposit_state
  entry_withdrawal_request_txid :: "256 word option"

datatype contract_event =
    DepositSetup p2p_key xonly_key sha256_hash txid wots_public_keys
  | GraphNonces p2p_key txid "pub_nonce list"
  | GraphSigs p2p_key txid "partial_signature list"
  | AggregatedSigs "(txid, taproot_signature pog_musig_f) btree_map"
  | RootNonce p2p_key pub_nonce
  | RootSig p2p_key partial_signature
  | Assignment deposit_entry stake_tx_kind block_height
  | DepositConfirmation transaction
  | PegOutGraphConfirmation transaction block_height
  | Block block_height
  | ClaimFailure
  | AssertionFailure

datatype resolution_path = Optimistic | Contested

datatype fulfiller_duty =
    InitStakeChain
  | HandleFulfillment stake_tx_kind withdrawal_metadata descriptor block_height
  | PublishClaim (claim_fulfillment_txid: txid) (claim_stake_txid: txid) (claim_deposit_txid: txid)
  | PublishPayoutOptimistic txid txid txid u32 "taproot_signature list"
  | PublishPreAssert u32 txid txid taproot_signature
  | PublishAssertData txid block_height u32 txid txid "script_buf list"
  | PublishPostAssertData txid "txid list" "taproot_signature list"
  | PublishPayout u32 txid txid txid txid "taproot_signature list"

datatype verifier_duty = VerifyClaim | VerifyAssertion | VerifyStake | PublishChallenge | PublishDisprove

datatype operator_duty =
    AbortDuty
  | PublishStakeChainExchange
  | PublishDepositSetup txid u32 stake_chain_inputs
  | PublishGraphNonces txid "out_point pog_musig_f" "taproot_witness pog_musig_f" "pub_nonce pog_musig_f option"
  | PublishGraphSignatures txid "agg_nonce pog_musig_f" "out_point pog_musig_f" "256 word pog_musig_f"
      "taproot_witness pog_musig_f" "partial_signature pog_musig_f option"
  | PublishRootNonce txid taproot_witness "pub_nonce option"
  | PublishRootSignature txid agg_nonce "256 word" taproot_witness "partial_signature option"
  | PublishDeposit covenant_tx "partial_signature list" agg_nonce
  | FulfillerDuty fulfiller_duty
  | VerifierDuty verifier_duty

text \<open>\<open>TransitionErr\<close> wraps a message; the constructors name the messages.\<close>

datatype transition_err =
    WrongContract txid
  | UnexpectedState string
  | UnpackFailed
  | ClaimNotFound txid
  | GraphInputMissing txid
  | AggNoncesMissing txid
  | PartialsInvalid txid p2p_key
  | UnknownOperatorKey p2p_key
  | RootNonceMissing p2p_key
  | UnexpectedBlock block_height
  | GraphSigsMissing txid
  | WrongDepositIndex u32
  | UnknownAssignee operator_idx
  | NoRecipient
  | NoWithdrawalRequest
  | NotADispatchedEntry
  | UnexpectedTx txid
  | WitnessUnreadable witness_error
  | AssertDataMissing txid

section \<open>States\<close>

record requested_data =
  req_deposit_request_txid :: txid
  abort_deadline :: block_height
  peg_out_graph_inputs :: "(p2p_key, peg_out_graph_input) btree_map"
  peg_out_graph_summaries :: "(txid, peg_out_graph_summary) btree_map"
  req_claim_txids :: "(p2p_key, txid) btree_map"
  graph_nonces :: "(txid, (p2p_key, pub_nonce pog_musig_f) btree_map) btree_map"
  agg_nonces :: "(txid, agg_nonce pog_musig_f) btree_map"
  graph_partials :: "(txid, (p2p_key, partial_signature pog_musig_f) btree_map) btree_map"
  req_graph_sigs :: "(txid, taproot_signature pog_musig_f) btree_map"
  root_nonces :: "(p2p_key, pub_nonce) btree_map"
  root_partials :: "(p2p_key, partial_signature) btree_map"

text \<open>
  The fields that all later states of a live contract share, and those shared from the assignment on.
\<close>

record deposited_data =
  peg_out_graphs :: "(txid, peg_out_graph_input \<times> peg_out_graph_summary) btree_map"
  dep_claim_txids :: "(p2p_key, txid) btree_map"
  dep_graph_sigs :: "(txid, taproot_signature pog_musig_f) btree_map"

record active_data = deposited_data +
  fulfiller :: operator_idx
  active_graph :: "peg_out_graph_input \<times> peg_out_graph_summary"
  act_withdrawal_request_txid :: "256 word"

record claimed_data =
  claim_height :: block_height
  cl_fulfillment_txid :: txid
  cl_fulfillment_commitment :: wots_sig
  cl_l1_start_height :: block_height

record resolved_data =
  res_claim_txid :: txid
  res_withdrawal_request_txid :: "256 word"
  res_fulfillment_txid :: txid
  res_payout_txid :: txid
  res_path :: resolution_path

datatype contract_state =
    Requested requested_data
  | Deposited deposited_data
  | Assigned active_data (recipient: descriptor) (deadline: block_height) (asg_l1_start_height: block_height)
  | Fulfilled active_data (ful_fulfillment_txid: txid) (fulfillment_height: block_height)
      (ful_l1_start_height: block_height)
  | Claimed active_data claimed_data
  | Challenged active_data claimed_data
  | PreAssertConfirmed active_data claimed_data (signed_assert_data_txs: "(txid, transaction) btree_map")
  | AssertDataConfirmed active_data txid wots_sig "(txid, transaction) btree_map"
  | Asserted active_data (post_assert_height: block_height) txid wots_sig groth16_sigs
  | Disproved
  | Resolved resolved_data
  | Aborted

definition contract_state_new :: "txid \<Rightarrow> block_height \<Rightarrow> contract_state" where
  "contract_state_new request_txid abort_at = Requested
     \<lparr>req_deposit_request_txid = request_txid, abort_deadline = abort_at, peg_out_graph_inputs = bt_empty,
      peg_out_graph_summaries = bt_empty, req_claim_txids = bt_empty, graph_nonces = bt_empty,
      agg_nonces = bt_empty, graph_partials = bt_empty, req_graph_sigs = bt_empty, root_nonces = bt_empty,
      root_partials = bt_empty\<rparr>"

text \<open>The data of a live contract after the deposit.\<close>

fun state_deposited :: "contract_state \<Rightarrow> deposited_data option" where
  "state_deposited (Deposited d) = Some d"
| "state_deposited (Assigned a _ _ _) = Some (deposited_data.truncate a)"
| "state_deposited (Fulfilled a _ _ _) = Some (deposited_data.truncate a)"
| "state_deposited (Claimed a _) = Some (deposited_data.truncate a)"
| "state_deposited (Challenged a _) = Some (deposited_data.truncate a)"
| "state_deposited (PreAssertConfirmed a _ _) = Some (deposited_data.truncate a)"
| "state_deposited (AssertDataConfirmed a _ _ _) = Some (deposited_data.truncate a)"
| "state_deposited (Asserted a _ _ _ _) = Some (deposited_data.truncate a)"
| "state_deposited _ = None"

fun state_summaries :: "contract_state \<Rightarrow> peg_out_graph_summary list" where
  "state_summaries (Requested r) = bt_values (peg_out_graph_summaries r)"
| "state_summaries s =
     (case state_deposited s of Some d \<Rightarrow> map snd (bt_values (peg_out_graphs d)) | None \<Rightarrow> [])"

text \<open>The map behind \<open>claim_txids\<close> and \<open>claim_to_operator\<close>; empty in the states that have none.\<close>

fun state_claim_map :: "contract_state \<Rightarrow> (p2p_key, txid) btree_map" where
  "state_claim_map (Requested r) = req_claim_txids r"
| "state_claim_map s = (case state_deposited s of Some d \<Rightarrow> dep_claim_txids d | None \<Rightarrow> bt_empty)"

text \<open>The \<open>HashSet\<close> is represented by the list of its elements.\<close>

fun state_claim_txids :: "contract_state \<Rightarrow> txid list" where
  "state_claim_txids (Resolved r) = [res_claim_txid r]"
| "state_claim_txids s = bt_values (state_claim_map s)"

fun state_graph_sigs :: "contract_state \<Rightarrow> (txid, taproot_signature pog_musig_f) btree_map" where
  "state_graph_sigs (Requested r) = req_graph_sigs r"
| "state_graph_sigs s = (case state_deposited s of Some d \<Rightarrow> dep_graph_sigs d | None \<Rightarrow> bt_empty)"

definition claim_to_operator :: "contract_state \<Rightarrow> txid \<Rightarrow> p2p_key option" where
  "claim_to_operator s claim = bt_find_key (state_claim_map s) claim"

fun state_graph_input :: "contract_state \<Rightarrow> txid \<Rightarrow> peg_out_graph_input option" where
  "state_graph_input (Requested r) claim =
     Option.bind (claim_to_operator (Requested r) claim) (bt_get (peg_out_graph_inputs r))"
| "state_graph_input s claim =
     Option.bind (state_deposited s) (\<lambda>d. map_option fst (bt_get (peg_out_graphs d) claim))"

fun state_graph_summary :: "contract_state \<Rightarrow> txid \<Rightarrow> peg_out_graph_summary option" where
  "state_graph_summary (Requested r) claim = bt_get (peg_out_graph_summaries r) claim"
| "state_graph_summary s claim =
     Option.bind (state_deposited s) (\<lambda>d. map_option snd (bt_get (peg_out_graphs d) claim))"

section \<open>Configuration and machine\<close>

record contract_cfg =
  cfg_operator_table :: operator_table
  cfg_connector_params :: connector_params
  cfg_graph_params :: peg_out_graph_params
  cfg_stake_chain_params :: stake_chain_params
  cfg_deposit_idx :: u32
  cfg_deposit_tx :: covenant_tx

record machine_state =
  block_height_of :: block_height
  contract_state_of :: contract_state

record contract_sm =
  csm_cfg :: contract_cfg
  csm_state :: machine_state
  csm_pog :: "(txid, peg_out_graph) btree_map"

abbreviation the_state :: "contract_sm \<Rightarrow> contract_state" where
  "the_state sm \<equiv> contract_state_of (csm_state sm)"

abbreviation the_height :: "contract_sm \<Rightarrow> block_height" where
  "the_height sm \<equiv> block_height_of (csm_state sm)"

definition set_state :: "contract_sm \<Rightarrow> contract_state \<Rightarrow> contract_sm" where
  "set_state sm s = sm\<lparr>csm_state := (csm_state sm)\<lparr>contract_state_of := s\<rparr>\<rparr>"

definition cfg_deposit_txid :: "csm_env \<Rightarrow> contract_cfg \<Rightarrow> txid" where
  "cfg_deposit_txid env cfg = ct_txid (graph_lib (bridge env)) (cfg_deposit_tx cfg)"

definition cfg_deposit_request_txid :: "contract_cfg \<Rightarrow> ('e, txid) outcome" where
  "cfg_deposit_request_txid cfg =
     bind_outcome (expect (list_get (tx_input (unsigned_tx (ct_psbt (cfg_deposit_tx cfg)))) 0)) (\<lambda>i.
       Ok (op_txid (previous_output i)))"

definition build_graph :: "csm_env \<Rightarrow> contract_cfg \<Rightarrow> peg_out_graph_input \<Rightarrow> ('e, peg_out_graph) outcome" where
  "build_graph env cfg inp =
     bind_outcome (tx_build_context (bridge env) (cfg_operator_table cfg)) (\<lambda>ctx.
       map_outcome_ok fst (expect_ok (peg_out_graph_generate (graph_lib (bridge env)) inp ctx
         (cfg_deposit_txid env cfg) (cfg_graph_params cfg) (cfg_connector_params cfg)
         (cfg_stake_chain_params cfg) [])))"

definition contract_sm_new :: "contract_cfg \<Rightarrow> block_height \<Rightarrow> block_height \<Rightarrow> ('e, contract_sm) outcome" where
  "contract_sm_new cfg height abort_at =
     bind_outcome (cfg_deposit_request_txid cfg) (\<lambda>request_txid.
       Ok \<lparr>csm_cfg = cfg, csm_state = \<lparr>block_height_of = height,
             contract_state_of = contract_state_new request_txid abort_at\<rparr>, csm_pog = bt_empty\<rparr>)"

definition contract_sm_restore :: "contract_cfg \<Rightarrow> machine_state \<Rightarrow> contract_sm" where
  "contract_sm_restore cfg s = \<lparr>csm_cfg = cfg, csm_state = s, csm_pog = bt_empty\<rparr>"

definition clear_pog_cache :: "contract_sm \<Rightarrow> contract_sm" where
  "clear_pog_cache sm = sm\<lparr>csm_pog := bt_empty\<rparr>"

text \<open>A graph from the cache, or built and cached; the cache is keyed by the stake transaction.\<close>

definition cached_graph ::
    "csm_env \<Rightarrow> contract_cfg \<Rightarrow> (txid, peg_out_graph) btree_map \<Rightarrow> peg_out_graph_input \<Rightarrow>
       ('e, peg_out_graph \<times> (txid, peg_out_graph) btree_map) outcome" where
  "cached_graph env cfg cache inp =
     (case bt_get cache (op_txid (stake_outpoint inp)) of
        Some g \<Rightarrow> Ok (g, cache)
      | None \<Rightarrow> bind_outcome (build_graph env cfg inp) (\<lambda>g.
          Ok (g, bt_insert (op_txid (stake_outpoint inp)) g cache)))"

definition retrieve_graph :: "csm_env \<Rightarrow> contract_sm \<Rightarrow> peg_out_graph_input \<Rightarrow> ('e, peg_out_graph \<times> contract_sm) outcome" where
  "retrieve_graph env sm inp =
     map_outcome_ok (\<lambda>(g, cache). (g, sm\<lparr>csm_pog := cache\<rparr>)) (cached_graph env (csm_cfg sm) (csm_pog sm) inp)"

text \<open>The short-circuit \<open>any\<close> over a fallible predicate.\<close>

fun any_outcome :: "('a \<Rightarrow> ('e, bool) outcome) \<Rightarrow> 'a list \<Rightarrow> ('e, bool) outcome" where
  "any_outcome p [] = Ok False"
| "any_outcome p (x # xs) = bind_outcome (p x) (\<lambda>b. if b then Ok True else any_outcome p xs)"

definition summary_mentions :: "csm_env \<Rightarrow> txid \<Rightarrow> transaction \<Rightarrow> peg_out_graph_summary \<Rightarrow> bool" where
  "summary_mentions env deposit tx g \<longleftrightarrow>
     (let txid = env_compute_txid (btc (bridge env)) tx in
      deposit = txid \<or> summary_claim_txid g = txid \<or> payout_optimistic_txid g = txid \<or>
      pre_assert_txid g = txid \<or> txid \<in> set (summary_assert_data_txids g) \<or> post_assert_txid g = txid \<or>
      payout_txid g = txid \<or> is_challenge (summary_claim_txid g) tx \<or> is_disprove (post_assert_txid g) tx)"

definition transaction_filter :: "csm_env \<Rightarrow> contract_sm \<Rightarrow> transaction \<Rightarrow> ('e, bool) outcome" where
  "transaction_filter env sm tx =
     (let cfg = csm_cfg sm; deposit = cfg_deposit_txid env cfg in
      bind_outcome
        (case the_state sm of
           Assigned _ to _ _ \<Rightarrow> any_outcome (\<lambda>op. is_fulfillment_tx (bridge env) (cfg_graph_params cfg) op
             (cfg_deposit_idx cfg) deposit to tx) (operator_idxs (cfg_operator_table cfg))
         | _ \<Rightarrow> Ok False)
        (\<lambda>fulfills. Ok (fulfills \<or> (\<exists>g \<in> set (state_summaries (the_state sm)). summary_mentions env deposit tx g))))"

fun csm_withdrawal_request_txid :: "contract_state \<Rightarrow> 256 word option" where
  "csm_withdrawal_request_txid (Assigned a _ _ _) = Some (act_withdrawal_request_txid a)"
| "csm_withdrawal_request_txid _ = None"

fun csm_withdrawal_fulfillment_txid :: "contract_state \<Rightarrow> txid option" where
  "csm_withdrawal_fulfillment_txid (Fulfilled _ t _ _) = Some t"
| "csm_withdrawal_fulfillment_txid (Claimed _ c) = Some (cl_fulfillment_txid c)"
| "csm_withdrawal_fulfillment_txid (Challenged _ c) = Some (cl_fulfillment_txid c)"
| "csm_withdrawal_fulfillment_txid (PreAssertConfirmed _ c _) = Some (cl_fulfillment_txid c)"
| "csm_withdrawal_fulfillment_txid (AssertDataConfirmed _ t _ _) = Some t"
| "csm_withdrawal_fulfillment_txid (Asserted _ _ t _ _) = Some t"
| "csm_withdrawal_fulfillment_txid _ = None"

end
