(* ===== verification/Contract_Signing.thy ===== *)
theory Contract_Signing
  imports Contract_State
begin

text \<open>
  The handlers of the contract state machine that collect, before the deposit, what the operators need
  to sign the peg-out graphs and the deposit transaction: setup data, nonces and partial signatures.
  A handler returns the new machine with its result, since a handler may have changed the machine
  before it fails.
\<close>

section \<open>Definitions\<close>

text \<open>The \<open>?\<close> operator in a handler: an error or a panic ends it in the current machine.\<close>

fun or_return :: "'s \<Rightarrow> ('e, 'a) outcome \<Rightarrow> ('a \<Rightarrow> 's \<times> ('e, 'b) outcome) \<Rightarrow> 's \<times> ('e, 'b) outcome" where
  "or_return s (Ok a) f = f a"
| "or_return s (Err e) f = (s, Err e)"
| "or_return s Panic f = (s, Panic)"

text \<open>\<open>debug_assert_eq!\<close> on a repeated message, followed by an empty answer.\<close>

definition repeated :: "csm_env \<Rightarrow> 'a \<Rightarrow> 'a \<Rightarrow> 'b \<Rightarrow> ('e, 'b) outcome" where
  "repeated env new existing answer = (if debug_assertions env \<and> new \<noteq> existing then Panic else Ok answer)"

definition create_agg_ctx :: "bridge_env \<Rightarrow> btc_key list \<Rightarrow> taproot_witness \<Rightarrow> key_agg_ctx option" where
  "create_agg_ctx benv keys w =
     Option.bind (key_agg_new benv keys) (\<lambda>ctx.
       case w of WitnessKey \<Rightarrow> key_agg_unspendable_tweak benv ctx
       | WitnessScript _ _ \<Rightarrow> Some ctx
       | WitnessTweaked tweak \<Rightarrow> key_agg_taproot_tweak benv ctx tweak)"

subsection \<open>Deposit setup\<close>

definition setup_graph_input ::
    "p2p_key \<Rightarrow> xonly_key \<Rightarrow> sha256_hash \<Rightarrow> txid \<Rightarrow> wots_public_keys \<Rightarrow>
       (p2p_key, peg_out_graph_input) btree_map \<Rightarrow> (p2p_key, peg_out_graph_input) btree_map" where
  "setup_graph_input signer key hash stake wots inputs =
     (let stake_op = \<lparr>op_txid = stake, op_vout = STAKE_VOUT\<rparr>;
          wf_op = \<lparr>op_txid = stake, op_vout = WITHDRAWAL_FULFILLMENT_VOUT\<rparr> in
      bt_insert signer
        (case bt_get inputs signer of
           Some inp \<Rightarrow> inp\<lparr>stake_outpoint := stake_op, withdrawal_fulfillment_outpoint := wf_op\<rparr>
         | None \<Rightarrow> \<lparr>stake_outpoint = stake_op, withdrawal_fulfillment_outpoint = wf_op, stake_hash = hash,
                   input_wots_public_keys = wots, operator_pubkey = key\<rparr>) inputs)"

text \<open>The graphs of all operators in the order of the keys, through the cache or in threads of their own.\<close>

fun graphs_with_cache ::
    "csm_env \<Rightarrow> contract_cfg \<Rightarrow> (p2p_key \<times> peg_out_graph_input) list \<Rightarrow> (txid, peg_out_graph) btree_map \<Rightarrow>
       ('e, (p2p_key \<times> peg_out_graph) list \<times> (txid, peg_out_graph) btree_map) outcome" where
  "graphs_with_cache env cfg [] cache = Ok ([], cache)"
| "graphs_with_cache env cfg ((signer, inp) # rest) cache =
     bind_outcome (cached_graph env cfg cache inp) (\<lambda>(g, cache).
     bind_outcome (graphs_with_cache env cfg rest cache) (\<lambda>(gs, cache). Ok ((signer, g) # gs, cache)))"

definition graphs_in_threads ::
    "csm_env \<Rightarrow> contract_cfg \<Rightarrow> (p2p_key \<times> peg_out_graph_input) list \<Rightarrow>
       ('e, (p2p_key \<times> peg_out_graph) list) outcome" where
  "graphs_in_threads env cfg inputs = traverse (\<lambda>(signer, inp). map_outcome_ok (Pair signer) (build_graph env cfg inp)) inputs"

definition generate_graphs ::
    "csm_env \<Rightarrow> contract_sm \<Rightarrow> (p2p_key, peg_out_graph_input) btree_map \<Rightarrow>
       ('e, (p2p_key \<times> peg_out_graph) list \<times> (txid, peg_out_graph) btree_map) outcome" where
  "generate_graphs env sm inputs =
     (if multi_thread_graph_gen env
      then map_outcome_ok (\<lambda>gs. (gs, csm_pog sm)) (graphs_in_threads env (csm_cfg sm) (bt_entries inputs))
      else graphs_with_cache env (csm_cfg sm) (bt_entries inputs) (csm_pog sm))"

definition nonces_duty :: "csm_env \<Rightarrow> peg_out_graph \<Rightarrow> ('e, operator_duty) outcome" where
  "nonces_duty env g =
     bind_outcome (expect_ok (musig_witnesses g)) (\<lambda>ws.
       Ok (PublishGraphNonces (claim_txid (graph_lib (bridge env)) (pog_claim_tx g))
         (musig_inpoints (graph_lib (bridge env)) g) ws None))"

fun register_graphs ::
    "csm_env \<Rightarrow> (p2p_key \<times> peg_out_graph) list \<Rightarrow> requested_data \<Rightarrow> ('e, requested_data) outcome" where
  "register_graphs env [] r = Ok r"
| "register_graphs env ((signer, g) # gs) r =
     bind_outcome (expect_ok (summarize (graph_lib (bridge env)) g)) (\<lambda>summary.
     let claim = summary_claim_txid summary in
     register_graphs env gs (r\<lparr>peg_out_graph_summaries := bt_insert claim summary (peg_out_graph_summaries r),
       req_claim_txids := bt_insert signer claim (req_claim_txids r),
       graph_nonces := bt_insert claim bt_empty (graph_nonces r),
       graph_partials := bt_insert claim bt_empty (graph_partials r)\<rparr>))"

definition process_deposit_setup ::
    "csm_env \<Rightarrow> contract_sm \<Rightarrow> p2p_key \<Rightarrow> xonly_key \<Rightarrow> sha256_hash \<Rightarrow> txid \<Rightarrow> wots_public_keys \<Rightarrow>
       contract_sm \<times> (transition_err, operator_duty list) outcome" where
  "process_deposit_setup env sm signer key hash stake wots =
     (case the_state sm of
        Requested r \<Rightarrow>
          let r = r\<lparr>peg_out_graph_inputs := setup_graph_input signer key hash stake wots (peg_out_graph_inputs r)\<rparr>;
              sm = set_state sm (Requested r) in
          if bt_len (peg_out_graph_inputs r) \<noteq> cardinality (cfg_operator_table (csm_cfg sm)) then (sm, Ok [])
          else or_return sm (generate_graphs env sm (peg_out_graph_inputs r)) (\<lambda>(graphs, cache).
            let sm = sm\<lparr>csm_pog := cache\<rparr> in
            or_return sm (traverse (nonces_duty env) (map snd graphs)) (\<lambda>duties.
            or_return sm (register_graphs env graphs r) (\<lambda>r. (set_state sm (Requested r), Ok duties))))
      | Aborted \<Rightarrow> (sm, Ok [])
      | _ \<Rightarrow> (sm, Err (UnexpectedState ''process_deposit_setup'')))"

subsection \<open>Graph nonces\<close>

definition aggregate_nonces ::
    "csm_env \<Rightarrow> (txid, (p2p_key, pub_nonce pog_musig_f) btree_map) btree_map \<Rightarrow>
       (txid, agg_nonce pog_musig_f) btree_map" where
  "aggregate_nonces env nonces =
     bt_map_values (\<lambda>session. pog_map (agg_nonce_sum (bridge env)) (sequence_pog_musig_f (bt_values session))) nonces"

text \<open>Every claim has a session with a contribution of every operator.\<close>

definition sessions_complete :: "nat \<Rightarrow> txid list \<Rightarrow> (txid, (p2p_key, 'a) btree_map) btree_map \<Rightarrow> bool" where
  "sessions_complete n claims sessions \<longleftrightarrow>
     list_all (\<lambda>claim. case bt_get sessions claim of Some session \<Rightarrow> bt_len session = n | None \<Rightarrow> False) claims"

fun signature_duties ::
    "csm_env \<Rightarrow> contract_cfg \<Rightarrow> requested_data \<Rightarrow> (txid, p2p_key) btree_map \<Rightarrow> txid list \<Rightarrow>
       (txid, peg_out_graph) btree_map \<Rightarrow>
       (txid, peg_out_graph) btree_map \<times> (transition_err, operator_duty list) outcome" where
  "signature_duties env cfg r owners [] cache = (cache, Ok [])"
| "signature_duties env cfg r owners (claim # claims) cache =
     or_return cache (ok_or (ClaimNotFound claim) (bt_get owners claim)) (\<lambda>owner.
     or_return cache (ok_or (GraphInputMissing claim) (bt_get (peg_out_graph_inputs r) owner)) (\<lambda>inp.
     or_return cache (cached_graph env cfg cache inp) (\<lambda>(g, cache).
     or_return cache (pov_p2p_key (cfg_operator_table cfg)) (\<lambda>pov_key.
     let existing = Option.bind (bt_get (graph_partials r) claim) (\<lambda>session. bt_get session pov_key) in
     or_return cache (ok_or (AggNoncesMissing claim) (bt_get (agg_nonces r) claim)) (\<lambda>aggs.
     or_return cache (expect_ok (musig_sighashes (graph_lib (bridge env)) g)) (\<lambda>hashes.
     or_return cache (expect_ok (musig_witnesses g)) (\<lambda>ws.
     let (cache, rest) = signature_duties env cfg r owners claims cache in
     (cache, map_outcome_ok (Cons (PublishGraphSignatures claim aggs (musig_inpoints (graph_lib (bridge env)) g)
        hashes ws existing)) rest))))))))"

definition process_graph_nonces ::
    "csm_env \<Rightarrow> contract_sm \<Rightarrow> p2p_key \<Rightarrow> txid \<Rightarrow> pub_nonce list \<Rightarrow>
       contract_sm \<times> (transition_err, operator_duty list) outcome" where
  "process_graph_nonces env sm signer claim nonces =
     (case the_state sm of
        Requested r \<Rightarrow>
          or_return sm (ok_or UnpackFailed (unpack nonces)) (\<lambda>unpacked.
          or_return sm (ok_or (ClaimNotFound claim) (bt_get (graph_nonces r) claim)) (\<lambda>session.
          case bt_get session signer of
            Some existing \<Rightarrow> (sm, repeated env unpacked existing [])
          | None \<Rightarrow>
            let cfg = csm_cfg sm;
                r = r\<lparr>graph_nonces := bt_insert claim (bt_insert signer unpacked session) (graph_nonces r)\<rparr>;
                claims = bt_values (req_claim_txids r) in
            if \<not> sessions_complete (cardinality (cfg_operator_table cfg)) claims (graph_nonces r)
            then (set_state sm (Requested r), Ok [])
            else
              let r = r\<lparr>agg_nonces := aggregate_nonces env (graph_nonces r)\<rparr>;
                  owners = bt_collect (map (\<lambda>(op, c). (c, op)) (bt_entries (req_claim_txids r)));
                  (cache, duties) = signature_duties env cfg r owners claims (csm_pog sm) in
              ((set_state sm (Requested r))\<lparr>csm_pog := cache\<rparr>, duties)))
      | _ \<Rightarrow> (sm, Err (UnexpectedState ''process_graph_nonces'')))"

subsection \<open>Graph signatures\<close>

definition verify_partials_from_peer ::
    "csm_env \<Rightarrow> contract_cfg \<Rightarrow> p2p_key \<Rightarrow> txid \<Rightarrow> peg_out_graph \<Rightarrow>
       (txid, (p2p_key, pub_nonce pog_musig_f) btree_map) btree_map \<Rightarrow>
       (txid, agg_nonce pog_musig_f) btree_map \<Rightarrow> partial_signature pog_musig_f \<Rightarrow>
       (transition_err, bool) outcome" where
  "verify_partials_from_peer env cfg signer claim g nonces aggs partials =
     (let table = cfg_operator_table cfg in
     bind_outcome (expect (p2p_key_to_btc_key table signer)) (\<lambda>key.
     bind_outcome (expect (bt_get nonces claim)) (\<lambda>session.
     if bt_len session \<noteq> cardinality table then Ok False else
     bind_outcome (expect (bt_get session signer)) (\<lambda>pubnonces.
     bind_outcome (ok_or (AggNoncesMissing claim) (bt_get aggs claim)) (\<lambda>agg.
     bind_outcome (expect_ok (musig_sighashes (graph_lib (bridge env)) g)) (\<lambda>hashes.
     bind_outcome (expect_ok (musig_witnesses g)) (\<lambda>ws.
     bind_outcome (any_outcome (\<lambda>(pubnonce, hash, w, partial, aggnonce).
         bind_outcome (expect (create_agg_ctx (bridge env) (btc_keys table) w)) (\<lambda>ctx.
           Ok (\<not> verify_partial (bridge env) ctx partial aggnonce key pubnonce hash)))
       (pack (pog_zip5 pubnonces hashes ws partials agg))) (\<lambda>invalid.
     if invalid then Err (PartialsInvalid claim signer) else Ok True))))))))"

record aux_agg_data =
  aux_agg_nonces :: "agg_nonce pog_musig_f"
  aux_sighash_types :: "tap_sighash_type pog_musig_f"
  aux_sighashes :: "256 word pog_musig_f"
  aux_witnesses :: "taproot_witness pog_musig_f"

definition aggregate_graph ::
    "csm_env \<Rightarrow> operator_table \<Rightarrow> aux_agg_data \<Rightarrow> (p2p_key, partial_signature pog_musig_f) btree_map \<Rightarrow>
       ('e, taproot_signature pog_musig_f) outcome" where
  "aggregate_graph env table aux session =
     bind_outcome (pog_sequence_result
       (pog_map (\<lambda>w. expect (create_agg_ctx (bridge env) (btc_keys table) w)) (aux_witnesses aux))) (\<lambda>contexts.
     bind_outcome (expect_ok (convert_map_p2p_to_btc table session)) (\<lambda>by_btc_key.
     let partials = sequence_pog_musig_f (bt_values by_btc_key) in
     bind_outcome (expect_ok (pog_sequence_result (pog_zip_with_4
         (\<lambda>ctx nonce ps hash. ok_or () (aggregate_partial_signatures (bridge env) ctx nonce ps hash))
         contexts (aux_agg_nonces aux) partials (aux_sighashes aux)))) (\<lambda>sigs.
       Ok (pog_zip_with (\<lambda>sig ty. \<lparr>signature = sig, sighash_type = ty\<rparr>) sigs (aux_sighash_types aux)))))"

definition aggregate_partials ::
    "csm_env \<Rightarrow> operator_table \<Rightarrow> (txid, aux_agg_data) btree_map \<Rightarrow>
       (txid, (p2p_key, partial_signature pog_musig_f) btree_map) btree_map \<Rightarrow>
       ('e, (txid, taproot_signature pog_musig_f) btree_map) outcome" where
  "aggregate_partials env table aux_data partials =
     map_outcome_ok bt_collect (traverse (\<lambda>(claim, aux).
       bind_outcome (expect (bt_get partials claim)) (\<lambda>session.
         map_outcome_ok (Pair claim) (aggregate_graph env table aux session))) (bt_entries aux_data))"

definition graph_aux_data ::
    "csm_env \<Rightarrow> (txid, agg_nonce pog_musig_f) btree_map \<Rightarrow> peg_out_graph \<Rightarrow> ('e, txid \<times> aux_agg_data) outcome" where
  "graph_aux_data env aggs g =
     (let claim = claim_txid (graph_lib (bridge env)) (pog_claim_tx g) in
     bind_outcome (expect (bt_get aggs claim)) (\<lambda>agg.
     bind_outcome (expect_ok (musig_sighash_types g)) (\<lambda>types.
     bind_outcome (expect_ok (musig_sighashes (graph_lib (bridge env)) g)) (\<lambda>hashes.
     bind_outcome (expect_ok (musig_witnesses g)) (\<lambda>ws.
       Ok (claim, \<lparr>aux_agg_nonces = agg, aux_sighash_types = types, aux_sighashes = hashes,
                   aux_witnesses = ws\<rparr>))))))"

text \<open>The duty that opens the signing of the deposit transaction.\<close>

definition root_nonce_duty :: "contract_cfg \<Rightarrow> requested_data \<Rightarrow> ('e, operator_duty) outcome" where
  "root_nonce_duty cfg r =
     bind_outcome (expect (list_get (ct_witnesses (cfg_deposit_tx cfg)) 0)) (\<lambda>w.
     bind_outcome (pov_p2p_key (cfg_operator_table cfg)) (\<lambda>pov_key.
     bind_outcome (cfg_deposit_request_txid cfg) (\<lambda>request_txid.
       Ok (PublishRootNonce request_txid w (bt_get (root_nonces r) pov_key)))))"

definition process_graph_signatures ::
    "csm_env \<Rightarrow> contract_sm \<Rightarrow> p2p_key \<Rightarrow> txid \<Rightarrow> partial_signature list \<Rightarrow>
       contract_sm \<times> (transition_err, operator_duty option) outcome" where
  "process_graph_signatures env sm signer claim sigs =
     or_return sm (ok_or UnpackFailed (unpack sigs)) (\<lambda>unpacked.
     case the_state sm of
        Requested r \<Rightarrow>
          let cfg = csm_cfg sm; table = cfg_operator_table cfg in
          or_return sm (ok_or (ClaimNotFound claim) (bt_get (graph_partials r) claim)) (\<lambda>session.
          case bt_get session signer of
            Some existing \<Rightarrow> (sm, repeated env unpacked existing None)
          | None \<Rightarrow>
          or_return sm (ok_or (ClaimNotFound claim) (bt_find_key (req_claim_txids r) claim)) (\<lambda>owner.
          or_return sm (ok_or (GraphInputMissing claim) (bt_get (peg_out_graph_inputs r) owner)) (\<lambda>inp.
          or_return sm (cached_graph env cfg (csm_pog sm) inp) (\<lambda>(g, _).
          or_return sm (verify_partials_from_peer env cfg signer claim g (graph_nonces r) (agg_nonces r) unpacked)
            (\<lambda>verified.
          if \<not> verified then (sm, Ok None) else
          let r = r\<lparr>graph_partials := bt_insert claim (bt_insert signer unpacked session) (graph_partials r)\<rparr>;
              sm = set_state sm (Requested r) in
          if \<not> sessions_complete (cardinality table) (bt_values (req_claim_txids r)) (graph_partials r)
          then (sm, Ok None) else
          or_return sm (traverse (\<lambda>inp. map_outcome_ok fst (cached_graph env cfg (csm_pog sm) inp))
              (bt_values (peg_out_graph_inputs r))) (\<lambda>graphs.
          or_return sm (traverse (graph_aux_data env (agg_nonces r)) graphs) (\<lambda>aux.
          or_return sm (aggregate_partials env table (bt_collect aux) (graph_partials r)) (\<lambda>sigs.
          let r = r\<lparr>req_graph_sigs := sigs\<rparr>; sm = set_state sm (Requested r) in
          or_return sm (root_nonce_duty cfg r) (\<lambda>duty. (sm, Ok (Some duty)))))))))))
      | _ \<Rightarrow> (sm, Err (UnexpectedState ''process_graph_signatures'')))"

definition process_aggregate_sigs ::
    "contract_sm \<Rightarrow> (txid, taproot_signature pog_musig_f) btree_map \<Rightarrow>
       contract_sm \<times> (transition_err, operator_duty list) outcome" where
  "process_aggregate_sigs sm sigs =
     (case the_state sm of
        Requested r \<Rightarrow>
          let r = r\<lparr>req_graph_sigs := sigs\<rparr>; sm = set_state sm (Requested r) in
          or_return sm (root_nonce_duty (csm_cfg sm) r) (\<lambda>duty. (sm, Ok [duty]))
      | _ \<Rightarrow> (sm, Err (UnexpectedState ''process_aggregate_sigs'')))"

subsection \<open>The deposit transaction\<close>

text \<open>The contributions in the order of the operators' bitcoin keys in the table.\<close>

definition in_key_order :: "operator_table \<Rightarrow> (p2p_key, 'a) btree_map \<Rightarrow> 'a list" where
  "in_key_order table m =
     List.map_filter (\<lambda>key. Option.bind (btc_key_to_p2p_key table key) (bt_get m)) (btc_keys table)"

definition deposit_sighash :: "csm_env \<Rightarrow> contract_cfg \<Rightarrow> ('e, 256 word) outcome" where
  "deposit_sighash env cfg =
     bind_outcome (expect_ok (ct_sighashes (graph_lib (bridge env)) 1 (cfg_deposit_tx cfg))) (\<lambda>hashes.
       expect (list_get hashes 0))"

definition process_root_nonce ::
    "csm_env \<Rightarrow> contract_sm \<Rightarrow> p2p_key \<Rightarrow> pub_nonce \<Rightarrow>
       contract_sm \<times> (transition_err, operator_duty option) outcome" where
  "process_root_nonce env sm signer nonce =
     (case the_state sm of
        Requested r \<Rightarrow>
          let cfg = csm_cfg sm; table = cfg_operator_table cfg in
          (case bt_get (root_nonces r) signer of
             Some existing \<Rightarrow> (sm, repeated env nonce existing None)
           | None \<Rightarrow>
             let r = r\<lparr>root_nonces := bt_insert signer nonce (root_nonces r)\<rparr>; sm = set_state sm (Requested r) in
             if bt_len (root_nonces r) = cardinality table then
               or_return sm (expect (list_get (ct_witnesses (cfg_deposit_tx cfg)) 0)) (\<lambda>w.
               or_return sm (deposit_sighash env cfg) (\<lambda>hash.
               let aggnonce = agg_nonce_sum (bridge env) (in_key_order table (root_nonces r)) in
               or_return sm (cfg_deposit_request_txid cfg) (\<lambda>request_txid.
                 (sm, Ok (Some (PublishRootSignature request_txid aggnonce hash w None))))))
             else (sm, Ok None))
      | Deposited _ \<Rightarrow> (sm, Ok None)
      | _ \<Rightarrow> (sm, Err (UnexpectedState ''process_root_nonce'')))"

definition process_root_signature ::
    "csm_env \<Rightarrow> contract_sm \<Rightarrow> p2p_key \<Rightarrow> partial_signature \<Rightarrow>
       contract_sm \<times> (transition_err, operator_duty option) outcome" where
  "process_root_signature env sm signer sig =
     (case the_state sm of
        Requested r \<Rightarrow>
          let cfg = csm_cfg sm; table = cfg_operator_table cfg in
          (case bt_get (root_partials r) signer of
             Some existing \<Rightarrow> (sm, repeated env sig existing None)
           | None \<Rightarrow>
             let aggnonce = agg_nonce_sum (bridge env) (bt_values (root_nonces r)) in
             or_return sm (expect (list_get (ct_witnesses (cfg_deposit_tx cfg)) 0)) (\<lambda>w.
             or_return sm (expect (create_agg_ctx (bridge env) (btc_keys table) w)) (\<lambda>ctx.
             or_return sm (ok_or (UnknownOperatorKey signer) (p2p_key_to_btc_key table signer)) (\<lambda>key.
             or_return sm (ok_or (RootNonceMissing signer) (bt_get (root_nonces r) signer)) (\<lambda>nonce.
             or_return sm (deposit_sighash env cfg) (\<lambda>hash.
             if \<not> verify_partial (bridge env) ctx sig aggnonce key nonce hash then (sm, Ok None) else
             let r = r\<lparr>root_partials := bt_insert signer sig (root_partials r)\<rparr>; sm = set_state sm (Requested r) in
             if bt_len (root_partials r) = cardinality table
             then (sm, Ok (Some (PublishDeposit (cfg_deposit_tx cfg) (in_key_order table (root_partials r)) aggnonce)))
             else (sm, Ok None)))))))
      | Deposited _ \<Rightarrow> (sm, Ok None)
      | _ \<Rightarrow> (sm, Err (UnexpectedState ''process_root_signature'')))"

end
