(* ===== verification/Contract_SM.thy ===== *)
theory Contract_SM
  imports Contract_Signing
begin

text \<open>
  The life of a deposit contract from the deposit on: the handlers of the confirmations on chain, of new
  blocks, of assignments and of failed verifications, and the dispatch of events
  (\<open>process_contract_event\<close>).
\<close>

section \<open>Definitions\<close>

text \<open>\<open>u64\<close> addition: a panic on overflow when overflow checks are on, wrap-around otherwise.\<close>

definition add_u64 :: "csm_env \<Rightarrow> u64 \<Rightarrow> u64 \<Rightarrow> ('e, u64) outcome" where
  "add_u64 env a b = (if debug_assertions env \<and> unat a + unat b \<ge> 2 ^ 64 then Panic else Ok (a + b))"

abbreviation tx_id :: "csm_env \<Rightarrow> transaction \<Rightarrow> txid" where
  "tx_id env tx \<equiv> env_compute_txid (btc (bridge env)) tx"

abbreviation active_summary :: "('a) active_data_scheme \<Rightarrow> peg_out_graph_summary" where
  "active_summary a \<equiv> snd (active_graph a)"

subsection \<open>Deposit\<close>

text \<open>
  The iterator over the claims removes the inputs and summaries it has used; a claim that occurs twice
  finds no summary the second time.
\<close>

fun collect_graphs ::
    "(p2p_key \<times> txid) list \<Rightarrow> (p2p_key, peg_out_graph_input) btree_map \<Rightarrow> (txid, peg_out_graph_summary) btree_map \<Rightarrow>
       ('e, (txid \<times> peg_out_graph_input \<times> peg_out_graph_summary) list) outcome" where
  "collect_graphs [] inputs summaries = Ok []"
| "collect_graphs ((key, claim) # rest) inputs summaries =
     bind_outcome (expect (bt_get inputs key)) (\<lambda>inp.
     bind_outcome (expect (bt_get summaries claim)) (\<lambda>summary.
     bind_outcome (collect_graphs rest (bt_remove key inputs) (bt_remove claim summaries)) (\<lambda>gs.
       Ok ((claim, inp, summary) # gs))))"

definition process_deposit_confirmation ::
    "csm_env \<Rightarrow> contract_sm \<Rightarrow> transaction \<Rightarrow> contract_sm \<times> (transition_err, operator_duty option) outcome" where
  "process_deposit_confirmation env sm tx =
     (if tx_id env tx \<noteq> cfg_deposit_txid env (csm_cfg sm) then (sm, Err (WrongContract (tx_id env tx))) else
      case the_state sm of
        Requested r \<Rightarrow>
          or_return sm (collect_graphs (bt_entries (req_claim_txids r)) (peg_out_graph_inputs r)
              (peg_out_graph_summaries r)) (\<lambda>gs.
            (clear_pog_cache (set_state sm (Deposited \<lparr>peg_out_graphs = bt_collect gs,
               dep_claim_txids = req_claim_txids r, dep_graph_sigs = req_graph_sigs r\<rparr>)), Ok None))
      | _ \<Rightarrow> (sm, Err (UnexpectedState ''process_deposit_confirmation'')))"

subsection \<open>Blocks\<close>

text \<open>The duty of the fulfiller when a timelock that started at a height has expired.\<close>

definition after_timelock ::
    "csm_env \<Rightarrow> contract_sm \<Rightarrow> active_data \<Rightarrow> block_height \<Rightarrow> u32 \<Rightarrow>
       (transition_err, fulfiller_duty) outcome \<Rightarrow> (transition_err, operator_duty option) outcome" where
  "after_timelock env sm a start timelock duty =
     bind_outcome (add_u64 env start (ucast timelock)) (\<lambda>expiry.
     if the_height sm \<ge> expiry \<and> fulfiller a = pov_idx (cfg_operator_table (csm_cfg sm))
     then map_outcome_ok (\<lambda>d. Some (FulfillerDuty d)) duty else Ok None)"

definition graph_sigs_of :: "active_data \<Rightarrow> (transition_err, taproot_signature pog_musig_f) outcome" where
  "graph_sigs_of a = (let claim = summary_claim_txid (active_summary a) in
     ok_or (GraphSigsMissing claim) (bt_get (dep_graph_sigs a) claim))"

definition notify_new_block ::
    "csm_env \<Rightarrow> contract_sm \<Rightarrow> block_height \<Rightarrow> contract_sm \<times> (transition_err, operator_duty option) outcome" where
  "notify_new_block env sm height =
     or_return sm (add_u64 env (the_height sm) 1) (\<lambda>next_height.
     if next_height \<noteq> height then (sm, Err (UnexpectedBlock height)) else
     let sm = sm\<lparr>csm_state := (csm_state sm)\<lparr>block_height_of := height\<rparr>\<rparr>;
         cfg = csm_cfg sm; deposit = cfg_deposit_txid env cfg in
     (case the_state sm of
        Requested r \<Rightarrow>
          if the_height sm \<ge> abort_deadline r then (set_state sm Aborted, Ok (Some AbortDuty)) else (sm, Ok None)
      | Claimed a c \<Rightarrow>
          (sm, after_timelock env sm a (claim_height c) (param_payout_optimistic_timelock (cfg_connector_params cfg))
             (bind_outcome (graph_sigs_of a) (\<lambda>sigs. Ok (PublishPayoutOptimistic deposit
                (summary_claim_txid (active_summary a)) (stake_txid (active_summary a)) (cfg_deposit_idx cfg)
                (pog_payout_optimistic sigs)))))
      | Challenged a c \<Rightarrow>
          (sm, after_timelock env sm a (claim_height c) (param_pre_assert_timelock (cfg_connector_params cfg))
             (bind_outcome (graph_sigs_of a) (\<lambda>sigs. Ok (PublishPreAssert (cfg_deposit_idx cfg) deposit
                (summary_claim_txid (active_summary a)) (pog_pre_assert sigs)))))
      | Asserted a height _ _ _ \<Rightarrow>
          (sm, after_timelock env sm a height (param_payout_timelock (cfg_connector_params cfg))
             (bind_outcome (graph_sigs_of a) (\<lambda>sigs. Ok (PublishPayout (cfg_deposit_idx cfg) deposit
                (post_assert_txid (active_summary a)) (summary_claim_txid (active_summary a))
                (op_txid (stake_outpoint (fst (active_graph a)))) (pog_payout sigs)))))
      | _ \<Rightarrow> (sm, Ok None)))"

subsection \<open>Assignment\<close>

definition stub_operator_idx :: operator_idx where
  "stub_operator_idx = - 1"

definition process_assignment ::
    "csm_env \<Rightarrow> contract_sm \<Rightarrow> deposit_entry \<Rightarrow> stake_tx_kind \<Rightarrow> block_height \<Rightarrow>
       contract_sm \<times> (transition_err, operator_duty option) outcome" where
  "process_assignment env sm entry stake height =
     (let cfg = csm_cfg sm; deposit = cfg_deposit_txid env cfg in
      if entry_idx entry \<noteq> cfg_deposit_idx cfg then (sm, Err (WrongDepositIndex (entry_idx entry))) else
      case entry_deposit_state entry of
        NotDispatched \<Rightarrow> (sm, Err NotADispatchedEntry)
      | Dispatched dispatched \<Rightarrow>
          or_return sm (ok_or (UnknownAssignee (assignee dispatched))
            (idx_to_p2p_key (cfg_operator_table cfg) (assignee dispatched))) (\<lambda>assignee_key.
          or_return sm (ok_or NoRecipient (list_get (withdraw_destinations dispatched) 0)) (\<lambda>to.
          or_return sm (ok_or NoWithdrawalRequest (entry_withdrawal_request_txid entry)) (\<lambda>request.
          let metadata = \<lparr>wm_tag = tag (cfg_graph_params cfg), wm_operator_idx = assignee dispatched,
                          wm_deposit_idx = cfg_deposit_idx cfg, wm_deposit_txid = deposit\<rparr>;
              by_when = exec_deadline dispatched;
              assign = (\<lambda>d. or_return sm (ok_or (ClaimNotFound deposit) (bt_get (dep_claim_txids d) assignee_key)) (\<lambda>claim.
                or_return sm (ok_or (GraphInputMissing claim) (bt_get (peg_out_graphs d) claim)) (\<lambda>graph.
                (set_state sm (Assigned (deposited_data.extend d \<lparr>fulfiller = assignee dispatched, active_graph = graph,
                   act_withdrawal_request_txid = request\<rparr>) to by_when height),
                 Ok (Some (FulfillerDuty (HandleFulfillment stake metadata to by_when))))))) in
          (case the_state sm of
             Deposited d \<Rightarrow> assign d
           | Assigned a _ _ _ \<Rightarrow> assign (deposited_data.truncate a)
           | Aborted \<Rightarrow> (sm, Ok (Some (FulfillerDuty (HandleFulfillment stake
               (metadata\<lparr>wm_operator_idx := stub_operator_idx\<rparr>) to by_when))))
           | _ \<Rightarrow> (sm, Ok None))))))"

subsection \<open>Fulfillment, claim and challenge\<close>

definition process_fulfillment_confirmation ::
    "csm_env \<Rightarrow> contract_sm \<Rightarrow> block_height \<Rightarrow> transaction \<Rightarrow>
       contract_sm \<times> (transition_err, operator_duty option) outcome" where
  "process_fulfillment_confirmation env sm height tx =
     (let cfg = csm_cfg sm; deposit = cfg_deposit_txid env cfg; txid = tx_id env tx in
      case the_state sm of
        Assigned a to _ l1_start \<Rightarrow>
          or_return sm (is_fulfillment_tx (bridge env) (cfg_graph_params cfg) (fulfiller a) (cfg_deposit_idx cfg)
              deposit to tx) (\<lambda>fulfills.
          if \<not> fulfills then (sm, Ok None) else
          (set_state sm (Fulfilled a txid height l1_start),
           Ok (if fulfiller a = pov_idx (cfg_operator_table cfg)
               then Some (FulfillerDuty (PublishClaim txid (stake_txid (active_summary a)) deposit)) else None)))
      | _ \<Rightarrow> (sm, Err (UnexpectedState ''process_fulfillment_confirmation'')))"

fun witness_result :: "(witness_error, 'a) outcome \<Rightarrow> (transition_err, 'a) outcome" where
  "witness_result (Ok a) = Ok a"
| "witness_result (Err e) = Err (WitnessUnreadable e)"
| "witness_result Panic = Panic"

definition process_claim_confirmation ::
    "csm_env \<Rightarrow> contract_sm \<Rightarrow> block_height \<Rightarrow> transaction \<Rightarrow>
       contract_sm \<times> (transition_err, operator_duty option) outcome" where
  "process_claim_confirmation env sm height tx =
     (case the_state sm of
        Fulfilled a fulfillment _ l1_start \<Rightarrow>
          if tx_id env tx \<noteq> summary_claim_txid (active_summary a) then (sm, Err (UnexpectedTx (tx_id env tx))) else
          let duty = (if fulfiller a \<noteq> pov_idx (cfg_operator_table (csm_cfg sm))
                      then Some (VerifierDuty VerifyClaim) else None) in
          or_return sm (witness_result (claim_parse_witness env tx)) (\<lambda>commitment.
            (set_state sm (Claimed a \<lparr>claim_height = height, cl_fulfillment_txid = fulfillment,
               cl_fulfillment_commitment = commitment, cl_l1_start_height = l1_start\<rparr>), Ok duty))
      | _ \<Rightarrow> (sm, Err (UnexpectedState ''process_claim_confirmation'')))"

definition process_claim_verification_failure ::
    "contract_sm \<Rightarrow> contract_sm \<times> (transition_err, operator_duty option) outcome" where
  "process_claim_verification_failure sm =
     (case the_state sm of
        Claimed _ _ \<Rightarrow> (sm, Ok (Some (VerifierDuty PublishChallenge)))
      | _ \<Rightarrow> (sm, Err (UnexpectedState ''process_claim_verification_failure'')))"

definition process_challenge_confirmation ::
    "csm_env \<Rightarrow> contract_sm \<Rightarrow> transaction \<Rightarrow> contract_sm \<times> (transition_err, operator_duty option) outcome" where
  "process_challenge_confirmation env sm tx =
     (case the_state sm of
        Claimed a c \<Rightarrow>
          if \<not> is_challenge (summary_claim_txid (active_summary a)) tx then (sm, Err (UnexpectedTx (tx_id env tx)))
          else (set_state sm (Challenged a c), Ok None)
      | _ \<Rightarrow> (sm, Err (UnexpectedState ''process_challenge_confirmation'')))"

subsection \<open>The assertion\<close>

definition pre_assert_confirmed ::
    "csm_env \<Rightarrow> contract_sm \<Rightarrow> transaction \<Rightarrow> active_data \<Rightarrow> claimed_data \<Rightarrow>
       contract_sm \<times> (transition_err, operator_duty option) outcome" where
  "pre_assert_confirmed env sm tx a c =
     (let cfg = csm_cfg sm; txid = tx_id env tx in
      if txid \<noteq> pre_assert_txid (active_summary a) then (sm, Err (UnexpectedTx txid)) else
      or_return sm
        (if fulfiller a = pov_idx (cfg_operator_table cfg) then
           let scripts = take num_assert_data_tx (map script_pubkey (tx_output tx)) in
           if length scripts \<noteq> num_assert_data_tx then Panic
           else Ok (Some (FulfillerDuty (PublishAssertData (cl_fulfillment_txid c) (cl_l1_start_height c)
             (cfg_deposit_idx cfg) (cfg_deposit_txid env cfg) txid scripts)))
         else Ok None)
        (\<lambda>duty. (set_state sm (PreAssertConfirmed a c bt_empty), Ok duty)))"

definition process_pre_assert_confirmation ::
    "csm_env \<Rightarrow> contract_sm \<Rightarrow> transaction \<Rightarrow> contract_sm \<times> (transition_err, operator_duty option) outcome" where
  "process_pre_assert_confirmation env sm tx =
     (case the_state sm of
        Challenged a c \<Rightarrow> pre_assert_confirmed env sm tx a c
      | Claimed a c \<Rightarrow> pre_assert_confirmed env sm tx a c
      | _ \<Rightarrow> (sm, Err (UnexpectedState ''process_pre_assert_confirmation'')))"

definition process_assert_data_confirmation ::
    "csm_env \<Rightarrow> contract_sm \<Rightarrow> transaction \<Rightarrow> contract_sm \<times> (transition_err, operator_duty option) outcome" where
  "process_assert_data_confirmation env sm tx =
     (let cfg = csm_cfg sm; txid = tx_id env tx in
      case the_state sm of
        PreAssertConfirmed a c txs \<Rightarrow>
          if txid \<notin> set (summary_assert_data_txids (active_summary a)) then (sm, Err (UnexpectedTx txid)) else
          let txs = bt_insert txid tx txs; sm = set_state sm (PreAssertConfirmed a c txs) in
          if bt_len txs < num_assert_data_tx then (sm, Ok None) else
          or_return sm
            (if fulfiller a = pov_idx (cfg_operator_table cfg) then
               bind_outcome (graph_sigs_of a) (\<lambda>sigs. Ok (Some (FulfillerDuty (PublishPostAssertData
                 (cfg_deposit_txid env cfg) (summary_assert_data_txids (active_summary a)) (pog_post_assert sigs)))))
             else Ok None)
            (\<lambda>duty. (set_state sm (AssertDataConfirmed a (cl_fulfillment_txid c) (cl_fulfillment_commitment c) txs),
               Ok duty))
      | _ \<Rightarrow> (sm, Err (UnexpectedState ''process_assert_data_confirmation'')))"

definition process_post_assert_confirmation ::
    "csm_env \<Rightarrow> contract_sm \<Rightarrow> transaction \<Rightarrow> block_height \<Rightarrow>
       contract_sm \<times> (transition_err, operator_duty option) outcome" where
  "process_post_assert_confirmation env sm tx height =
     (case the_state sm of
        AssertDataConfirmed a fulfillment commitment txs \<Rightarrow>
          if bt_len txs \<noteq> num_assert_data_tx
          then (sm, Err (UnexpectedState ''process_post_assert_confirmation''))
          else if tx_id env tx \<noteq> post_assert_txid (active_summary a) then (sm, Err (UnexpectedTx (tx_id env tx))) else
          or_return sm (traverse (\<lambda>txid. ok_or (AssertDataMissing txid) (bt_get txs txid))
              (summary_assert_data_txids (active_summary a))) (\<lambda>assert_data.
          if length assert_data \<noteq> num_assert_data_tx then (sm, Panic) else
          or_return sm (witness_result (assert_data_parse_witnesses env assert_data)) (\<lambda>proof_commitment.
          (set_state sm (Asserted a height fulfillment commitment proof_commitment),
           Ok (if fulfiller a = pov_idx (cfg_operator_table (csm_cfg sm))
               then Some (VerifierDuty VerifyAssertion) else None))))
      | _ \<Rightarrow> (sm, Err (UnexpectedState ''process_post_assert_confirmation'')))"

definition process_assertion_verification_failure ::
    "contract_sm \<Rightarrow> contract_sm \<times> (transition_err, operator_duty option) outcome" where
  "process_assertion_verification_failure sm =
     (case the_state sm of
        Asserted _ _ _ _ _ \<Rightarrow> (sm, Ok (Some (VerifierDuty PublishDisprove)))
      | _ \<Rightarrow> (sm, Err (UnexpectedState ''process_assert_verification_failure'')))"

subsection \<open>Resolution\<close>

definition process_disprove_confirmation ::
    "csm_env \<Rightarrow> contract_sm \<Rightarrow> transaction \<Rightarrow> contract_sm \<times> (transition_err, operator_duty option) outcome" where
  "process_disprove_confirmation env sm tx =
     (case the_state sm of
        Asserted a _ _ _ _ \<Rightarrow>
          if \<not> is_disprove (post_assert_txid (active_summary a)) tx then (sm, Err (UnexpectedTx (tx_id env tx)))
          else (set_state sm Disproved, Ok None)
      | _ \<Rightarrow> (sm, Err (UnexpectedState ''process_disprove_confirmation'')))"

definition process_optimistic_payout_confirmation ::
    "csm_env \<Rightarrow> contract_sm \<Rightarrow> transaction \<Rightarrow> contract_sm \<times> (transition_err, operator_duty option) outcome" where
  "process_optimistic_payout_confirmation env sm tx =
     (case the_state sm of
        Claimed a c \<Rightarrow>
          if tx_id env tx \<noteq> payout_optimistic_txid (active_summary a) then (sm, Err (UnexpectedTx (tx_id env tx)))
          else (set_state sm (Resolved \<lparr>res_claim_txid = summary_claim_txid (active_summary a),
             res_withdrawal_request_txid = act_withdrawal_request_txid a,
             res_fulfillment_txid = cl_fulfillment_txid c, res_payout_txid = tx_id env tx,
             res_path = Optimistic\<rparr>), Ok None)
      | _ \<Rightarrow> (sm, Err (UnexpectedState ''process_optimistic_payout_confirmation'')))"

definition process_defended_payout_confirmation ::
    "csm_env \<Rightarrow> contract_sm \<Rightarrow> transaction \<Rightarrow> contract_sm \<times> (transition_err, operator_duty option) outcome" where
  "process_defended_payout_confirmation env sm tx =
     (case the_state sm of
        Asserted a _ fulfillment _ _ \<Rightarrow>
          if tx_id env tx \<noteq> payout_txid (active_summary a) then (sm, Err (UnexpectedTx (tx_id env tx)))
          else (set_state sm (Resolved \<lparr>res_claim_txid = summary_claim_txid (active_summary a),
             res_withdrawal_request_txid = act_withdrawal_request_txid a,
             res_fulfillment_txid = fulfillment, res_payout_txid = tx_id env tx,
             res_path = Contested\<rparr>), Ok None)
      | _ \<Rightarrow> (sm, Err (UnexpectedState ''process_defended_payout_confirmation'')))"

subsection \<open>Dispatch\<close>

text \<open>\<open>or_else\<close> runs the second handler on the machine that the first one left.\<close>

fun or_else ::
    "'s \<times> ('e, 'a) outcome \<Rightarrow> ('s \<Rightarrow> 's \<times> ('e, 'a) outcome) \<Rightarrow> 's \<times> ('e, 'a) outcome" where
  "or_else (s, Err e) f = f s"
| "or_else (s, Ok a) f = (s, Ok a)"
| "or_else (s, Panic) f = (s, Panic)"

definition process_peg_out_graph_tx_confirmation ::
    "csm_env \<Rightarrow> contract_sm \<Rightarrow> block_height \<Rightarrow> transaction \<Rightarrow>
       contract_sm \<times> (transition_err, operator_duty option) outcome" where
  "process_peg_out_graph_tx_confirmation env sm height tx =
     (case the_state sm of
        Requested _ \<Rightarrow> (sm, Err (UnexpectedState ''Requested''))
      | Deposited _ \<Rightarrow> (sm, Err (UnexpectedState ''Deposited''))
      | Assigned _ _ _ _ \<Rightarrow> process_fulfillment_confirmation env sm height tx
      | Fulfilled _ _ _ _ \<Rightarrow> process_claim_confirmation env sm height tx
      | Claimed _ _ \<Rightarrow>
          or_else (process_challenge_confirmation env sm tx) (\<lambda>sm.
          or_else (process_optimistic_payout_confirmation env sm tx) (\<lambda>sm.
            process_pre_assert_confirmation env sm tx))
      | Challenged _ _ \<Rightarrow> process_pre_assert_confirmation env sm tx
      | PreAssertConfirmed _ _ _ \<Rightarrow> process_assert_data_confirmation env sm tx
      | AssertDataConfirmed _ _ _ _ \<Rightarrow> process_post_assert_confirmation env sm tx height
      | Asserted _ _ _ _ _ \<Rightarrow>
          or_else (process_disprove_confirmation env sm tx) (\<lambda>sm. process_defended_payout_confirmation env sm tx)
      | Disproved \<Rightarrow> (sm, Err (UnexpectedState ''Disproved''))
      | Resolved _ \<Rightarrow> (sm, Err (UnexpectedState ''Resolved''))
      | Aborted \<Rightarrow> (sm, Err (UnexpectedState ''Aborted'')))"

text \<open>\<open>map(|x| x.into_iter().collect())\<close>.\<close>

definition duty_list :: "'s \<times> ('e, 'a option) outcome \<Rightarrow> 's \<times> ('e, 'a list) outcome" where
  "duty_list r = (fst r, map_outcome_ok (\<lambda>d. case d of Some x \<Rightarrow> [x] | None \<Rightarrow> []) (snd r))"

fun process_contract_event ::
    "csm_env \<Rightarrow> contract_sm \<Rightarrow> contract_event \<Rightarrow> contract_sm \<times> (transition_err, operator_duty list) outcome" where
  "process_contract_event env sm (DepositSetup p2p key hash stake wots) =
     process_deposit_setup env sm p2p key hash stake wots"
| "process_contract_event env sm (GraphNonces signer claim nonces) = process_graph_nonces env sm signer claim nonces"
| "process_contract_event env sm (GraphSigs signer claim sigs) =
     duty_list (process_graph_signatures env sm signer claim sigs)"
| "process_contract_event env sm (AggregatedSigs sigs) = process_aggregate_sigs sm sigs"
| "process_contract_event env sm (RootNonce op nonce) = duty_list (process_root_nonce env sm op nonce)"
| "process_contract_event env sm (RootSig op sig) = duty_list (process_root_signature env sm op sig)"
| "process_contract_event env sm (Assignment entry stake height) =
     duty_list (process_assignment env sm entry stake height)"
| "process_contract_event env sm (DepositConfirmation tx) = duty_list (process_deposit_confirmation env sm tx)"
| "process_contract_event env sm (PegOutGraphConfirmation tx height) =
     duty_list (process_peg_out_graph_tx_confirmation env sm height tx)"
| "process_contract_event env sm (Block height) = duty_list (notify_new_block env sm height)"
| "process_contract_event env sm ClaimFailure = duty_list (process_claim_verification_failure sm)"
| "process_contract_event env sm AssertionFailure = duty_list (process_assertion_verification_failure sm)"

end
