(* ===== verification/Contract_Steps.thy ===== *)
theory Contract_Steps
  imports Contract_SM
begin

text \<open>
  The life cycle of a contract as a step relation on its states, with one rule for each way in which an
  event can change the state, and the proof that the handlers implement it. The invariants of the
  machine and the properties of its runs are proved by rule inversion on this relation.
\<close>

section \<open>The step relation\<close>

text \<open>The collection of setup data, nonces and partial signatures before the deposit.\<close>

inductive requested_step ::
    "csm_env \<Rightarrow> contract_cfg \<Rightarrow> requested_data \<Rightarrow> contract_event \<Rightarrow> requested_data \<Rightarrow> bool"
  for env :: csm_env and cfg :: contract_cfg where
  setup_input:
    "requested_step env cfg r (DepositSetup op key hash stake wots)
       (r\<lparr>peg_out_graph_inputs := setup_graph_input op key hash stake wots (peg_out_graph_inputs r)\<rparr>)"
| setup_graphs:
    "inputs = setup_graph_input op key hash stake wots (peg_out_graph_inputs r) \<Longrightarrow>
     bt_len inputs = cardinality (cfg_operator_table cfg) \<Longrightarrow> map fst graphs = bt_keys inputs \<Longrightarrow>
     register_graphs env graphs (r\<lparr>peg_out_graph_inputs := inputs\<rparr>) = (Ok r' :: (transition_err, _) outcome) \<Longrightarrow>
     requested_step env cfg r (DepositSetup op key hash stake wots) r'"
| nonces:
    "unpack packed = Some ns \<Longrightarrow> bt_get (graph_nonces r) claim = Some session \<Longrightarrow> bt_get session signer = None \<Longrightarrow>
     all = bt_insert claim (bt_insert signer ns session) (graph_nonces r) \<Longrightarrow>
     aggs = agg_nonces r \<or>
       sessions_complete (cardinality (cfg_operator_table cfg)) (bt_values (req_claim_txids r)) all \<and>
       aggs = aggregate_nonces env all \<Longrightarrow>
     requested_step env cfg r (GraphNonces signer claim packed) (r\<lparr>graph_nonces := all, agg_nonces := aggs\<rparr>)"
| partials:
    "unpack packed = Some ps \<Longrightarrow> bt_get (graph_partials r) claim = Some session \<Longrightarrow> bt_get session signer = None \<Longrightarrow>
     verify_partials_from_peer env cfg signer claim g (graph_nonces r) (agg_nonces r) ps = Ok True \<Longrightarrow>
     all = bt_insert claim (bt_insert signer ps session) (graph_partials r) \<Longrightarrow>
     sigs = req_graph_sigs r \<or>
       sessions_complete (cardinality (cfg_operator_table cfg)) (bt_values (req_claim_txids r)) all \<Longrightarrow>
     requested_step env cfg r (GraphSigs signer claim packed) (r\<lparr>graph_partials := all, req_graph_sigs := sigs\<rparr>)"
| aggregated: "requested_step env cfg r (AggregatedSigs sigs) (r\<lparr>req_graph_sigs := sigs\<rparr>)"
| root_nonce:
    "bt_get (root_nonces r) signer = None \<Longrightarrow>
     requested_step env cfg r (RootNonce signer nonce) (r\<lparr>root_nonces := bt_insert signer nonce (root_nonces r)\<rparr>)"
| root_partial:
    "bt_get (root_partials r) signer = None \<Longrightarrow> bt_get (root_nonces r) signer = Some nonce \<Longrightarrow>
     p2p_key_to_btc_key (cfg_operator_table cfg) signer = Some key \<Longrightarrow>
     verify_partial (bridge env) ctx sig (agg_nonce_sum (bridge env) (bt_values (root_nonces r))) key nonce hash \<Longrightarrow>
     requested_step env cfg r (RootSig signer sig) (r\<lparr>root_partials := bt_insert signer sig (root_partials r)\<rparr>)"

text \<open>The life cycle; a state may also stay as it is.\<close>

inductive contract_step ::
    "csm_env \<Rightarrow> contract_cfg \<Rightarrow> contract_state \<Rightarrow> contract_event \<Rightarrow> contract_state \<Rightarrow> bool"
  for env :: csm_env and cfg :: contract_cfg where
  stay: "contract_step env cfg s ev s"
| collect: "requested_step env cfg r ev r' \<Longrightarrow> contract_step env cfg (Requested r) ev (Requested r')"
| deposit:
    "tx_id env tx = cfg_deposit_txid env cfg \<Longrightarrow>
     collect_graphs (bt_entries (req_claim_txids r)) (peg_out_graph_inputs r) (peg_out_graph_summaries r) =
       (Ok gs :: (transition_err, _) outcome) \<Longrightarrow>
     contract_step env cfg (Requested r) (DepositConfirmation tx)
       (Deposited \<lparr>peg_out_graphs = bt_collect gs, dep_claim_txids = req_claim_txids r, dep_graph_sigs = req_graph_sigs r\<rparr>)"
| abort: "abort_deadline r \<le> height \<Longrightarrow> contract_step env cfg (Requested r) (Block height) Aborted"
| assign:
    "state_deposited s = Some d \<Longrightarrow> s = Deposited d \<or> (\<exists>a to by l1. s = Assigned a to by l1) \<Longrightarrow>
     entry_idx entry = cfg_deposit_idx cfg \<Longrightarrow> entry_deposit_state entry = Dispatched dispatched \<Longrightarrow>
     idx_to_p2p_key (cfg_operator_table cfg) (assignee dispatched) = Some key \<Longrightarrow>
     list_get (withdraw_destinations dispatched) 0 = Some to \<Longrightarrow>
     entry_withdrawal_request_txid entry = Some request \<Longrightarrow>
     bt_get (dep_claim_txids d) key = Some claim \<Longrightarrow> bt_get (peg_out_graphs d) claim = Some graph \<Longrightarrow>
     contract_step env cfg s (Assignment entry stake height)
       (Assigned (deposited_data.extend d \<lparr>fulfiller = assignee dispatched, active_graph = graph,
          act_withdrawal_request_txid = request\<rparr>) to (exec_deadline dispatched) height)"
| fulfill:
    "is_fulfillment_tx (bridge env) (cfg_graph_params cfg) (fulfiller a) (cfg_deposit_idx cfg)
       (cfg_deposit_txid env cfg) to tx = (Ok True :: (transition_err, _) outcome) \<Longrightarrow>
     contract_step env cfg (Assigned a to by l1) (PegOutGraphConfirmation tx height)
       (Fulfilled a (tx_id env tx) height l1)"
| claim:
    "tx_id env tx = summary_claim_txid (active_summary a) \<Longrightarrow> claim_parse_witness env tx = Ok commitment \<Longrightarrow>
     contract_step env cfg (Fulfilled a fulfillment at l1) (PegOutGraphConfirmation tx height)
       (Claimed a \<lparr>claim_height = height, cl_fulfillment_txid = fulfillment,
          cl_fulfillment_commitment = commitment, cl_l1_start_height = l1\<rparr>)"
| challenge:
    "is_challenge (summary_claim_txid (active_summary a)) tx \<Longrightarrow>
     contract_step env cfg (Claimed a c) (PegOutGraphConfirmation tx height) (Challenged a c)"
| optimistic_payout:
    "tx_id env tx = payout_optimistic_txid (active_summary a) \<Longrightarrow>
     contract_step env cfg (Claimed a c) (PegOutGraphConfirmation tx height)
       (Resolved \<lparr>res_claim_txid = summary_claim_txid (active_summary a),
          res_withdrawal_request_txid = act_withdrawal_request_txid a,
          res_fulfillment_txid = cl_fulfillment_txid c, res_payout_txid = payout_optimistic_txid (active_summary a), res_path = Optimistic\<rparr>)"
| pre_assert:
    "s = Claimed a c \<or> s = Challenged a c \<Longrightarrow> tx_id env tx = pre_assert_txid (active_summary a) \<Longrightarrow>
     contract_step env cfg s (PegOutGraphConfirmation tx height) (PreAssertConfirmed a c bt_empty)"
| assert_data:
    "tx_id env tx \<in> set (summary_assert_data_txids (active_summary a)) \<Longrightarrow>
     contract_step env cfg (PreAssertConfirmed a c txs) (PegOutGraphConfirmation tx height)
       (PreAssertConfirmed a c (bt_insert (tx_id env tx) tx txs))"
| assert_data_done:
    "tx_id env tx \<in> set (summary_assert_data_txids (active_summary a)) \<Longrightarrow>
     txs' = bt_insert (tx_id env tx) tx txs \<Longrightarrow> num_assert_data_tx \<le> bt_len txs' \<Longrightarrow>
     contract_step env cfg (PreAssertConfirmed a c txs) (PegOutGraphConfirmation tx height)
       (AssertDataConfirmed a (cl_fulfillment_txid c) (cl_fulfillment_commitment c) txs')"
| post_assert:
    "tx_id env tx = post_assert_txid (active_summary a) \<Longrightarrow> bt_len txs = num_assert_data_tx \<Longrightarrow>
     map (bt_get txs) (summary_assert_data_txids (active_summary a)) = map Some assert_data \<Longrightarrow>
     assert_data_parse_witnesses env assert_data = Ok proof_commitment \<Longrightarrow>
     contract_step env cfg (AssertDataConfirmed a fulfillment commitment txs) (PegOutGraphConfirmation tx height)
       (Asserted a height fulfillment commitment proof_commitment)"
| disprove:
    "is_disprove (post_assert_txid (active_summary a)) tx \<Longrightarrow>
     contract_step env cfg (Asserted a at fulfillment commitment prf) (PegOutGraphConfirmation tx height) Disproved"
| defended_payout:
    "tx_id env tx = payout_txid (active_summary a) \<Longrightarrow>
     contract_step env cfg (Asserted a at fulfillment commitment prf) (PegOutGraphConfirmation tx height)
       (Resolved \<lparr>res_claim_txid = summary_claim_txid (active_summary a),
          res_withdrawal_request_txid = act_withdrawal_request_txid a,
          res_fulfillment_txid = fulfillment, res_payout_txid = payout_txid (active_summary a), res_path = Contested\<rparr>)"

inductive_cases requested_stepE: "requested_step env cfg r ev r'"
inductive_cases contract_stepE: "contract_step env cfg s ev s'"

section \<open>The handlers implement the steps\<close>

lemma set_state_simps [simp]:
  "the_state (set_state sm s) = s" "the_height (set_state sm s) = the_height sm"
  "csm_cfg (set_state sm s) = csm_cfg sm" "csm_pog (set_state sm s) = csm_pog sm"
  "set_state (set_state sm s) s' = set_state sm s'"
  by (simp_all add: set_state_def)

lemma clear_pog_cache_simps [simp]:
  "csm_cfg (clear_pog_cache sm) = csm_cfg sm" "csm_state (clear_pog_cache sm) = csm_state sm"
  by (simp_all add: clear_pog_cache_def)

lemma fst_duty_list [simp]: "fst (duty_list r) = fst r"
  by (simp add: duty_list_def)

definition implements :: "csm_env \<Rightarrow> contract_sm \<Rightarrow> contract_event \<Rightarrow> contract_sm \<Rightarrow> bool" where
  "implements env sm ev sm' \<longleftrightarrow> csm_cfg sm' = csm_cfg sm \<and>
     contract_step env (csm_cfg sm) (the_state sm) ev (the_state sm')"

lemma implements_same: "csm_cfg sm' = csm_cfg sm \<Longrightarrow> the_state sm' = the_state sm \<Longrightarrow> implements env sm ev sm'"
  by (simp add: implements_def contract_step.stay)

lemma implements_refl [simp]: "implements env sm ev sm"
  by (simp add: implements_same)

lemma implements_or_return:
  "implements env sm ev (fst (or_return s x f)) \<longleftrightarrow>
     (\<forall>a. x = Ok a \<longrightarrow> implements env sm ev (fst (f a))) \<and> (\<not> is_ok x \<longrightarrow> implements env sm ev s)"
  by (cases x) auto

lemma implements_updates:
  "implements env sm ev (set_state sm' s) \<longleftrightarrow>
     csm_cfg sm' = csm_cfg sm \<and> contract_step env (csm_cfg sm) (the_state sm) ev s"
  "implements env sm ev (sm'\<lparr>csm_pog := cache\<rparr>) \<longleftrightarrow> implements env sm ev sm'"
  "implements env sm ev (clear_pog_cache sm') \<longleftrightarrow> implements env sm ev sm'"
  "implements env sm ev (sm'\<lparr>csm_state := (csm_state sm')\<lparr>block_height_of := h\<rparr>\<rparr>) \<longleftrightarrow> implements env sm ev sm'"
  by (simp_all add: implements_def clear_pog_cache_def)

lemmas implements_simps = implements_or_return implements_updates

lemma generate_graphs_keys:
  assumes "generate_graphs env sm inputs = Ok (graphs, cache)"
  shows "map fst graphs = bt_keys inputs"
proof -
  have "graphs_with_cache env cfg xs c = Ok (gs, c') \<Longrightarrow> map fst gs = map fst xs" for cfg xs c gs c'
    by (induction xs arbitrary: c gs c') (auto simp: outcome_simps)
  moreover have "graphs_in_threads env cfg xs = Ok gs \<Longrightarrow> map fst gs = map fst xs" for cfg xs gs
    by (induction xs arbitrary: gs) (auto simp: graphs_in_threads_def outcome_simps)
  ultimately show ?thesis
    using assms by (auto simp: generate_graphs_def outcome_simps bt_keys_def split: if_splits)
qed

lemma process_deposit_setup_implements:
  "implements env sm (DepositSetup op key hash stake wots) (fst (process_deposit_setup env sm op key hash stake wots))"
proof (cases "the_state sm")
  case (Requested r)
  let ?r = "r\<lparr>peg_out_graph_inputs := setup_graph_input op key hash stake wots (peg_out_graph_inputs r)\<rparr>"
  let ?sm = "set_state sm (Requested ?r)"
  have stored: "implements env sm (DepositSetup op key hash stake wots) (?sm\<lparr>csm_pog := cache\<rparr>)" for cache
    using Requested by (auto simp: implements_def intro: contract_step.collect requested_step.setup_input)
  moreover have "implements env sm (DepositSetup op key hash stake wots) (set_state (?sm\<lparr>csm_pog := cache\<rparr>) (Requested r'))"
    if "generate_graphs env ?sm (peg_out_graph_inputs ?r) = (Ok (graphs, cache) :: (transition_err, _) outcome)"
      "bt_len (peg_out_graph_inputs ?r) = cardinality (cfg_operator_table (csm_cfg sm))"
      "register_graphs env graphs ?r = (Ok r' :: (transition_err, _) outcome)" for graphs cache r'
    using Requested generate_graphs_keys [OF that(1)] that(2,3)
    by (auto simp: implements_def intro!: contract_step.collect requested_step.setup_graphs)
  moreover have "implements env sm (DepositSetup op key hash stake wots) ?sm"
    using stored [of "csm_pog ?sm"] by (simp add: set_state_def)
  ultimately show ?thesis
    using Requested by (auto simp: process_deposit_setup_def Let_def implements_or_return split: prod.split)
qed (simp_all add: process_deposit_setup_def)

lemma process_graph_nonces_implements:
  "implements env sm (GraphNonces signer claim packed) (fst (process_graph_nonces env sm signer claim packed))"
proof (cases "the_state sm")
  case (Requested r)
  have "contract_step env (csm_cfg sm) (Requested r) (GraphNonces signer claim packed)
      (Requested (r\<lparr>graph_nonces := all, agg_nonces := aggs\<rparr>))"
    if "unpack packed = Some ns" "bt_get (graph_nonces r) claim = Some session" "bt_get session signer = None"
      "all = bt_insert claim (bt_insert signer ns session) (graph_nonces r)"
      "aggs = agg_nonces r \<or> sessions_complete (cardinality (cfg_operator_table (csm_cfg sm)))
         (bt_values (req_claim_txids r)) all \<and> aggs = aggregate_nonces env all" for ns session all aggs
    using that by (intro contract_step.collect requested_step.nonces)
  note step = this [OF _ _ _ refl, of _ _ "agg_nonces r", simplified] this [OF _ _ _ refl disjI2]
  show ?thesis
    using Requested step by (auto simp: process_graph_nonces_def Let_def implements_simps outcome_simps
        split: option.split prod.split intro: contract_step.stay)
qed (simp_all add: process_graph_nonces_def)

lemma process_graph_signatures_implements:
  "implements env sm (GraphSigs signer claim packed) (fst (process_graph_signatures env sm signer claim packed))"
proof (cases "the_state sm")
  case (Requested r)
  have "contract_step env (csm_cfg sm) (Requested r) (GraphSigs signer claim packed)
      (Requested (r\<lparr>graph_partials := all, req_graph_sigs := sigs\<rparr>))"
    if "unpack packed = Some ps" "bt_get (graph_partials r) claim = Some session" "bt_get session signer = None"
      "verify_partials_from_peer env (csm_cfg sm) signer claim g (graph_nonces r) (agg_nonces r) ps = Ok True"
      "all = bt_insert claim (bt_insert signer ps session) (graph_partials r)"
      "sigs = req_graph_sigs r \<or> sessions_complete (cardinality (cfg_operator_table (csm_cfg sm)))
         (bt_values (req_claim_txids r)) all" for ps session g all sigs
    using that by (intro contract_step.collect requested_step.partials)
  note step = this [OF _ _ _ _ refl, of _ _ _ "req_graph_sigs r", simplified] this [OF _ _ _ _ refl disjI2]
  show ?thesis
    using Requested step by (auto simp: process_graph_signatures_def Let_def implements_simps outcome_simps
        split: option.split prod.split intro: contract_step.stay)
qed (simp_all add: process_graph_signatures_def implements_simps Let_def)

lemma process_aggregate_sigs_implements:
  "implements env sm (AggregatedSigs sigs) (fst (process_aggregate_sigs sm sigs))"
  by (cases "the_state sm") (auto simp: process_aggregate_sigs_def Let_def implements_simps
      intro: contract_step.stay contract_step.collect requested_step.aggregated)

lemma process_root_nonce_implements:
  "implements env sm (RootNonce signer nonce) (fst (process_root_nonce env sm signer nonce))"
  by (cases "the_state sm") (auto simp: process_root_nonce_def Let_def implements_simps split: option.split
      intro: contract_step.stay contract_step.collect requested_step.root_nonce)

lemma process_root_signature_implements:
  "implements env sm (RootSig signer sig) (fst (process_root_signature env sm signer sig))"
  by (cases "the_state sm") (auto simp: process_root_signature_def Let_def implements_simps outcome_simps
      split: option.split intro: contract_step.stay contract_step.collect requested_step.root_partial)

lemma process_deposit_confirmation_implements:
  "implements env sm (DepositConfirmation tx) (fst (process_deposit_confirmation env sm tx))"
  by (cases "the_state sm") (auto simp: process_deposit_confirmation_def implements_simps
      intro: contract_step.stay contract_step.deposit)

lemma notify_new_block_implements:
  "implements env sm (Block height) (fst (notify_new_block env sm height))"
  by (cases "the_state sm") (auto simp: notify_new_block_def Let_def implements_simps
      intro: contract_step.stay contract_step.abort)

lemma process_assignment_implements:
  "implements env sm (Assignment entry stake height) (fst (process_assignment env sm entry stake height))"
proof -
  have assign: "contract_step env (csm_cfg sm) s (Assignment entry stake height)
       (Assigned (deposited_data.extend d \<lparr>fulfiller = assignee dispatched, active_graph = graph,
          act_withdrawal_request_txid = request\<rparr>) to (exec_deadline dispatched) height)"
    if "state_deposited s = Some d" "s = Deposited d \<or> (\<exists>a to by l1. s = Assigned a to by l1)"
     "entry_idx entry = cfg_deposit_idx (csm_cfg sm)" "entry_deposit_state entry = Dispatched dispatched"
     "idx_to_p2p_key (cfg_operator_table (csm_cfg sm)) (assignee dispatched) = Some key"
     "list_get (withdraw_destinations dispatched) 0 = Some to" "entry_withdrawal_request_txid entry = Some request"
     "bt_get (dep_claim_txids d) key = Some claim" "bt_get (peg_out_graphs d) claim = Some graph"
    for s d dispatched key to request claim graph
    using that by (rule contract_step.assign)
  show ?thesis
    by (cases "the_state sm"; cases "entry_deposit_state entry")
       (auto simp: process_assignment_def Let_def implements_simps outcome_simps
          intro: contract_step.stay assign)
qed

lemma confirmation_steps:
  "implements env sm (PegOutGraphConfirmation tx height) (fst (process_fulfillment_confirmation env sm height tx))"
  "implements env sm (PegOutGraphConfirmation tx height) (fst (process_claim_confirmation env sm height tx))"
  "implements env sm (PegOutGraphConfirmation tx height) (fst (process_challenge_confirmation env sm tx))"
  "implements env sm (PegOutGraphConfirmation tx height) (fst (process_optimistic_payout_confirmation env sm tx))"
  "implements env sm (PegOutGraphConfirmation tx height) (fst (process_pre_assert_confirmation env sm tx))"
  "implements env sm (PegOutGraphConfirmation tx height) (fst (process_assert_data_confirmation env sm tx))"
  "implements env sm (PegOutGraphConfirmation tx height) (fst (process_post_assert_confirmation env sm tx height))"
  "implements env sm (PegOutGraphConfirmation tx height) (fst (process_disprove_confirmation env sm tx))"
  "implements env sm (PegOutGraphConfirmation tx height) (fst (process_defended_payout_confirmation env sm tx))"
proof -
  have parse: "witness_result x = Ok a \<longleftrightarrow> x = Ok a" for x :: "(witness_error, 'b) outcome" and a by (cases x) auto
  have found: "traverse (\<lambda>txid. ok_or (AssertDataMissing txid) (bt_get txs txid)) ids = Ok ds \<Longrightarrow>
      map (bt_get txs) ids = map Some ds" for txs :: "(txid, transaction) btree_map" and ids ds
    by (auto simp: traverse_map_Ok_iff outcome_simps intro: nth_equalityI)
  note steps = contract_step.stay contract_step.fulfill contract_step.claim contract_step.challenge
    contract_step.optimistic_payout contract_step.pre_assert contract_step.assert_data contract_step.assert_data_done
    contract_step.post_assert contract_step.disprove contract_step.defended_payout
  show "implements env sm (PegOutGraphConfirmation tx height) (fst (process_fulfillment_confirmation env sm height tx))"
    by (cases "the_state sm") (auto simp: process_fulfillment_confirmation_def Let_def implements_simps
        intro: steps)
  show "implements env sm (PegOutGraphConfirmation tx height) (fst (process_claim_confirmation env sm height tx))"
    by (cases "the_state sm") (auto simp: process_claim_confirmation_def Let_def implements_simps parse
        intro: steps)
  show "implements env sm (PegOutGraphConfirmation tx height) (fst (process_challenge_confirmation env sm tx))"
    by (cases "the_state sm") (auto simp: process_challenge_confirmation_def implements_simps intro: steps)
  show "implements env sm (PegOutGraphConfirmation tx height) (fst (process_optimistic_payout_confirmation env sm tx))"
    by (cases "the_state sm") (auto simp: process_optimistic_payout_confirmation_def implements_simps intro: steps)
  show "implements env sm (PegOutGraphConfirmation tx height) (fst (process_pre_assert_confirmation env sm tx))"
    by (cases "the_state sm") (auto simp: process_pre_assert_confirmation_def pre_assert_confirmed_def Let_def
        implements_simps intro: steps)
  show "implements env sm (PegOutGraphConfirmation tx height) (fst (process_assert_data_confirmation env sm tx))"
    by (cases "the_state sm") (auto simp: process_assert_data_confirmation_def Let_def implements_simps
        intro: steps)
  show "implements env sm (PegOutGraphConfirmation tx height) (fst (process_post_assert_confirmation env sm tx height))"
    by (cases "the_state sm") (auto simp: process_post_assert_confirmation_def Let_def implements_simps parse
        dest!: found intro: steps)
  show "implements env sm (PegOutGraphConfirmation tx height) (fst (process_disprove_confirmation env sm tx))"
    by (cases "the_state sm") (auto simp: process_disprove_confirmation_def implements_simps intro: steps)
  show "implements env sm (PegOutGraphConfirmation tx height) (fst (process_defended_payout_confirmation env sm tx))"
    by (cases "the_state sm") (auto simp: process_defended_payout_confirmation_def implements_simps intro: steps)
qed

lemma implements_or_else:
  assumes "implements env sm ev (fst x)" and "\<And>e. x = (sm, Err e) \<Longrightarrow> implements env sm ev (fst (f sm))"
    and "\<And>s e. x = (s, Err e) \<Longrightarrow> s = sm"
  shows "implements env sm ev (fst (or_else x f))"
proof (cases x)
  case (Pair s r)
  then show ?thesis using assms(1,2) assms(3) [of s] by (cases r) simp_all
qed

lemma rejected_attempt_keeps:
  "process_challenge_confirmation env sm tx = (s, Err e) \<Longrightarrow> s = sm"
  "process_optimistic_payout_confirmation env sm tx = (s, Err e) \<Longrightarrow> s = sm"
  "process_disprove_confirmation env sm tx = (s, Err e) \<Longrightarrow> s = sm"
  by (auto simp: process_challenge_confirmation_def process_optimistic_payout_confirmation_def
      process_disprove_confirmation_def split: contract_state.splits if_splits)

lemma process_peg_out_graph_tx_confirmation_implements:
  "implements env sm (PegOutGraphConfirmation tx height) (fst (process_peg_out_graph_tx_confirmation env sm height tx))"
proof (cases "the_state sm")
  case (Claimed a c)
  have "implements env sm (PegOutGraphConfirmation tx height)
      (fst (or_else (process_optimistic_payout_confirmation env sm tx) (\<lambda>sm. process_pre_assert_confirmation env sm tx)))"
    by (rule implements_or_else [OF confirmation_steps(4) confirmation_steps(5) rejected_attempt_keeps(2)])
  then show ?thesis
    unfolding process_peg_out_graph_tx_confirmation_def Claimed contract_state.case
    by (rule implements_or_else [OF confirmation_steps(3) _ rejected_attempt_keeps(1)])
next
  case (Asserted a h t w p)
  show ?thesis
    unfolding process_peg_out_graph_tx_confirmation_def Asserted contract_state.case
    by (rule implements_or_else [OF confirmation_steps(8) confirmation_steps(9) rejected_attempt_keeps(3)])
qed (simp_all add: process_peg_out_graph_tx_confirmation_def confirmation_steps)

lemma event_implements: "implements env sm ev (fst (process_contract_event env sm ev))"
  by (cases ev) (simp_all add: process_deposit_setup_implements process_graph_nonces_implements
        process_graph_signatures_implements process_aggregate_sigs_implements process_root_nonce_implements
        process_root_signature_implements process_deposit_confirmation_implements notify_new_block_implements
        process_assignment_implements process_peg_out_graph_tx_confirmation_implements
        process_claim_verification_failure_def process_assertion_verification_failure_def
        split: contract_state.split)

text \<open>
  (C1) The handlers implement the life cycle: whatever event is delivered to whatever machine, and
  whether it is accepted, rejected or panics, the configuration stays and the contract state changes as
  one step of the relation allows.
\<close>

theorem contract_event_refines:
  "csm_cfg (fst (process_contract_event env sm ev)) = csm_cfg sm \<and>
   contract_step env (csm_cfg sm) (the_state sm) ev (the_state (fst (process_contract_event env sm ev)))"
  using event_implements by (simp add: implements_def)

end
