(* ===== verification/Contract_Runs.thy ===== *)
theory Contract_Runs
  imports Contract_Invariants
begin

text \<open>
  Properties of the runs of the contract state machine: which graph is active, in which order the
  transactions of a contract must have been confirmed before it is resolved, that a contract never goes
  back, and that the transaction filter passes every transaction that can change the contract.
\<close>

section \<open>Runs\<close>

lemma csm_run_simps [simp]:
  "csm_run env sm [] = sm" "csm_run env sm (ev # evs) = csm_run env (csm_step env sm ev) evs"
  "csm_run env sm (evs @ [ev]) = csm_step env (csm_run env sm evs) ev"
  by (simp_all add: csm_run_def)

lemma csm_step_cfg [simp]: "csm_cfg (csm_step env sm ev) = csm_cfg sm"
  using event_implements [of env sm ev] by (simp add: csm_step_def implements_def)

lemma csm_step_step: "contract_step env (csm_cfg sm) (the_state sm) ev (the_state (csm_step env sm ev))"
  using event_implements [of env sm ev] by (simp add: csm_step_def implements_def)

lemma csm_run_cfg [simp]: "csm_cfg (csm_run env sm evs) = csm_cfg sm"
  by (induction evs arbitrary: sm) simp_all

lemma csm_run_inv: "csm_init sm \<Longrightarrow> csm_inv (csm_run env sm evs)"
  by (simp add: csm_run_def csm.inv_reachable)

lemma csm_new_run:
  assumes "contract_sm_new cfg height abort_at = (Ok sm :: (transition_err, _) outcome)"
  shows "csm_cfg (csm_run env sm evs) = cfg" and "csm_inv (csm_run env sm evs)"
    and "state_ok (cfg_operator_table cfg) (the_state (csm_run env sm evs))"
proof -
  have "csm_init sm" and "csm_cfg sm = cfg"
    using assms by (auto simp: csm_init_def contract_sm_new_def outcome_simps)
  then show "csm_cfg (csm_run env sm evs) = cfg" "csm_inv (csm_run env sm evs)"
    "state_ok (cfg_operator_table cfg) (the_state (csm_run env sm evs))"
    using csm_run_inv [of sm env evs] by (simp_all add: csm_inv_def)
qed

lemma state_ok_active: "state_ok t s \<Longrightarrow> state_active s = Some a \<Longrightarrow> active_ok t a"
  by (cases s) auto

text \<open>
  (C3) After any events, the active graph of an assigned contract is the graph that was registered for
  the operator who has to fulfill: the operator is in the table, the claim of the active graph is the
  claim recorded for the operator's key, and the recorded graph of this claim is the active one.
\<close>

theorem active_graph_of_fulfiller:
  assumes "contract_sm_new cfg height abort_at = (Ok sm :: (transition_err, _) outcome)"
    and "state_active (the_state (csm_run env sm evs)) = Some a"
  shows "\<exists>key. idx_to_p2p_key (cfg_operator_table cfg) (fulfiller a) = Some key \<and>
     bt_get (dep_claim_txids a) key = Some (summary_claim_txid (active_summary a)) \<and>
     bt_get (peg_out_graphs a) (summary_claim_txid (active_summary a)) = Some (active_graph a)"
  using state_ok_active [OF csm_new_run(3) [OF assms(1)] assms(2)] by (simp add: active_ok_def)

section \<open>A contract never goes back\<close>

fun phase :: "contract_state \<Rightarrow> nat" where
  "phase (Requested _) = 0"
| "phase (Deposited _) = 1"
| "phase (Assigned _ _ _ _) = 2"
| "phase (Fulfilled _ _ _ _) = 3"
| "phase (Claimed _ _) = 4"
| "phase (Challenged _ _) = 5"
| "phase (PreAssertConfirmed _ _ _) = 6"
| "phase (AssertDataConfirmed _ _ _ _) = 7"
| "phase (Asserted _ _ _ _ _) = 8"
| "phase _ = 9"

lemma contract_step_phase: "contract_step env cfg s ev s' \<Longrightarrow> phase s \<le> phase s' \<and> (phase s = 9 \<longrightarrow> s' = s)"
  by (erule contract_stepE) (auto split: contract_state.splits)

lemma contract_step_aborted: "contract_step env cfg s ev Aborted \<Longrightarrow> s = Aborted \<or> phase s = 0"
  by (erule contract_stepE) auto

lemma contract_step_active:
  "contract_step env cfg s ev s' \<Longrightarrow> 3 \<le> phase s \<Longrightarrow> state_active s' = None \<or> state_active s' = state_active s"
  by (erule contract_stepE) (auto split: contract_state.splits)

lemma phase_3_active: "3 \<le> phase s \<Longrightarrow> phase s \<noteq> 9 \<Longrightarrow> state_active s \<noteq> None"
  by (cases s) auto

text \<open>
  (C4) A contract never goes back: events move it forward through its phases or leave it where it is;
  a resolved, disproved or aborted contract stays as it is whatever happens; a contract is aborted only
  before its deposit; and once the withdrawal is fulfilled the operator and the active graph are fixed.
\<close>

theorem contract_never_reverts:
  "phase (the_state sm) \<le> phase (the_state (csm_run env sm evs)) \<and>
   (phase (the_state sm) = 9 \<longrightarrow> the_state (csm_run env sm evs) = the_state sm) \<and>
   (the_state (csm_run env sm evs) = Aborted \<longrightarrow> the_state sm = Aborted \<or> phase (the_state sm) = 0) \<and>
   (3 \<le> phase (the_state sm) \<longrightarrow> state_active (the_state (csm_run env sm evs)) \<in> {None, state_active (the_state sm)})"
proof (induction evs rule: rev_induct)
  case (snoc ev evs)
  let ?s = "the_state (csm_run env sm evs)" and ?s' = "the_state (csm_run env sm (evs @ [ev]))"
  have step: "contract_step env (csm_cfg sm) ?s ev ?s'"
    using csm_step_step [of env "csm_run env sm evs" ev] by simp
  note phase = contract_step_phase [OF step]
  show ?case
  proof (intro conjI impI)
    show "phase (the_state sm) \<le> phase ?s'" using phase snoc by (meson order_trans)
    show "?s' = the_state sm" if "phase (the_state sm) = 9" using phase snoc that by metis
    show "the_state sm = Aborted \<or> phase (the_state sm) = 0" if "?s' = Aborted"
      using contract_step_aborted [OF step [unfolded that]] snoc by (metis le_zero_eq)
    show "state_active ?s' \<in> {None, state_active (the_state sm)}" if "3 \<le> phase (the_state sm)"
    proof -
      have "3 \<le> phase ?s" using snoc that by (meson order_trans)
      from contract_step_active [OF step this] show ?thesis using snoc that by (metis insert_iff singletonD)
    qed
  qed
qed simp

section \<open>The order of the confirmations\<close>

text \<open>Events that satisfy the predicates occur in this order, possibly with other events between them.\<close>

fun in_order :: "('a \<Rightarrow> bool) list \<Rightarrow> 'a list \<Rightarrow> bool" where
  "in_order [] xs = True"
| "in_order (p # ps) [] = False"
| "in_order (p # ps) (x # xs) = (if p x then in_order ps xs else in_order (p # ps) xs)"

lemma in_order_later: "in_order ps xs \<Longrightarrow> in_order ps (xs @ ys)"
  by (induction ps xs rule: in_order.induct) auto

lemma in_order_snoc: "in_order ps xs \<Longrightarrow> p x \<Longrightarrow> in_order (ps @ [p]) (xs @ [x])"
proof (induction ps xs rule: in_order.induct)
  case (1 xs)
  then show ?case by (induction xs) auto
qed (auto split: if_splits)

lemma in_order_prefix: "in_order (ps @ qs) xs \<Longrightarrow> in_order ps xs"
  by (induction ps xs rule: in_order.induct) (auto split: if_splits)

text \<open>What an event has to be at the milestones of a contract.\<close>

definition confirms_deposit :: "csm_env \<Rightarrow> contract_cfg \<Rightarrow> contract_event \<Rightarrow> bool" where
  "confirms_deposit env cfg ev \<longleftrightarrow>
     (case ev of DepositConfirmation tx \<Rightarrow> tx_id env tx = cfg_deposit_txid env cfg | _ \<Rightarrow> False)"

definition assigns :: "contract_cfg \<Rightarrow> operator_idx \<Rightarrow> descriptor \<Rightarrow> 256 word \<Rightarrow> contract_event \<Rightarrow> bool" where
  "assigns cfg op to request ev \<longleftrightarrow>
     (case ev of Assignment entry _ _ \<Rightarrow>
        entry_idx entry = cfg_deposit_idx cfg \<and> entry_withdrawal_request_txid entry = Some request \<and>
        (case entry_deposit_state entry of
           Dispatched d \<Rightarrow> assignee d = op \<and> list_get (withdraw_destinations d) 0 = Some to
         | NotDispatched \<Rightarrow> False)
      | _ \<Rightarrow> False)"

definition confirms_fulfillment ::
    "csm_env \<Rightarrow> contract_cfg \<Rightarrow> operator_idx \<Rightarrow> descriptor \<Rightarrow> txid \<Rightarrow> contract_event \<Rightarrow> bool" where
  "confirms_fulfillment env cfg op to txid ev \<longleftrightarrow>
     (case ev of PegOutGraphConfirmation tx _ \<Rightarrow> tx_id env tx = txid \<and>
        is_fulfillment_tx (bridge env) (cfg_graph_params cfg) op (cfg_deposit_idx cfg)
          (cfg_deposit_txid env cfg) to tx = (Ok True :: (transition_err, _) outcome)
      | _ \<Rightarrow> False)"

definition confirms_tx :: "csm_env \<Rightarrow> txid \<Rightarrow> contract_event \<Rightarrow> bool" where
  "confirms_tx env txid ev \<longleftrightarrow> (case ev of PegOutGraphConfirmation tx _ \<Rightarrow> tx_id env tx = txid | _ \<Rightarrow> False)"

definition assigned_log :: "csm_env \<Rightarrow> contract_cfg \<Rightarrow> operator_idx \<Rightarrow> descriptor \<Rightarrow> 256 word \<Rightarrow> (contract_event \<Rightarrow> bool) list" where
  "assigned_log env cfg op to request = [confirms_deposit env cfg, assigns cfg op to request]"

definition claimed_log ::
    "csm_env \<Rightarrow> contract_cfg \<Rightarrow> operator_idx \<Rightarrow> descriptor \<Rightarrow> 256 word \<Rightarrow> txid \<Rightarrow> txid \<Rightarrow> (contract_event \<Rightarrow> bool) list" where
  "claimed_log env cfg op to request fulfillment claim =
     assigned_log env cfg op to request @ [confirms_fulfillment env cfg op to fulfillment, confirms_tx env claim]"

text \<open>The milestones that lie behind a contract in a given state.\<close>

fun milestones :: "csm_env \<Rightarrow> contract_cfg \<Rightarrow> operator_idx \<Rightarrow> descriptor \<Rightarrow> contract_state \<Rightarrow> (contract_event \<Rightarrow> bool) list" where
  "milestones env cfg op to (Deposited d) = [confirms_deposit env cfg]"
| "milestones env cfg op to (Assigned a _ _ _) = assigned_log env cfg op to (act_withdrawal_request_txid a)"
| "milestones env cfg op to (Fulfilled a txid _ _) =
     assigned_log env cfg op to (act_withdrawal_request_txid a) @ [confirms_fulfillment env cfg op to txid]"
| "milestones env cfg op to (Resolved r) =
     claimed_log env cfg op to (res_withdrawal_request_txid r) (res_fulfillment_txid r) (res_claim_txid r) @
       [confirms_tx env (res_payout_txid r)]"
| "milestones env cfg op to s =
     (case (state_active s, csm_withdrawal_fulfillment_txid s) of
        (Some a, Some f) \<Rightarrow>
          claimed_log env cfg op to (act_withdrawal_request_txid a) f (summary_claim_txid (active_summary a))
      | _ \<Rightarrow> [])"

text \<open>The operator and the recipient that the state still records are those of the milestones.\<close>

definition passed :: "csm_env \<Rightarrow> contract_cfg \<Rightarrow> contract_event list \<Rightarrow> contract_state \<Rightarrow> bool" where
  "passed env cfg evs s \<longleftrightarrow> (\<exists>op to.
     (\<forall>a. state_active s = Some a \<longrightarrow> fulfiller a = op) \<and> (\<forall>a to' by l1. s = Assigned a to' by l1 \<longrightarrow> to' = to) \<and>
     in_order (milestones env cfg op to s) evs)"

lemma passed_later: "passed env cfg evs s \<Longrightarrow> passed env cfg (evs @ [ev]) s"
  unfolding passed_def by (blast intro: in_order_later)

lemma passed_deposited:
  assumes "passed env cfg evs s" and "s = Deposited d \<or> (\<exists>a to by l1. s = Assigned a to by l1)"
  shows "in_order [confirms_deposit env cfg] evs"
  using assms in_order_prefix [of "[confirms_deposit env cfg]"] by (fastforce simp: passed_def assigned_log_def)

lemma passedI:
  "(\<And>a. state_active s = Some a \<Longrightarrow> fulfiller a = op) \<Longrightarrow> (\<And>a to' by l1. s = Assigned a to' by l1 \<Longrightarrow> to' = to) \<Longrightarrow>
   in_order (milestones env cfg op to s) evs \<Longrightarrow> passed env cfg evs s"
  unfolding passed_def by blast

text \<open>A step that adds no milestone, and a step that adds one.\<close>

lemma passed_same:
  assumes "passed env cfg evs s" and "state_active s' \<noteq> None \<Longrightarrow> state_active s' = state_active s"
    and "phase s' \<noteq> 2" and "\<And>op to. milestones env cfg op to s' = milestones env cfg op to s"
  shows "passed env cfg (evs @ [ev]) s'"
proof -
  obtain op to where "\<forall>a. state_active s = Some a \<longrightarrow> fulfiller a = op" "in_order (milestones env cfg op to s) evs"
    using assms(1) by (auto simp: passed_def)
  then show ?thesis using assms(2-4) in_order_later by (intro passedI [of _ op to]) auto
qed

lemma passed_more:
  assumes "passed env cfg evs s" and "state_active s' \<noteq> None \<Longrightarrow> state_active s' = state_active s"
    and "phase s' \<noteq> 2" and "\<And>op to. milestones env cfg op to s' = milestones env cfg op to s @ [p op to]"
    and "\<And>a op to. state_active s = Some a \<Longrightarrow> fulfiller a = op \<Longrightarrow> (\<And>a to' by l1. s = Assigned a to' by l1 \<Longrightarrow> to' = to) \<Longrightarrow>
      p op to ev"
    and "state_active s \<noteq> None"
  shows "passed env cfg (evs @ [ev]) s'"
proof -
  obtain op to where s: "\<And>a. state_active s = Some a \<Longrightarrow> fulfiller a = op"
      "\<And>a to' by l1. s = Assigned a to' by l1 \<Longrightarrow> to' = to" "in_order (milestones env cfg op to s) evs"
    using assms(1) unfolding passed_def by blast
  obtain a where a: "state_active s = Some a" using assms(6) by blast
  have "p op to ev" using assms(5) [OF a s(1) [OF a] s(2)] by simp
  then have "in_order (milestones env cfg op to s') (evs @ [ev])"
    unfolding assms(4) by (rule in_order_snoc [OF s(3)])
  then show ?thesis using s(1) assms(2,3) by (intro passedI [of _ op to]) auto
qed

lemma passed_step:
  assumes step: "contract_step env cfg s ev s'" and "passed env cfg evs s"
  shows "passed env cfg (evs @ [ev]) s'"
  using step
proof cases
  case (deposit tx r gs)
  have "in_order ([] @ [confirms_deposit env cfg]) (evs @ [ev])"
    by (rule in_order_snoc) (simp_all add: deposit confirms_deposit_def)
  then show ?thesis using deposit by (intro passedI [of _ undefined undefined]) auto
next
  case (assign d entry dispatched key to request claim graph stake height)
  have "in_order ([confirms_deposit env cfg] @ [assigns cfg (assignee dispatched) to request]) (evs @ [ev])"
    by (rule in_order_snoc [OF passed_deposited [OF assms(2) assign(4)]]) (simp add: assigns_def assign)
  then show ?thesis
    using assign(2) by (intro passedI [of _ "assignee dispatched" to])
      (auto simp: assigned_log_def deposited_data.extend_def)
next
  case (fulfill a to tx deadline l1 height)
  show ?thesis using fulfill
    by (intro passed_more [OF assms(2), where p = "\<lambda>op to. confirms_fulfillment env cfg op to (tx_id env tx)"])
       (auto simp: confirms_fulfillment_def)
next
  case (claim tx a commitment fulfillment h0 l1 height)
  show ?thesis using claim
    by (intro passed_more [OF assms(2), where p = "\<lambda>op to. confirms_tx env (tx_id env tx)"])
       (auto simp: claimed_log_def confirms_tx_def)
next
  case (optimistic_payout tx a c height)
  show ?thesis using optimistic_payout
    by (intro passed_more [OF assms(2), where p = "\<lambda>op to. confirms_tx env (tx_id env tx)"])
       (auto simp: confirms_tx_def)
next
  case (defended_payout tx a h0 fulfillment commitment pc height)
  show ?thesis using defended_payout
    by (intro passed_more [OF assms(2), where p = "\<lambda>op to. confirms_tx env (tx_id env tx)"])
       (auto simp: confirms_tx_def)
next
  case stay
  then show ?thesis using assms(2) passed_later by blast
next
  case disprove
  then show ?thesis by (intro passedI) auto
next
  case abort
  then show ?thesis by (intro passedI) auto
next
  case collect
  then show ?thesis by (intro passedI) auto
qed (use assms(2) in \<open>auto intro!: passed_same [OF assms(2)]\<close>)

text \<open>
  (C2) A contract is resolved only by the right transactions in the right order. When a machine that
  started from a deposit request is in the resolved state, its events contain, in this order, the
  confirmation of the deposit, the assignment of the recorded withdrawal request to an operator and a
  recipient, the confirmation of the recorded fulfillment transaction, which pays this recipient on
  behalf of this operator, the confirmation of the recorded claim, and that of the recorded payout.
\<close>

theorem resolved_only_after_payment:
  assumes "contract_sm_new cfg height abort_at = (Ok sm :: (transition_err, _) outcome)"
    and "the_state (csm_run env sm evs) = Resolved r"
  shows "\<exists>op to. in_order [confirms_deposit env cfg, assigns cfg op to (res_withdrawal_request_txid r),
     confirms_fulfillment env cfg op to (res_fulfillment_txid r), confirms_tx env (res_claim_txid r),
     confirms_tx env (res_payout_txid r)] evs"
proof -
  have cfg: "csm_cfg sm = cfg" and start: "milestones env cfg op to (the_state sm) = []" "state_active (the_state sm) = None"
    "phase (the_state sm) = 0" for op to
    using assms(1) by (auto simp: contract_sm_new_def outcome_simps contract_state_new_def)
  have "passed env cfg evs (the_state (csm_run env sm evs))"
  proof (induction evs rule: rev_induct)
    case Nil
    show ?case using start by (intro passedI) auto
  next
    case (snoc ev evs)
    then show ?case using passed_step [OF csm_step_step [of env "csm_run env sm evs" ev]] cfg by simp
  qed
  then show ?thesis
    using assms(2) by (auto simp: passed_def claimed_log_def assigned_log_def)
qed

end
