(* ===== verification/Contract_Progress.thy ===== *)
theory Contract_Progress
  imports Contract_Runs
begin

text \<open>
  What the contract state machine achieves when its environment keeps its contracts: the setup messages of
  all operators give every operator a signing session for its graph, whichever way the graphs are
  generated; and a contract whose withdrawal is fulfilled and claimed ends in the resolved state.
\<close>

section \<open>Generated graphs\<close>

text \<open>The contracts of the libraries, and a configuration whose amounts fit.\<close>

definition csm_env_ok :: "csm_env \<Rightarrow> contract_cfg \<Rightarrow> bool" where
  "csm_env_ok env cfg \<longleftrightarrow> graph_env_ok (graph_lib (bridge env)) \<and>
     graph_params_ok (cfg_graph_params cfg) (cfg_stake_chain_params cfg) \<and>
     key_agg_new (bridge env) (bt_values (public_key_table (cfg_operator_table cfg))) \<noteq> None \<and>
     (\<forall>wots. length (env_full_tapscripts (graph_lib (bridge env)) wots) + 2 \<le> 2 ^ 128)"

definition usable_graph :: "csm_env \<Rightarrow> peg_out_graph \<Rightarrow> bool" where
  "usable_graph env g \<longleftrightarrow> (\<exists>sum ws. summarize (graph_lib (bridge env)) g = Ok sum \<and> musig_witnesses g = Ok ws)"

lemma build_graphD:
  assumes "build_graph env cfg inp = (Ok g :: ('e, _) outcome)"
  shows "\<exists>ctx cs. peg_out_graph_generate (graph_lib (bridge env)) inp ctx (cfg_deposit_txid env cfg)
     (cfg_graph_params cfg) (cfg_connector_params cfg) (cfg_stake_chain_params cfg) [] = Ok (g, cs)"
  using assms by (auto simp: build_graph_def outcome_simps)

lemma build_graph_ok:
  assumes "csm_env_ok env cfg"
  shows "\<exists>g. build_graph env cfg inp = (Ok g :: ('e, _) outcome) \<and> usable_graph env g"
proof -
  have ok: "graph_env_ok (graph_lib (bridge env))" using assms by (simp add: csm_env_ok_def)
  obtain ctx where ctx: "tx_build_context (bridge env) (cfg_operator_table cfg) = (Ok ctx :: ('e, _) outcome)"
    using assms by (auto simp: csm_env_ok_def tx_build_context_def get_aggregated_pubkey_def)
  obtain g cs where gen: "peg_out_graph_generate (graph_lib (bridge env)) inp ctx (cfg_deposit_txid env cfg)
     (cfg_graph_params cfg) (cfg_connector_params cfg) (cfg_stake_chain_params cfg) [] = Ok (g, cs)"
    using peg_out_graph_generate_ok [OF ok] assms unfolding csm_env_ok_def by blast
  have "usable_graph env g"
    using generated_graph_data [OF gen graph_env_dust [OF ok]] unfolding usable_graph_def by blast
  then show ?thesis using gen ctx by (simp add: build_graph_def)
qed

section \<open>Graphs from the cache and graphs from threads\<close>

definition stake_txid_of_input :: "peg_out_graph_input \<Rightarrow> txid" where
  "stake_txid_of_input inp = op_txid (stake_outpoint inp)"

definition cache_coherent ::
    "csm_env \<Rightarrow> contract_cfg \<Rightarrow> (txid, peg_out_graph) btree_map \<Rightarrow> peg_out_graph_input list \<Rightarrow> bool" where
  "cache_coherent env cfg cache inputs \<longleftrightarrow> list_all (\<lambda>inp.
     case bt_get cache (stake_txid_of_input inp) of
       Some g \<Rightarrow> build_graph env cfg inp = (Ok g :: (transition_err, _) outcome)
     | None \<Rightarrow> True) inputs"

lemma cached_graph_coherent:
  assumes "cache_coherent env cfg cache (inp # inputs)" and "stake_txid_of_input inp \<notin> stake_txid_of_input ` set inputs"
  shows "\<exists>cache'. cached_graph env cfg cache inp =
       bind_outcome (build_graph env cfg inp) (\<lambda>g. Ok (g, cache' g) :: (transition_err, _) outcome) \<and>
     (\<forall>g. cache_coherent env cfg (cache' g) inputs)"
proof (cases "bt_get cache (stake_txid_of_input inp)")
  case None
  have "cache_coherent env cfg (bt_insert (stake_txid_of_input inp) g cache) inputs" for g
    using assms by (auto simp: cache_coherent_def bt.get_insert list_all_iff)
  then show ?thesis using None
    by (intro exI [of _ "\<lambda>g. bt_insert (stake_txid_of_input inp) g cache"])
       (simp add: cached_graph_def stake_txid_of_input_def)
next
  case (Some g)
  then show ?thesis using assms(1)
    by (intro exI [of _ "\<lambda>g. cache"]) (simp add: cached_graph_def stake_txid_of_input_def cache_coherent_def)
qed

lemma graphs_modes_agree:
  assumes "distinct (map stake_txid_of_input (map snd entries))" and "cache_coherent env cfg cache (map snd entries)"
  shows "map_outcome_ok fst (graphs_with_cache env cfg entries cache) =
     (graphs_in_threads env cfg entries :: (transition_err, _) outcome)"
  using assms
proof (induction entries arbitrary: cache)
  case (Cons e entries)
  obtain k inp where e: "e = (k, inp)" by force
  obtain cache' where cached: "cached_graph env cfg cache inp =
       bind_outcome (build_graph env cfg inp) (\<lambda>g. Ok (g, cache' g) :: (transition_err, _) outcome)"
    and coherent: "\<And>g. cache_coherent env cfg (cache' g) (map snd entries)"
    using cached_graph_coherent [of env cfg cache inp "map snd entries"] Cons.prems by (auto simp: e)
  have rest: "map_outcome_ok fst (graphs_with_cache env cfg entries (cache' g)) =
     (graphs_in_threads env cfg entries :: (transition_err, _) outcome)" for g
    using Cons.IH [OF _ coherent] Cons.prems(1) by simp
  show ?case
  proof (cases "build_graph env cfg inp :: (transition_err, _) outcome")
    case (Ok g)
    then show ?thesis
      by (cases "graphs_with_cache env cfg entries (cache' g) :: (transition_err, _) outcome")
         (auto simp: e cached graphs_in_threads_def rest [of g, unfolded graphs_in_threads_def, symmetric])
  qed (simp_all add: e cached graphs_in_threads_def)
qed (simp add: graphs_in_threads_def)

lemma register_graphs_env:
  "register_graphs (env\<lparr>multi_thread_graph_gen := b\<rparr>) gs r = (register_graphs env gs r :: (transition_err, _) outcome)"
  by (induction gs arbitrary: r) (auto simp: Let_def)

lemma build_graph_env [simp]: "build_graph (env\<lparr>multi_thread_graph_gen := b\<rparr>) cfg inp = build_graph env cfg inp"
  by (simp add: build_graph_def cfg_deposit_txid_def)

lemma cached_graph_env [simp]:
  "cached_graph (env\<lparr>multi_thread_graph_gen := b\<rparr>) cfg cache inp = cached_graph env cfg cache inp"
  by (simp add: cached_graph_def split: option.split)

lemma graphs_with_cache_env:
  "graphs_with_cache (env\<lparr>multi_thread_graph_gen := b\<rparr>) cfg es cache = graphs_with_cache env cfg es cache"
  by (induction env cfg es cache rule: graphs_with_cache.induct) (simp_all cong: outcome.case_cong split: prod.splits)

text \<open>
  (C17) It makes no difference whether the peg-out graphs are generated in threads of their own or one
  after the other through the cache: for stake transactions that differ between the operators and a
  cache that holds only graphs of the operators' inputs, the setup message is answered with the same
  duties or the same failure, and leaves the same contract state and configuration.
\<close>

theorem graph_generation_modes_agree:
  assumes "the_state sm = Requested r"
    and "inputs = setup_graph_input op key hash stake wots (peg_out_graph_inputs r)"
    and "distinct (map stake_txid_of_input (bt_values inputs))"
    and "cache_coherent env (csm_cfg sm) (csm_pog sm) (bt_values inputs)"
  shows "snd (process_deposit_setup (env\<lparr>multi_thread_graph_gen := True\<rparr>) sm op key hash stake wots) =
           snd (process_deposit_setup (env\<lparr>multi_thread_graph_gen := False\<rparr>) sm op key hash stake wots) \<and>
         csm_state (fst (process_deposit_setup (env\<lparr>multi_thread_graph_gen := True\<rparr>) sm op key hash stake wots)) =
           csm_state (fst (process_deposit_setup (env\<lparr>multi_thread_graph_gen := False\<rparr>) sm op key hash stake wots))"
proof -
  have threads: "graphs_in_threads (env\<lparr>multi_thread_graph_gen := b\<rparr>) cfg es = graphs_in_threads env cfg es" for b cfg es
    by (simp add: graphs_in_threads_def)
  have duty: "nonces_duty (env\<lparr>multi_thread_graph_gen := b\<rparr>) = (nonces_duty env :: _ \<Rightarrow> (transition_err, _) outcome)" for b
    by (simp add: nonces_duty_def fun_eq_iff)
  have "map snd (bt_entries inputs) = bt_values inputs" by (simp add: bt_values_def)
  then have agree: "graphs_in_threads env (csm_cfg sm) (bt_entries inputs) =
      (map_outcome_ok fst (graphs_with_cache env (csm_cfg sm) (bt_entries inputs) (csm_pog sm)) :: (transition_err, _) outcome)"
    using graphs_modes_agree [of "bt_entries inputs"] assms(3,4) by simp
  show ?thesis
  proof (cases "graphs_with_cache env (csm_cfg sm) (bt_entries inputs) (csm_pog sm) :: (transition_err, _) outcome")
    case (Ok gc)
    obtain gs cache where "gc = (gs, cache)" by force
    with Ok agree show ?thesis
      using assms(1,2)
      by (cases "traverse (nonces_duty env) (map snd gs) :: (transition_err, _) outcome";
          cases "register_graphs env gs (r\<lparr>peg_out_graph_inputs := inputs\<rparr>) :: (transition_err, _) outcome")
         (simp_all add: process_deposit_setup_def generate_graphs_def Let_def threads graphs_with_cache_env duty
           register_graphs_env set_state_def)
  qed (use agree assms(1,2) in \<open>simp_all add: process_deposit_setup_def generate_graphs_def Let_def threads
      graphs_with_cache_env set_state_def\<close>)
qed

section \<open>The setup messages of all operators\<close>

lemma graphs_with_cache_ok:
  assumes "csm_env_ok env cfg" and "\<forall>id g. bt_get cache id = Some g \<longrightarrow> usable_graph env g"
  shows "\<exists>gs cache'. graphs_with_cache env cfg es cache = (Ok (gs, cache') :: (transition_err, _) outcome) \<and>
     (\<forall>kg \<in> set gs. usable_graph env (snd kg))"
  using assms(2)
proof (induction es arbitrary: cache)
  case (Cons e es)
  obtain k inp where e: "e = (k, inp)" by force
  obtain g where built: "build_graph env cfg inp = (Ok g :: (transition_err, _) outcome)" "usable_graph env g"
    using build_graph_ok [OF assms(1)] by blast
  have "\<exists>g cache'. cached_graph env cfg cache inp = (Ok (g, cache') :: (transition_err, _) outcome) \<and> usable_graph env g \<and>
      (\<forall>id g. bt_get cache' id = Some g \<longrightarrow> usable_graph env g)"
    using built Cons.prems by (cases "bt_get cache (op_txid (stake_outpoint inp))")
      (auto simp: cached_graph_def bt.get_insert)
  then obtain g cache' where g: "cached_graph env cfg cache inp = (Ok (g, cache') :: (transition_err, _) outcome)"
    "usable_graph env g" "\<forall>id g. bt_get cache' id = Some g \<longrightarrow> usable_graph env g" by blast
  from Cons.IH [OF g(3)] show ?case using g(1,2) by (auto simp: e)
qed simp

lemma generate_graphs_ok:
  assumes "csm_env_ok env (csm_cfg sm)" and "csm_pog sm = bt_empty"
  shows "\<exists>gs cache. generate_graphs env sm inputs = (Ok (gs, cache) :: (transition_err, _) outcome) \<and>
     (\<forall>kg \<in> set gs. usable_graph env (snd kg))"
proof (cases "multi_thread_graph_gen env")
  case True
  have "\<exists>gs. graphs_in_threads env (csm_cfg sm) es = (Ok gs :: (transition_err, _) outcome) \<and>
      (\<forall>kg \<in> set gs. usable_graph env (snd kg))" for es
  proof (induction es)
    case (Cons e es)
    obtain g where "build_graph env (csm_cfg sm) (snd e) = (Ok g :: (transition_err, _) outcome)" "usable_graph env g"
      using build_graph_ok [OF assms(1)] by blast
    then show ?case using Cons by (auto simp: graphs_in_threads_def case_prod_beta)
  qed (simp add: graphs_in_threads_def)
  then obtain gs where "graphs_in_threads env (csm_cfg sm) (bt_entries inputs) = (Ok gs :: (transition_err, _) outcome)"
    "\<forall>kg \<in> set gs. usable_graph env (snd kg)" by blast
  then show ?thesis using True by (auto simp: generate_graphs_def)
next
  case False
  then show ?thesis
    using graphs_with_cache_ok [OF assms(1), of "csm_pog sm"] assms(2) by (simp add: generate_graphs_def bt.get_empty)
qed

lemma register_graphs_total:
  assumes "\<forall>kg \<in> set gs. usable_graph env (snd kg)"
  shows "\<exists>r'. register_graphs env gs r = (Ok r' :: (transition_err, _) outcome) \<and>
     (\<forall>k. k \<in> fst ` set gs \<or> bt_get (req_claim_txids r) k \<noteq> None \<longrightarrow> bt_get (req_claim_txids r') k \<noteq> None)"
  using assms
proof (induction gs arbitrary: r)
  case (Cons kg gs)
  obtain k g where kg: "kg = (k, g)" by force
  obtain sum where sum: "summarize (graph_lib (bridge env)) g = Ok sum" using Cons.prems by (auto simp: kg usable_graph_def)
  let ?r = "r\<lparr>peg_out_graph_summaries := bt_insert (summary_claim_txid sum) sum (peg_out_graph_summaries r),
       req_claim_txids := bt_insert k (summary_claim_txid sum) (req_claim_txids r),
       graph_nonces := bt_insert (summary_claim_txid sum) bt_empty (graph_nonces r),
       graph_partials := bt_insert (summary_claim_txid sum) bt_empty (graph_partials r)\<rparr>"
  obtain r' where "register_graphs env gs ?r = (Ok r' :: (transition_err, _) outcome)"
    "\<forall>k. k \<in> fst ` set gs \<or> bt_get (req_claim_txids ?r) k \<noteq> None \<longrightarrow> bt_get (req_claim_txids r') k \<noteq> None"
    using Cons.IH [of ?r] Cons.prems by auto
  then show ?case using sum by (auto simp: kg Let_def bt.get_insert split: if_splits)
qed simp

lemma nonces_duties_ok:
  assumes "\<forall>kg \<in> set gs. usable_graph env (snd kg)"
  shows "\<exists>duties. traverse (nonces_duty env) (map snd gs) = (Ok duties :: (transition_err, _) outcome) \<and>
     length duties = length gs"
proof -
  have "\<exists>duties. traverse (nonces_duty env) (map snd gs) = (Ok duties :: (transition_err, _) outcome)"
    using assms by (induction gs) (auto simp: nonces_duty_def usable_graph_def)
  then show ?thesis using traverse_length by (metis length_map)
qed

definition setup_event ::
    "p2p_key \<times> xonly_key \<times> sha256_hash \<times> txid \<times> wots_public_keys \<Rightarrow> contract_event" where
  "setup_event = (\<lambda>(op, key, hash, stake, wots). DepositSetup op key hash stake wots)"

lemma setup_input_keys:
  "{k. bt_get (setup_graph_input op key hash stake wots inputs) k \<noteq> None} = insert op {k. bt_get inputs k \<noteq> None}"
  by (auto simp: setup_graph_input_def Let_def bt.get_insert)

lemma setups_pending:
  assumes "contract_sm_new cfg height abort_at = (Ok sm :: (transition_err, _) outcome)"
    and "distinct (map fst setups)" and "length setups < cardinality (cfg_operator_table cfg)"
  shows "\<exists>r. the_state (csm_run env sm (map setup_event setups)) = Requested r \<and>
     {k. bt_get (peg_out_graph_inputs r) k \<noteq> None} = fst ` set setups \<and>
     csm_pog (csm_run env sm (map setup_event setups)) = bt_empty"
  using assms(2,3)
proof (induction setups rule: rev_induct)
  case Nil
  then show ?case using assms(1) by (auto simp: contract_sm_new_def outcome_simps contract_state_new_def bt.get_empty)
next
  case (snoc x setups)
  obtain op key hash stake wots where x: "x = (op, key, hash, stake, wots)" by (metis prod_cases5)
  let ?sm = "csm_run env sm (map setup_event setups)"
  have cfg: "csm_cfg ?sm = cfg" by (rule csm_new_run(1) [OF assms(1)])
  obtain r where r: "the_state ?sm = Requested r" "{k. bt_get (peg_out_graph_inputs r) k \<noteq> None} = fst ` set setups"
    "csm_pog ?sm = bt_empty" using snoc by auto
  let ?inputs = "setup_graph_input op key hash stake wots (peg_out_graph_inputs r)"
  have keys: "{k. bt_get ?inputs k \<noteq> None} = fst ` set (setups @ [x])"
    unfolding setup_input_keys r(2) by (auto simp: x)
  then have "bt_len ?inputs = length (setups @ [x])"
    using snoc.prems(1) distinct_card [of "map fst (setups @ [x])"] by (simp add: bt.len_card)
  then have "bt_len ?inputs \<noteq> cardinality (cfg_operator_table cfg)" using snoc.prems(2) by simp
  then show ?case using r keys cfg
    by (simp add: x setup_event_def csm_step_def process_deposit_setup_def Let_def)
qed

lemma last_setup:
  assumes "csm_env_ok env (csm_cfg sm)" and "the_state sm = Requested r" and "csm_pog sm = bt_empty"
    and "inputs = setup_graph_input op key hash stake wots (peg_out_graph_inputs r)"
    and "bt_len inputs = cardinality (cfg_operator_table (csm_cfg sm))"
  shows "\<exists>r' duties. the_state (fst (process_deposit_setup env sm op key hash stake wots)) = Requested r' \<and>
     (\<forall>k. bt_get inputs k \<noteq> None \<longrightarrow> bt_get (req_claim_txids r') k \<noteq> None) \<and>
     snd (process_deposit_setup env sm op key hash stake wots) = Ok duties \<and> length duties = bt_len inputs"
proof -
  let ?r = "r\<lparr>peg_out_graph_inputs := inputs\<rparr>"
  let ?sm = "set_state sm (Requested ?r)"
  obtain gs cache where gs: "generate_graphs env ?sm inputs = (Ok (gs, cache) :: (transition_err, _) outcome)"
    and usable: "\<forall>kg \<in> set gs. usable_graph env (snd kg)"
    using generate_graphs_ok [of env ?sm inputs] assms(1,3) by auto
  have keys: "map fst gs = bt_keys inputs" by (rule generate_graphs_keys [OF gs])
  obtain duties where duties: "traverse (nonces_duty env) (map snd gs) = (Ok duties :: (transition_err, _) outcome)"
    "length duties = length gs" using nonces_duties_ok [OF usable] by blast
  obtain r' where r': "register_graphs env gs ?r = (Ok r' :: (transition_err, _) outcome)"
    "\<forall>k. k \<in> fst ` set gs \<or> bt_get (req_claim_txids ?r) k \<noteq> None \<longrightarrow> bt_get (req_claim_txids r') k \<noteq> None"
    using register_graphs_total [OF usable] by blast
  have "fst ` set gs = {k. bt_get inputs k \<noteq> None}" using keys bt_dom_keys by (metis set_map)
  moreover have "length gs = bt_len inputs" using arg_cong [OF keys, of length] by simp
  ultimately show ?thesis
    using assms(2,4,5) gs duties r' by (auto simp: process_deposit_setup_def Let_def)
qed

text \<open>
  (C16) The setup messages of all operators lead to signing sessions: when as many different operators
  as the table has have sent their setup data to a new contract, in any order, each of them has a
  registered claim with the summary of its graph and open sessions for nonces and partial signatures,
  and the last message is answered with one duty per operator to publish nonces.
\<close>

theorem setups_open_sessions:
  assumes "contract_sm_new cfg height abort_at = (Ok sm :: (transition_err, _) outcome)" and "csm_env_ok env cfg"
    and "distinct (map fst (setups @ [x]))" and "length (setups @ [x]) = cardinality (cfg_operator_table cfg)"
  shows "\<exists>r duties. the_state (csm_run env sm (map setup_event (setups @ [x]))) = Requested r \<and>
     snd (process_contract_event env (csm_run env sm (map setup_event setups)) (setup_event x)) = Ok duties \<and>
     length duties = length (setups @ [x]) \<and>
     (\<forall>op \<in> set (map fst (setups @ [x])). \<exists>claim sum. bt_get (req_claim_txids r) op = Some claim \<and>
        bt_get (peg_out_graph_summaries r) claim = Some sum \<and> summary_claim_txid sum = claim \<and>
        bt_get (graph_nonces r) claim \<noteq> None \<and> bt_get (graph_partials r) claim \<noteq> None)"
proof -
  obtain op key hash stake wots where x: "x = (op, key, hash, stake, wots)" by (metis prod_cases5)
  let ?sm = "csm_run env sm (map setup_event setups)"
  have cfg: "csm_cfg ?sm = cfg" by (rule csm_new_run(1) [OF assms(1)])
  obtain r where r: "the_state ?sm = Requested r" "{k. bt_get (peg_out_graph_inputs r) k \<noteq> None} = fst ` set setups"
    "csm_pog ?sm = bt_empty" using setups_pending [OF assms(1), of setups env] assms(3,4) by auto
  let ?inputs = "setup_graph_input op key hash stake wots (peg_out_graph_inputs r)"
  have keys: "{k. bt_get ?inputs k \<noteq> None} = fst ` set (setups @ [x])"
    unfolding setup_input_keys r(2) by (auto simp: x)
  then have len: "bt_len ?inputs = length (setups @ [x])"
    using assms(3) distinct_card [of "map fst (setups @ [x])"] by (simp add: bt.len_card)
  obtain r' duties where last: "the_state (fst (process_deposit_setup env ?sm op key hash stake wots)) = Requested r'"
    "\<forall>k. bt_get ?inputs k \<noteq> None \<longrightarrow> bt_get (req_claim_txids r') k \<noteq> None"
    "snd (process_deposit_setup env ?sm op key hash stake wots) = Ok duties" "length duties = bt_len ?inputs"
    using last_setup [OF _ r(1,3) refl, of env op key hash stake wots] assms(2,4) len unfolding cfg by auto
  have run: "the_state (csm_run env sm (map setup_event (setups @ [x]))) = Requested r'"
    using last(1) by (simp add: x setup_event_def csm_step_def)
  then have inv: "requested_ok r'"
    using csm_new_run(3) [OF assms(1), of env "map setup_event (setups @ [x])"] by simp
  have sessions: "\<exists>claim sum. bt_get (req_claim_txids r') op = Some claim \<and>
        bt_get (peg_out_graph_summaries r') claim = Some sum \<and> summary_claim_txid sum = claim \<and>
        bt_get (graph_nonces r') claim \<noteq> None \<and> bt_get (graph_partials r') claim \<noteq> None"
    if "op \<in> set (map fst (setups @ [x]))" for op
  proof -
    have "bt_get ?inputs op \<noteq> None" using keys that by auto
    then obtain claim where "bt_get (req_claim_txids r') op = Some claim" using last(2) by blast
    then show ?thesis using inv unfolding requested_ok_def by blast
  qed
  have "snd (process_contract_event env ?sm (setup_event x)) = Ok duties"
    using last(3) by (simp add: x setup_event_def)
  moreover have "length duties = length (setups @ [x])" using last(4) len by simp
  ultimately show ?thesis using run sessions by blast
qed

section \<open>The deposit\<close>

lemma collect_graphs_total:
  assumes "distinct (map fst es)" and "distinct (map snd es)"
    and "\<And>k c. (k, c) \<in> set es \<Longrightarrow> bt_get inputs k \<noteq> None \<and> bt_get summaries c \<noteq> None"
  shows "\<exists>gs. collect_graphs es inputs summaries = (Ok gs :: (transition_err, _) outcome)"
  using assms
proof (induction es arbitrary: inputs summaries)
  case (Cons e es)
  obtain k c where e: "e = (k, c)" by force
  have "bt_get (bt_remove k inputs) k' \<noteq> None \<and> bt_get (bt_remove c summaries) c' \<noteq> None" if "(k', c') \<in> set es" for k' c'
    using that Cons.prems(1,2) Cons.prems(3) [of k' c'] by (force simp: e bt.get_remove)
  then obtain gs where "collect_graphs es (bt_remove k inputs) (bt_remove c summaries) = (Ok gs :: (transition_err, _) outcome)"
    using Cons.IH Cons.prems(1,2) by fastforce
  then show ?case using Cons.prems(3) [of k c] by (auto simp: e)
qed simp

lemma collect_graphs_not_Err: "collect_graphs es inputs summaries \<noteq> Err e"
  by (induction es arbitrary: inputs summaries) (auto simp: outcome_simps)

lemma collected_graphs:
  assumes "requested_ok r" and "distinct (bt_values (req_claim_txids r))"
  shows "\<exists>gs. collect_graphs (bt_entries (req_claim_txids r)) (peg_out_graph_inputs r) (peg_out_graph_summaries r) =
       (Ok gs :: (transition_err, _) outcome) \<and>
     (\<forall>op claim. bt_get (req_claim_txids r) op = Some claim \<longrightarrow> (\<exists>inp sum. bt_get (bt_collect gs) claim = Some (inp, sum) \<and>
        bt_get (peg_out_graph_inputs r) op = Some inp \<and> bt_get (peg_out_graph_summaries r) claim = Some sum))"
proof -
  have "bt_get (peg_out_graph_inputs r) k \<noteq> None \<and> bt_get (peg_out_graph_summaries r) c \<noteq> None"
    if "(k, c) \<in> set (bt_entries (req_claim_txids r))" for k c
    using assms(1) that unfolding requested_ok_def bt_get_Some_iff [symmetric] by fastforce
  then obtain gs where gs: "collect_graphs (bt_entries (req_claim_txids r)) (peg_out_graph_inputs r)
      (peg_out_graph_summaries r) = (Ok gs :: (transition_err, _) outcome)"
    using collect_graphs_total [OF distinct_keys_entries] assms(2) unfolding bt_values_def by blast
  note spec = collect_graphs_spec [OF gs distinct_keys_entries]
  have "bt_get (bt_collect gs) claim = Some x" if "(claim, x) \<in> set gs" for claim x
    using spec that by (simp add: bt_get_collect_distinct)
  then show ?thesis using gs spec unfolding bt_get_Some_iff [of "req_claim_txids r"] by blast
qed

text \<open>
  The confirmation of the deposit transaction is accepted exactly when the claim transactions of
  the operators differ: then every operator's graph input and summary is kept under its claim, and
  otherwise the handler panics.
\<close>

theorem deposit_confirmation_exact:
  assumes "contract_sm_new cfg height abort_at = (Ok sm :: (transition_err, _) outcome)"
    and "the_state (csm_run env sm evs) = Requested r" and "tx_id env tx = cfg_deposit_txid env cfg"
  shows "snd (process_deposit_confirmation env (csm_run env sm evs) tx) =
       (if distinct (bt_values (req_claim_txids r)) then Ok None else Panic) \<and>
     (distinct (bt_values (req_claim_txids r)) \<longrightarrow>
       (\<exists>d. the_state (fst (process_deposit_confirmation env (csm_run env sm evs) tx)) = Deposited d \<and>
         dep_claim_txids d = req_claim_txids r \<and> dep_graph_sigs d = req_graph_sigs r \<and>
         (\<forall>op claim. bt_get (req_claim_txids r) op = Some claim \<longrightarrow>
           (\<exists>inp sum. bt_get (peg_out_graphs d) claim = Some (inp, sum) \<and>
             bt_get (peg_out_graph_inputs r) op = Some inp \<and> bt_get (peg_out_graph_summaries r) claim = Some sum))))"
proof -
  let ?sm = "csm_run env sm evs"
  note cfg = csm_new_run(1) [OF assms(1)]
  have ok: "requested_ok r" using csm_new_run(3) [OF assms(1), of env evs] assms(2) by simp
  let ?gs = "collect_graphs (bt_entries (req_claim_txids r)) (peg_out_graph_inputs r) (peg_out_graph_summaries r) ::
    (transition_err, _) outcome"
  show ?thesis
  proof (cases "distinct (bt_values (req_claim_txids r))")
    case True
    from collected_graphs [OF ok this] show ?thesis
      using assms(2,3) True cfg by (auto simp: process_deposit_confirmation_def)
  next
    case False
    then have "?gs \<noteq> Ok gs" for gs
      using collect_graphs_spec [OF _ distinct_keys_entries] unfolding bt_values_def by blast
    then have "?gs = Panic" by (cases ?gs) (auto simp: collect_graphs_not_Err)
    then show ?thesis using assms(2,3) False cfg by (simp add: process_deposit_confirmation_def)
  qed
qed

section \<open>An undisputed withdrawal\<close>

lemma deposit_and_assign:
  assumes "the_state sm = Requested r" and "requested_ok r" and "distinct (bt_values (req_claim_txids r))"
    and "csm_cfg sm = cfg" and "tx_id env deposit = cfg_deposit_txid env cfg"
    and "entry_idx entry = cfg_deposit_idx cfg" and "entry_deposit_state entry = Dispatched d"
    and "entry_withdrawal_request_txid entry = Some request" and "list_get (withdraw_destinations d) 0 = Some to"
    and "idx_to_p2p_key (cfg_operator_table cfg) (assignee d) = Some key"
    and "bt_get (req_claim_txids r) key = Some claim_id" and "bt_get (peg_out_graph_summaries r) claim_id = Some summary"
  shows "\<exists>a. the_state (csm_run env sm [DepositConfirmation deposit, Assignment entry stake h0]) =
       Assigned a to (exec_deadline d) h0 \<and>
     fulfiller a = assignee d \<and> act_withdrawal_request_txid a = request \<and> active_summary a = summary"
proof -
  obtain gs inp where gs: "collect_graphs (bt_entries (req_claim_txids r)) (peg_out_graph_inputs r)
      (peg_out_graph_summaries r) = (Ok gs :: (transition_err, _) outcome)" "bt_get (bt_collect gs) claim_id = Some (inp, summary)"
    using collected_graphs [OF assms(2,3)] assms(11,12) by fastforce
  then show ?thesis
    using assms by (simp add: csm_step_def process_deposit_confirmation_def process_assignment_def Let_def
        deposited_data.extend_def)
qed

lemma fulfill_claim_payout:
  assumes "the_state sm = Assigned a to until l1" and "csm_cfg sm = cfg"
    and "is_fulfillment_tx (bridge env) (cfg_graph_params cfg) (fulfiller a) (cfg_deposit_idx cfg)
       (cfg_deposit_txid env cfg) to fulfillment = (Ok True :: (transition_err, _) outcome)"
    and "tx_id env claim = summary_claim_txid (active_summary a)" and "claim_parse_witness env claim = Ok commitment"
    and "tx_id env payout = payout_optimistic_txid (active_summary a)"
    and "\<not> is_challenge (summary_claim_txid (active_summary a)) payout"
  shows "the_state (csm_run env sm [PegOutGraphConfirmation fulfillment h1, PegOutGraphConfirmation claim h2,
        PegOutGraphConfirmation payout h3]) =
     Resolved \<lparr>res_claim_txid = summary_claim_txid (active_summary a),
       res_withdrawal_request_txid = act_withdrawal_request_txid a, res_fulfillment_txid = tx_id env fulfillment,
       res_payout_txid = tx_id env payout, res_path = Optimistic\<rparr>"
proof -
  have "process_challenge_confirmation env sm' payout = (sm', Err (UnexpectedTx (tx_id env payout)))"
    if "the_state sm' = Claimed a c" for sm' c
    using that assms(7) by (simp add: process_challenge_confirmation_def)
  then show ?thesis
    using assms by (simp add: csm_step_def process_peg_out_graph_tx_confirmation_def process_fulfillment_confirmation_def
        process_claim_confirmation_def process_optimistic_payout_confirmation_def Let_def)
qed

text \<open>
  (C9) An undisputed withdrawal ends in the resolved state. From any state a new contract can reach
  before the deposit, with different claims for the operators: when the deposit is confirmed, the
  withdrawal is assigned to an operator with a registered graph, a transaction that pays the recipient
  on behalf of the operator is confirmed, then the claim of the operator's graph with a readable
  witness, and then its optimistic payout, the contract is resolved on the optimistic path with the
  identifiers of these transactions.
\<close>

theorem optimistic_withdrawal_completes:
  assumes "contract_sm_new cfg height abort_at = (Ok sm :: (transition_err, _) outcome)"
    and "the_state (csm_run env sm evs) = Requested r" and "distinct (bt_values (req_claim_txids r))"
    and "tx_id env deposit = cfg_deposit_txid env cfg"
    and "entry_idx entry = cfg_deposit_idx cfg" and "entry_deposit_state entry = Dispatched d"
    and "entry_withdrawal_request_txid entry = Some request" and "list_get (withdraw_destinations d) 0 = Some to"
    and "idx_to_p2p_key (cfg_operator_table cfg) (assignee d) = Some key"
    and "bt_get (req_claim_txids r) key = Some claim_id" and "bt_get (peg_out_graph_summaries r) claim_id = Some summary"
    and "is_fulfillment_tx (bridge env) (cfg_graph_params cfg) (assignee d) (cfg_deposit_idx cfg)
       (cfg_deposit_txid env cfg) to fulfillment = (Ok True :: (transition_err, _) outcome)"
    and "tx_id env claim = claim_id" and "claim_parse_witness env claim = Ok commitment"
    and "tx_id env payout = payout_optimistic_txid summary" and "\<not> is_challenge claim_id payout"
  shows "the_state (csm_run env (csm_run env sm evs)
       [DepositConfirmation deposit, Assignment entry stake h0, PegOutGraphConfirmation fulfillment h1,
        PegOutGraphConfirmation claim h2, PegOutGraphConfirmation payout h3]) =
     Resolved \<lparr>res_claim_txid = claim_id, res_withdrawal_request_txid = request,
       res_fulfillment_txid = tx_id env fulfillment, res_payout_txid = tx_id env payout, res_path = Optimistic\<rparr>"
proof -
  note cfg = csm_new_run(1) [OF assms(1)]
  have ok: "requested_ok r" using csm_new_run(3) [OF assms(1), of env evs] assms(2) by simp
  have id: "summary_claim_txid summary = claim_id" using ok assms(10,11) unfolding requested_ok_def by fastforce
  obtain a where a: "the_state (csm_run env (csm_run env sm evs) [DepositConfirmation deposit, Assignment entry stake h0]) =
       Assigned a to (exec_deadline d) h0"
     "fulfiller a = assignee d" "act_withdrawal_request_txid a = request" "active_summary a = summary"
    using deposit_and_assign [OF assms(2) ok assms(3) cfg assms(4-11)] by blast
  show ?thesis using fulfill_claim_payout [OF a(1), where cfg = cfg] assms(12-16) cfg id a(2-4) by simp
qed

end
