(* ===== verification/Contract_Safety.thy ===== *)
theory Contract_Safety
  imports Contract_Runs
begin

text \<open>
  What the contract state machine lets through and what it gives out: the transaction filter passes every
  transaction that can change a contract, the stored contributions have the shape of the graph, the
  deposit is published only with the contribution of every operator, the duties that depend on a timelock
  are given out exactly from the block on in which the timelock has expired; and the cases in which the
  handlers deviate from their documented behaviour.
\<close>

lemma or_return_Pair_iff:
  "or_return s x f = (s', y) \<longleftrightarrow> (\<exists>a. x = Ok a \<and> f a = (s', y)) \<or>
     (\<exists>e. x = Err e \<and> s' = s \<and> y = Err e) \<or> x = Panic \<and> s' = s \<and> y = Panic"
  by (cases x) auto

section \<open>The transaction filter\<close>

lemma active_in_summaries:
  assumes "active_ok t a" and "state_active s = Some a"
  shows "active_summary a \<in> set (state_summaries s)"
proof -
  have "active_graph a \<in> set (bt_values (peg_out_graphs a))"
    using assms(1) bt_get_in_values by (auto simp: active_ok_def)
  then show ?thesis using assms(2) by (cases s) (auto simp: deposited_data.truncate_def)
qed

lemma filter_mentions:
  assumes "g \<in> set (state_summaries (the_state sm))"
    and "summary_mentions env (cfg_deposit_txid env (csm_cfg sm)) tx g"
    and "\<And>a to by l1. the_state sm \<noteq> Assigned a to by l1"
  shows "transaction_filter env sm tx = Ok True"
  using assms by (cases "the_state sm") (auto simp: transaction_filter_def Let_def)

lemma any_fulfillment:
  assumes "op \<in> set ops"
    and "is_fulfillment_tx benv params op idx txid to tx = (Ok True :: (transition_err, _) outcome)"
  shows "any_outcome (\<lambda>op. is_fulfillment_tx benv params op idx txid to tx) ops = (Ok True :: (transition_err, _) outcome)"
proof -
  have "\<exists>b. is_fulfillment_tx benv params op' idx txid to tx = (Ok b :: (transition_err, _) outcome)" for op'
    using assms(2) by (auto simp: is_fulfillment_tx_def outcome_simps Let_def)
  then have total: "is_fulfillment_tx benv params op' idx txid to tx =
      (Ok (is_fulfillment_tx benv params op' idx txid to tx = (Ok True :: (transition_err, _) outcome)) :: (transition_err, _) outcome)" for op'
    by (metis (full_types))
  show ?thesis using assms(1)
  proof (induction ops)
    case (Cons op' ops)
    then show ?case using assms(2) total [of op']
      by (cases "is_fulfillment_tx benv params op' idx txid to tx = (Ok True :: (transition_err, _) outcome)") auto
  qed simp
qed

lemma fulfiller_in_table: "active_ok t a \<Longrightarrow> fulfiller a \<in> set (operator_idxs t)"
  by (auto simp: active_ok_def idx_to_p2p_key_def operator_idxs_def bt_keys_get)

lemma filter_passes_step:
  assumes "contract_step env (csm_cfg sm) (the_state sm) (PegOutGraphConfirmation tx height) s'" and "s' \<noteq> the_state sm"
    and "csm_inv sm"
  shows "transaction_filter env sm tx = (Ok True :: (transition_err, _) outcome)"
proof -
  let ?deposit = "cfg_deposit_txid env (csm_cfg sm)"
  have active: "active_ok (cfg_operator_table (csm_cfg sm)) a" if "state_active (the_state sm) = Some a" for a
    using state_ok_active that assms(3) by (auto simp: csm_inv_def)
  have mentioned: "transaction_filter env sm tx = (Ok True :: (transition_err, _) outcome)"
    if "state_active (the_state sm) = Some a" "summary_mentions env ?deposit tx (active_summary a)"
      "phase (the_state sm) \<noteq> 2" for a
    by (rule filter_mentions [OF active_in_summaries [OF active [OF that(1)] that(1)] that(2)]) (use that(3) in auto)
  show ?thesis using assms(1)
  proof cases
    case (fulfill a to deadline l1)
    have "any_outcome (\<lambda>op. is_fulfillment_tx (bridge env) (cfg_graph_params (csm_cfg sm)) op (cfg_deposit_idx (csm_cfg sm))
        ?deposit to tx) (operator_idxs (cfg_operator_table (csm_cfg sm))) = (Ok True :: (transition_err, _) outcome)"
      by (rule any_fulfillment [OF fulfiller_in_table [OF active] fulfill(3)]) (simp add: fulfill)
    then show ?thesis using fulfill(1) by (simp add: transaction_filter_def Let_def)
  next
    case (collect r r')
    then show ?thesis by (auto elim: requested_stepE)
  qed (use assms(2) in \<open>auto intro!: mentioned simp: summary_mentions_def Let_def\<close>)
qed

text \<open>
  (C10) The transaction filter passes every transaction that can change the contract: in any state that
  a new contract can reach, a transaction whose confirmation as part of a peg-out graph changes the
  contract state passes the filter, and so does the deposit transaction as soon as a peg-out graph is
  registered.
\<close>

theorem transaction_filter_complete:
  assumes "contract_sm_new cfg height abort_at = (Ok sm :: (transition_err, _) outcome)"
    and "the_state (csm_step env (csm_run env sm evs) ev) \<noteq> the_state (csm_run env sm evs)"
    and "ev = PegOutGraphConfirmation tx h \<or>
      ev = DepositConfirmation tx \<and> state_summaries (the_state (csm_run env sm evs)) \<noteq> []"
  shows "transaction_filter env (csm_run env sm evs) tx = (Ok True :: (transition_err, _) outcome)"
proof -
  let ?sm = "csm_run env sm evs"
  have inv: "csm_inv ?sm" by (rule csm_new_run(2) [OF assms(1)])
  note step = csm_step_step [of env ?sm ev]
  consider "ev = PegOutGraphConfirmation tx h" | "ev = DepositConfirmation tx" "state_summaries (the_state ?sm) \<noteq> []"
    using assms(3) by blast
  then show ?thesis
  proof cases
    case 1
    then show ?thesis using filter_passes_step [of env ?sm tx h] step assms(2) inv by blast
  next
    case 2
    then obtain g where g: "g \<in> set (state_summaries (the_state ?sm))" by (cases "state_summaries (the_state ?sm)") auto
    have "tx_id env tx = cfg_deposit_txid env (csm_cfg ?sm) \<and> phase (the_state ?sm) = 0"
      using step 2(1) assms(2) by (auto elim!: contract_stepE requested_stepE)
    then show ?thesis by (intro filter_mentions [OF g]) (auto simp: summary_mentions_def Let_def)
  qed
qed

section \<open>The stored contributions\<close>

definition sessions_wf :: "(txid, (p2p_key, 'a pog_musig_f) btree_map) btree_map \<Rightarrow> bool" where
  "sessions_wf sessions \<longleftrightarrow>
     (\<forall>claim session signer x. bt_get sessions claim = Some session \<longrightarrow> bt_get session signer = Some x \<longrightarrow> pog_wf x)"

text \<open>
  The arrays of the stored contributions have their lengths, and the partial signatures of the deposit
  come from operators of the table.
\<close>

definition requested_typed :: "operator_table \<Rightarrow> requested_data \<Rightarrow> bool" where
  "requested_typed t r \<longleftrightarrow> sessions_wf (graph_nonces r) \<and> sessions_wf (graph_partials r) \<and>
     (\<forall>claim x. bt_get (agg_nonces r) claim = Some x \<longrightarrow> pog_wf x) \<and>
     (\<forall>signer sig. bt_get (root_partials r) signer = Some sig \<longrightarrow> p2p_key_to_btc_key t signer \<noteq> None)"

definition csm_typed :: "contract_sm \<Rightarrow> bool" where
  "csm_typed sm \<longleftrightarrow>
     (case the_state sm of Requested r \<Rightarrow> requested_typed (cfg_operator_table (csm_cfg sm)) r | _ \<Rightarrow> True)"

lemma sessions_wf_insert:
  "sessions_wf sessions \<Longrightarrow> bt_get sessions claim = Some session \<Longrightarrow> pog_wf x \<Longrightarrow>
   sessions_wf (bt_insert claim (bt_insert signer x session) sessions)"
  by (auto simp: sessions_wf_def bt.get_insert split: if_splits)

lemma sequence_pog_wf: "\<forall>g \<in> set gs. pog_wf g \<Longrightarrow> pog_wf (sequence_pog_musig_f gs)"
  unfolding sequence_pog_musig_f_def using sequence_fold [OF pack_sequence_init(2)] by blast

lemma aggregate_nonces_wf:
  "sessions_wf nonces \<Longrightarrow> bt_get (aggregate_nonces env nonces) claim = Some x \<Longrightarrow> pog_wf x"
  by (auto simp: aggregate_nonces_def sessions_wf_def dest!: bt_values_get intro!: sequence_pog_wf)

lemma register_graphs_typed:
  assumes "register_graphs env graphs r = (Ok r' :: (transition_err, _) outcome)" and "requested_typed t r"
  shows "requested_typed t r'"
  using assms
proof (induction graphs arbitrary: r)
  case (Cons kg graphs)
  have empty: "sessions_wf sessions \<Longrightarrow> sessions_wf (bt_insert c bt_empty sessions)"
    for c and sessions :: "(txid, (p2p_key, 'a pog_musig_f) btree_map) btree_map"
    by (auto simp: sessions_wf_def bt.get_insert bt.get_empty split: if_splits)
  obtain sum where rest: "register_graphs env graphs (r\<lparr>peg_out_graph_summaries := bt_insert (summary_claim_txid sum) sum (peg_out_graph_summaries r),
       req_claim_txids := bt_insert (fst kg) (summary_claim_txid sum) (req_claim_txids r),
       graph_nonces := bt_insert (summary_claim_txid sum) bt_empty (graph_nonces r),
       graph_partials := bt_insert (summary_claim_txid sum) bt_empty (graph_partials r)\<rparr>) = (Ok r' :: (transition_err, _) outcome)"
    using Cons.prems(1) by (cases kg) (auto simp: outcome_simps Let_def)
  show ?case
    by (rule Cons.IH [OF rest]) (use Cons.prems(2) empty in \<open>simp add: requested_typed_def sessions_wf_def bt.get_insert bt.get_empty\<close>)
qed simp

lemma requested_step_typed:
  assumes "requested_step env cfg r ev r'" and "requested_typed (cfg_operator_table cfg) r"
  shows "requested_typed (cfg_operator_table cfg) r'"
  using assms
proof cases
  case (setup_graphs inputs op key hash stake wots graphs)
  show ?thesis by (rule register_graphs_typed [OF setup_graphs(5)]) (use assms(2) in \<open>simp add: requested_typed_def\<close>)
next
  case (nonces packed ns claim session signer all aggs)
  have "sessions_wf all"
    using assms(2) nonces by (auto simp: requested_typed_def unpack_Some_iff intro!: sessions_wf_insert)
  then show ?thesis using assms(2) nonces aggregate_nonces_wf by (auto simp: requested_typed_def)
next
  case (partials packed ps claim session signer g all sigs)
  then show ?thesis
    using assms(2) by (auto simp: requested_typed_def unpack_Some_iff intro!: sessions_wf_insert)
next
  case (root_partial signer nonce key ctx sig hash)
  then show ?thesis using assms(2) by (auto simp: requested_typed_def bt.get_insert split: if_splits)
qed (use assms(2) in \<open>auto simp: requested_typed_def\<close>)

interpretation csm_type: invariant_machine csm_init "csm_step env" csm_typed for env
proof unfold_locales
  fix sm assume "csm_init sm"
  then show "csm_typed sm"
    by (auto simp: csm_init_def contract_sm_new_def outcome_simps csm_typed_def contract_state_new_def
        requested_typed_def sessions_wf_def bt.get_empty)
next
  fix sm ev assume typed: "csm_typed sm"
  from csm_step_step [of env sm ev] show "csm_typed (csm_step env sm ev)"
    by cases (use typed requested_step_typed in \<open>auto simp: csm_typed_def split: contract_state.splits\<close>)
qed

lemma csm_new_typed:
  assumes "contract_sm_new cfg height abort_at = (Ok sm :: (transition_err, _) outcome)"
    and "the_state (csm_run env sm evs) = Requested r"
  shows "requested_typed (cfg_operator_table cfg) r"
proof -
  have "csm_init sm" using assms(1) by (auto simp: csm_init_def)
  from csm_type.inv_reachable [OF this, of env evs] show ?thesis
    using assms(2) csm_new_run(1) [OF assms(1)] by (simp add: csm_typed_def flip: csm_run_def)
qed


section \<open>The deposit transaction\<close>

lemma table_p2p_keys:
  assumes "operator_table_wf t"
  shows "card {p. p2p_key_to_btc_key t p \<noteq> None} = cardinality t"
proof -
  have lookups: "\<And>i p. idx_to_p2p_key t i = Some p \<Longrightarrow> p2p_key_to_idx t p = Some i"
    "\<And>i p. p2p_key_to_idx t p = Some i \<Longrightarrow> idx_to_p2p_key t i = Some p"
    using wf_lookups(1) [OF assms] by blast+
  have "bij_betw (\<lambda>i. the (idx_to_p2p_key t i)) {i. idx_to_p2p_key t i \<noteq> None} {p. p2p_key_to_idx t p \<noteq> None}"
    by (rule bij_betw_byWitness [where f' = "\<lambda>p. the (p2p_key_to_idx t p)"])
       (force dest: lookups(1) | force dest: lookups(2))+
  from bij_betw_same_card [OF this] show ?thesis
    by (simp add: cardinality_def bt.len_card idx_to_p2p_key_def p2p_key_to_idx_def p2p_key_to_btc_key_def)
qed

lemma finite_table_p2p_keys: "finite {p. p2p_key_to_btc_key t p \<noteq> None}"
  using bt.finite_dom [of "p2p_map t"] by (simp add: p2p_key_to_btc_key_def)

lemma in_key_order_all:
  assumes "operator_table_wf t" and "\<And>p. p2p_key_to_btc_key t p \<noteq> None \<Longrightarrow> bt_get m p \<noteq> None"
  shows "length (in_key_order t m) = cardinality t"
proof -
  obtain E where E: "describes t E" using assms(1) by (auto simp: operator_table_wf_def)
  have "Option.bind (btc_key_to_p2p_key t key) (bt_get m) \<noteq> None" if key: "key \<in> set (btc_keys t)" for key
  proof -
    obtain i p where "bt_get (idx_key t) i = Some (p, key)"
      using key by (auto simp: btc_keys_def bt_set_values)
    then have "btc_key_to_p2p_key t key = Some p" "p2p_key_to_btc_key t p = Some key"
      using E by (auto simp: describes_def btc_key_to_p2p_key_def p2p_key_to_btc_key_def)
    then show ?thesis using assms(2) [of p] by simp
  qed
  then have "length (List.map_filter (\<lambda>key. Option.bind (btc_key_to_p2p_key t key) (bt_get m)) (btc_keys t)) =
      length (btc_keys t)"
    by (simp add: List.map_filter_def filter_id_conv [THEN iffD2])
  then show ?thesis by (simp add: in_key_order_def btc_keys_def cardinality_def)
qed

text \<open>
  (C12) The deposit transaction is published only with everybody's consent: when a root signature makes
  a reachable contract give out the duty to publish the deposit, every operator of the table has
  contributed a partial signature, and the duty carries one partial signature per operator.
\<close>

theorem deposit_published_by_all:
  assumes "contract_sm_new cfg height abort_at = (Ok sm :: (transition_err, _) outcome)"
    and "operator_table_wf (cfg_operator_table cfg)"
    and "process_contract_event env (csm_run env sm evs) (RootSig signer sig) = (sm', Ok [PublishDeposit tx partials agg])"
  shows "tx = cfg_deposit_tx cfg \<and> length partials = cardinality (cfg_operator_table cfg) \<and>
     (\<exists>r. the_state sm' = Requested r \<and>
       (\<forall>op key. p2p_key_to_btc_key (cfg_operator_table cfg) op = Some key \<longrightarrow> bt_get (root_partials r) op \<noteq> None))"
proof -
  let ?sm = "csm_run env sm evs" and ?t = "cfg_operator_table cfg"
  have duty: "process_root_signature env ?sm signer sig = (sm', Ok (Some (PublishDeposit tx partials agg)))"
    using assms(3) by (cases "process_root_signature env ?sm signer sig")
      (auto simp: duty_list_def outcome_simps split: option.splits)
  have sm': "sm' = csm_run env sm (evs @ [RootSig signer sig])" using assms(3) by (simp add: csm_step_def)
  note cfg = csm_new_run(1) [OF assms(1)]
  obtain r where r: "the_state sm' = Requested r" "bt_len (root_partials r) = cardinality ?t"
    "tx = cfg_deposit_tx cfg" "partials = in_key_order ?t (root_partials r)"
    using duty cfg by (auto simp: process_root_signature_def Let_def repeated_def or_return_Pair_iff outcome_simps
        split: contract_state.splits option.splits if_splits)
  have typed: "requested_typed ?t r" by (rule csm_new_typed [OF assms(1) r(1) [unfolded sm']])
  have all: "bt_get (root_partials r) op \<noteq> None" if "p2p_key_to_btc_key ?t op \<noteq> None" for op
    by (rule bt.all_keys_if_len [OF finite_table_p2p_keys, of _ ?t])
       (use typed that r(2) table_p2p_keys [OF assms(2)] in \<open>auto simp: requested_typed_def\<close>)
  then show ?thesis using r in_key_order_all [OF assms(2)] by auto
qed

section \<open>Duties that wait for a timelock\<close>

text \<open>The height at which the timelock of a state started, and its length.\<close>

fun timelock :: "contract_cfg \<Rightarrow> contract_state \<Rightarrow> (block_height \<times> u32) option" where
  "timelock cfg (Claimed a c) = Some (claim_height c, param_payout_optimistic_timelock (cfg_connector_params cfg))"
| "timelock cfg (Challenged a c) = Some (claim_height c, param_pre_assert_timelock (cfg_connector_params cfg))"
| "timelock cfg (Asserted a h _ _ _) = Some (h, param_payout_timelock (cfg_connector_params cfg))"
| "timelock cfg _ = None"

lemma add_u64_ok: "unat a + unat b < 2 ^ 64 \<Longrightarrow> add_u64 env a b = Ok (a + b)"
  by (simp add: add_u64_def)

lemma unat_add_u64: "unat (a :: u64) + unat b < 2 ^ 64 \<Longrightarrow> unat (a + b) = unat a + unat b"
  by (simp add: unat_plus_if')

lemma unat_u32_as_u64: "unat (ucast (w :: u32) :: u64) = unat w"
  by transfer (simp add: take_bit_eq_mod)

lemma after_timelock_exact:
  assumes "unat start + unat delay < 2 ^ 64"
  shows "after_timelock env sm a start delay duty =
     (if unat start + unat delay \<le> unat (the_height sm) \<and> fulfiller a = pov_idx (cfg_operator_table (csm_cfg sm))
      then map_outcome_ok (\<lambda>d. Some (FulfillerDuty d)) duty else Ok None)"
proof -
  have sum: "unat start + unat (ucast delay :: u64) < 2 ^ 64" using assms by (simp add: unat_u32_as_u64)
  have "start + ucast delay \<le> the_height sm \<longleftrightarrow> unat start + unat delay \<le> unat (the_height sm)"
    unfolding word_le_nat_alt unat_add_u64 [OF sum] by (simp add: unat_u32_as_u64)
  then show ?thesis by (simp add: after_timelock_def add_u64_ok [OF sum])
qed


section \<open>Deviations\<close>

text \<open>
  A block whose handling fails is consumed all the same: when the timelock of a claimed, challenged
  or asserted contract of this operator has expired and the signatures of its graph are missing, the
  block is answered with an error, but the machine has moved to its height, so that the same block is
  rejected when it is delivered again.
\<close>

theorem failed_block_is_consumed:
  assumes "timelock (csm_cfg sm) (the_state sm) = Some (start, delay)" and "state_active (the_state sm) = Some a"
    and "height = the_height sm + 1" and "unat (the_height sm) + 2 < 2 ^ 64" and "unat start + unat delay \<le> unat height"
    and "fulfiller a = pov_idx (cfg_operator_table (csm_cfg sm))"
    and "bt_get (dep_graph_sigs a) (summary_claim_txid (active_summary a)) = None"
  shows "snd (process_contract_event env sm (Block height)) = Err (GraphSigsMissing (summary_claim_txid (active_summary a))) \<and>
     the_height (csm_step env sm (Block height)) = height \<and>
     snd (process_contract_event env (csm_step env sm (Block height)) (Block height)) = Err (UnexpectedBlock height)"
proof -
  have sigs: "graph_sigs_of a = Err (GraphSigsMissing (summary_claim_txid (active_summary a)))"
    using assms(7) by (simp add: graph_sigs_of_def Let_def)
  have height: "unat height = unat (the_height sm) + 1" using assms(3,4) unat_add_u64 [of "the_height sm" 1] by simp
  then have "unat start + unat delay < 2 ^ 64" using assms(4,5) by simp
  note lock = after_timelock_exact [OF this]
  have add: "add_u64 env (the_height sm) 1 = (Ok height :: (transition_err, _) outcome)" using add_u64_ok [of "the_height sm" 1] assms(3,4) by simp
  have again: "add_u64 env height 1 = (Ok (height + 1) :: (transition_err, _) outcome)" by (rule add_u64_ok) (use height assms(4) in simp)
  have "the_height (csm_step env sm (Block height)) = height"
    using assms(1) by (cases "the_state sm") (auto simp: csm_step_def notify_new_block_def Let_def add)
  then show ?thesis using assms(1,2,5,6)
    by (cases "the_state sm") (auto simp: notify_new_block_def Let_def add again duty_list_def lock sigs)
qed

text \<open>
  (C40) Who is asked to verify: after an accepted claim every operator except the claimant gets the duty
  to verify the claim, but after an accepted assertion it is the asserting operator alone who gets the
  duty to verify the assertion; nobody else is asked to look for a disproof.
\<close>

theorem verification_duties:
  assumes "snd (process_contract_event env sm (PegOutGraphConfirmation tx h)) = Ok duties"
    and "the_state sm = Fulfilled a f h1 l1 \<or> the_state sm = AssertDataConfirmed a f w txs"
  shows "(the_state sm = Fulfilled a f h1 l1 \<longrightarrow>
       duties = (if fulfiller a \<noteq> pov_idx (cfg_operator_table (csm_cfg sm)) then [VerifierDuty VerifyClaim] else [])) \<and>
     (the_state sm = AssertDataConfirmed a f w txs \<longrightarrow>
       duties = (if fulfiller a = pov_idx (cfg_operator_table (csm_cfg sm)) then [VerifierDuty VerifyAssertion] else []))"
proof -
  have ok: "snd (or_return s x f) = Ok b \<longleftrightarrow> (\<exists>a. x = Ok a \<and> snd (f a) = Ok b)" for s x b
    and f :: "'b \<Rightarrow> 'c \<times> (transition_err, operator_duty option) outcome"
    by (cases x) auto
  from assms(2) show ?thesis
  proof
    assume "the_state sm = Fulfilled a f h1 l1"
    then show ?thesis using assms(1)
      by (simp add: process_peg_out_graph_tx_confirmation_def process_claim_confirmation_def Let_def duty_list_def
          outcome_simps ok split: if_splits)
  next
    assume "the_state sm = AssertDataConfirmed a f w txs"
    then show ?thesis using assms(1)
      by (simp add: process_peg_out_graph_tx_confirmation_def process_post_assert_confirmation_def duty_list_def
          outcome_simps ok split: if_splits)
  qed
qed

text \<open>
  A partial signature for the deposit is accepted before the nonces of all operators are known: it
  is checked against the sum of the nonces received so far and stored, and a later signature of the same
  operator, made with the complete set of nonces, does not replace it.
\<close>

theorem root_signature_accepted_early:
  assumes "the_state sm = Requested r" and "bt_len (root_nonces r) < cardinality (cfg_operator_table (csm_cfg sm))"
    and "bt_get (root_partials r) signer = None" and "bt_get (root_nonces r) signer = Some nonce"
    and "p2p_key_to_btc_key (cfg_operator_table (csm_cfg sm)) signer = Some key"
    and "list_get (ct_witnesses (cfg_deposit_tx (csm_cfg sm))) 0 = Some w"
    and "create_agg_ctx (bridge env) (btc_keys (cfg_operator_table (csm_cfg sm))) w = Some ctx"
    and "deposit_sighash env (csm_cfg sm) = (Ok hash :: (transition_err, _) outcome)"
    and "verify_partial (bridge env) ctx sig (agg_nonce_sum (bridge env) (bt_values (root_nonces r))) key nonce hash"
  shows "\<exists>r'. the_state (csm_step env sm (RootSig signer sig)) = Requested r' \<and> bt_get (root_partials r') signer = Some sig \<and>
     the_state (csm_run env sm (RootSig signer sig # map (\<lambda>(op, n). RootNonce op n) nonces @ [RootSig signer sig'])) =
       the_state (csm_run env sm (RootSig signer sig # map (\<lambda>(op, n). RootNonce op n) nonces))"
proof -
  let ?sm = "csm_step env sm (RootSig signer sig)"
  have stored: "the_state ?sm = Requested (r\<lparr>root_partials := bt_insert signer sig (root_partials r)\<rparr>)"
    using assms by (simp add: csm_step_def process_root_signature_def Let_def)
  have nonce: "\<exists>r. the_state (csm_step env sm (RootNonce op n)) = Requested r \<and> bt_get (root_partials r) signer = Some sig"
    if "the_state sm = Requested r" "bt_get (root_partials r) signer = Some sig" for sm r op n
    using csm_step_step [of env sm "RootNonce op n"] that
    by (auto elim!: contract_stepE requested_stepE simp: contract_state.split_sels)
  have "\<exists>r. the_state (csm_run env ?sm (map (\<lambda>(op, n). RootNonce op n) nonces)) = Requested r \<and>
      bt_get (root_partials r) signer = Some sig"
  proof (induction nonces rule: rev_induct)
    case (snoc x nonces)
    then show ?case using nonce by (cases x) auto
  qed (simp add: stored bt.get_insert)
  then have "the_state (csm_step env (csm_run env ?sm (map (\<lambda>(op, n). RootNonce op n) nonces)) (RootSig signer sig')) =
      the_state (csm_run env ?sm (map (\<lambda>(op, n). RootNonce op n) nonces))"
    by (auto simp: csm_step_def process_root_signature_def Let_def repeated_def)
  then show ?thesis using stored by (simp add: bt.get_insert csm_run_def)
qed

end
