(* ===== verification/Contract_Dispute.thy ===== *)
theory Contract_Dispute
  imports Contract_Progress Contract_Safety "HOL-Library.Multiset"
begin

text \<open>
  A disputed withdrawal: the assertion in its 39 assert-data transactions, which may be confirmed in any
  order, the assertion's commitments, and the payout of the operator who is not disproved.
\<close>

section \<open>The assert-data transactions\<close>

abbreviation assert_confirmation :: "block_height \<Rightarrow> transaction \<Rightarrow> contract_event" where
  "assert_confirmation h tx \<equiv> PegOutGraphConfirmation tx h"

definition stored_txs :: "csm_env \<Rightarrow> transaction list \<Rightarrow> (txid, transaction) btree_map" where
  "stored_txs env data = bt_collect (map (\<lambda>tx. (tx_id env tx, tx)) data)"

lemma stored_txs_snoc: "stored_txs env (data @ [tx]) = bt_insert (tx_id env tx) tx (stored_txs env data)"
  by (simp add: stored_txs_def bt_collect_def)

lemma stored_txs_get:
  "distinct (map (tx_id env) data) \<Longrightarrow> tx \<in> set data \<Longrightarrow> bt_get (stored_txs env data) (tx_id env tx) = Some tx"
  unfolding stored_txs_def by (subst bt_get_collect_distinct) (auto simp: comp_def)

lemma stored_txs_len: "distinct (map (tx_id env) data) \<Longrightarrow> bt_len (stored_txs env data) = length data"
  unfolding stored_txs_def by (subst bt_len_collect_distinct) (auto simp: comp_def)

lemma assert_data_collected:
  assumes "the_state sm = PreAssertConfirmed a c bt_empty" and "distinct (map (tx_id env) data)"
    and "tx_id env ` set data \<subseteq> set (summary_assert_data_txids (active_summary a))" and "length data < num_assert_data_tx"
  shows "the_state (csm_run env sm (map (assert_confirmation h) data)) = PreAssertConfirmed a c (stored_txs env data)"
  using assms(2-4)
proof (induction data rule: rev_induct)
  case Nil
  then show ?case using assms(1) by (simp add: stored_txs_def bt_collect_def)
next
  case (snoc tx data)
  have "bt_len (stored_txs env (data @ [tx])) < num_assert_data_tx"
    using stored_txs_len [OF snoc.prems(1)] snoc.prems(3) by simp
  then show ?case using snoc
    by (simp add: csm_step_def process_peg_out_graph_tx_confirmation_def process_assert_data_confirmation_def Let_def
        stored_txs_snoc)
qed

lemma assert_data_complete:
  assumes "the_state sm = PreAssertConfirmed a c bt_empty" and "distinct (map (tx_id env) data)"
    and "tx_id env ` set data \<subseteq> set (summary_assert_data_txids (active_summary a))" and "length data = num_assert_data_tx"
    and "bt_get (dep_graph_sigs a) (summary_claim_txid (active_summary a)) \<noteq> None"
  shows "the_state (csm_run env sm (map (assert_confirmation h) data)) =
     AssertDataConfirmed a (cl_fulfillment_txid c) (cl_fulfillment_commitment c) (stored_txs env data)"
proof -
  obtain first tx where data: "data = first @ [tx]"
    using assms(4) by (cases data rule: rev_cases) (auto simp: num_assert_data_tx_def)
  obtain sigs where sigs: "graph_sigs_of a = Ok sigs" using assms(5) by (auto simp: graph_sigs_of_def Let_def)
  have "the_state (csm_run env sm (map (assert_confirmation h) first)) = PreAssertConfirmed a c (stored_txs env first)"
    by (rule assert_data_collected [OF assms(1)]) (use assms(2-4) data in auto)
  moreover have "\<not> bt_len (bt_insert (tx_id env tx) tx (stored_txs env first)) < num_assert_data_tx"
    using stored_txs_len [OF assms(2)] assms(4) by (simp add: data stored_txs_snoc)
  ultimately show ?thesis using assms(3) sigs
    by (simp add: data csm_step_def process_peg_out_graph_tx_confirmation_def process_assert_data_confirmation_def Let_def
        stored_txs_snoc)
qed

lemma post_assert_accepted:
  assumes "the_state sm = AssertDataConfirmed a f w (stored_txs env delivered)"
    and "distinct (map (tx_id env) delivered)" and "mset delivered = mset data" and "length data = num_assert_data_tx"
    and "map (tx_id env) data = summary_assert_data_txids (active_summary a)"
    and "assert_data_parse_witnesses env data = Ok proof_commitment"
    and "tx_id env post = post_assert_txid (active_summary a)"
  shows "process_contract_event env sm (PegOutGraphConfirmation post h) =
     (set_state sm (Asserted a h f w proof_commitment),
      Ok (if fulfiller a = pov_idx (cfg_operator_table (csm_cfg sm)) then [VerifierDuty VerifyAssertion] else []))"
proof -
  have same: "set delivered = set data" "length delivered = length data"
    using assms(3) mset_eq_setD mset_eq_length by blast+
  have "traverse (\<lambda>txid. ok_or (AssertDataMissing txid) (bt_get (stored_txs env delivered) txid))
      (summary_assert_data_txids (active_summary a)) = Ok data"
    using stored_txs_get [OF assms(2)] same(1) assms(5) [symmetric] by (simp add: traverse_map_Ok_iff outcome_simps)
  then show ?thesis
    using assms(1,4,6,7) stored_txs_len [OF assms(2)] same(2)
    by (simp add: process_peg_out_graph_tx_confirmation_def process_post_assert_confirmation_def duty_list_def)
qed


end
