(* ===== verification/Contract_Examples.thy ===== *)
theory Contract_Examples
  imports Contract_Dispute
begin

text \<open>
  A contract of a single operator, followed from its setup to its resolution in an example environment,
  and the instances of the theorems on the contract state machine at this and at other concrete contracts.
\<close>

section \<open>The contract\<close>

definition solo_table :: operator_table where
  "solo_table = \<lparr>pov = 0, idx_key = bt_insert 0 ([1], 5) bt_empty, p2p_map = bt_insert [1] (0, 5) bt_empty,
     btc_map = bt_insert 5 (0, [1]) bt_empty\<rparr>"

lemma solo_table_new: "operator_table_new [(0, [1], 5)] (select_idx 0) = Some solo_table"
  by (simp add: operator_table_new_def select_idx_def solo_table_def)

definition plain_in :: tx_in where
  "plain_in = example_signed_in []"

definition sample_tx :: "nat \<Rightarrow> nat \<Rightarrow> transaction" where
  "sample_tx n m = \<lparr>tx_version = 2, lock_time = 0, tx_input = replicate n plain_in,
     tx_output = replicate m \<lparr>txout_value = 0, script_pubkey = []\<rparr>\<rparr>"

definition solo_deposit :: covenant_tx where
  "solo_deposit = built_ct (sample_tx 1 1) SighashDefault [\<lparr>txout_value = 0, script_pubkey = []\<rparr>] [WitnessKey]"

definition contract_cfg_of :: "operator_table \<Rightarrow> contract_cfg" where
  "contract_cfg_of t = \<lparr>cfg_operator_table = t, cfg_connector_params = example_connector_params,
     cfg_graph_params = example_graph_params, cfg_stake_chain_params = example_stake_params,
     cfg_deposit_idx = 2, cfg_deposit_tx = solo_deposit\<rparr>"

lemma contract_cfg_of_simps [simp]:
  "cfg_operator_table (contract_cfg_of t) = t" "cfg_connector_params (contract_cfg_of t) = example_connector_params"
  "cfg_graph_params (contract_cfg_of t) = example_graph_params" "cfg_deposit_idx (contract_cfg_of t) = 2"
  "cfg_stake_chain_params (contract_cfg_of t) = example_stake_params" "cfg_deposit_tx (contract_cfg_of t) = solo_deposit"
  by (simp_all add: contract_cfg_of_def)

definition contract_of :: "operator_table \<Rightarrow> contract_sm" where
  "contract_of t = \<lparr>csm_cfg = contract_cfg_of t,
     csm_state = \<lparr>block_height_of = 10, contract_state_of = contract_state_new 1 20\<rparr>, csm_pog = bt_empty\<rparr>"

lemma contract_of_new: "contract_sm_new (contract_cfg_of t) 10 20 = (Ok (contract_of t) :: (transition_err, _) outcome)"
  by (simp add: contract_sm_new_def cfg_deposit_request_txid_def contract_of_def solo_deposit_def
      sample_tx_def plain_in_def example_signed_in_def)

lemma example_tx_id:
  "tx_id example_csm_env tx = of_nat (length (tx_input tx) + 100 * length (tx_output tx))"
  by (simp add: example_csm_env_def example_bridge_env_def example_env_def btc_env.truncate_def)

lemma solo_deposit_txid: "cfg_deposit_txid example_csm_env (contract_cfg_of t) = 101"
  by (simp add: cfg_deposit_txid_def ct_txid_def solo_deposit_def sample_tx_def example_csm_env_def
      example_bridge_env_def example_env_def)

lemma solo_env_ok: "csm_env_ok example_csm_env (contract_cfg_of t)"
  using example_env_ok example_params_ok example_tapscripts
  by (simp add: csm_env_ok_def example_csm_env_def example_bridge_env_def)

section \<open>Setup\<close>

lemma example_graph:
  assumes "build_graph example_csm_env (contract_cfg_of t) inp = (Ok g :: (transition_err, _) outcome)"
    and "summarize (graph_lib (bridge example_csm_env)) g = Ok s"
  shows "summary_claim_txid s = 401" and "payout_optimistic_txid s = 205"
proof -
  have env: "graph_lib (bridge example_csm_env) = example_env" by (simp add: example_csm_env_def example_bridge_env_def)
  obtain ctx cs where "peg_out_graph_generate example_env inp ctx (cfg_deposit_txid example_csm_env (contract_cfg_of t))
     (cfg_graph_params (contract_cfg_of t)) (cfg_connector_params (contract_cfg_of t))
     (cfg_stake_chain_params (contract_cfg_of t)) [] = Ok (g, cs)"
    using build_graphD [OF assms(1)] unfolding env by blast
  note gen = peg_out_graph_generateD [OF this]
  have "env_compute_txid example_env (unsigned_tx (claim_psbt (pog_claim_tx g))) = 401"
    by (rule claim_tx_newD [OF gen(2) example_dust_ok]) (simp add: example_env_def create_tx_ins_def)
  then show "summary_claim_txid s = 401"
    using assms(2) by (auto simp: env summarize_def claim_txid_def outcome_simps)
  have "env_compute_txid example_env (ct_tx (pog_payout_optimistic_tx g)) = 205"
    by (rule payout_optimistic_tx_newD [OF gen(4) example_dust_ok])
       (drule arg_cong [where f = length], simp add: example_env_def)
  then show "payout_optimistic_txid s = 205"
    using assms(2) by (auto simp: env summarize_def ct_txid_def outcome_simps)
qed

definition solo_setup :: contract_event where
  "solo_setup = DepositSetup [1] 4 3 7 example_wots"

lemma solo_after_setup:
  "\<exists>r s. the_state (csm_run example_csm_env (contract_of solo_table) [solo_setup]) = Requested r \<and>
     req_claim_txids r = bt_insert [1] 401 bt_empty \<and> bt_get (peg_out_graph_summaries r) 401 = Some s \<and>
     payout_optimistic_txid s = 205 \<and> bt_get (graph_nonces r) 401 = Some bt_empty"
proof -
  let ?inp = "\<lparr>stake_outpoint = \<lparr>op_txid = 7, op_vout = STAKE_VOUT\<rparr>,
    withdrawal_fulfillment_outpoint = \<lparr>op_txid = 7, op_vout = WITHDRAWAL_FULFILLMENT_VOUT\<rparr>, stake_hash = 3,
    input_wots_public_keys = example_wots, operator_pubkey = 4\<rparr>"
  obtain g where g: "build_graph example_csm_env (contract_cfg_of solo_table) ?inp = (Ok g :: (transition_err, _) outcome)"
    and "usable_graph example_csm_env g" using build_graph_ok [OF solo_env_ok] by blast
  then obtain s ws where s: "summarize (graph_lib (bridge example_csm_env)) g = Ok s" "musig_witnesses g = Ok ws"
    by (auto simp: usable_graph_def)
  note ids = example_graph [OF g s(1)]
  have "\<not> multi_thread_graph_gen example_csm_env" by (simp add: example_csm_env_def)
  moreover have "cardinality (cfg_operator_table (contract_cfg_of solo_table)) = 1"
    by (simp add: solo_table_def cardinality_def bt.len_insert bt.len_empty bt.get_empty)
  ultimately show ?thesis
    using g s ids by (simp add: solo_setup_def csm_step_def process_deposit_setup_def contract_of_def contract_state_new_def
        Let_def setup_graph_input_def bt.get_empty bt.len_insert bt.len_empty generate_graphs_def btree_simps
        cached_graph_def nonces_duty_def set_state_def bt.get_insert)
qed

section \<open>From the deposit to the payout\<close>

definition solo_dispatch :: dispatched_state where
  "solo_dispatch = \<lparr>assignee = 0, withdraw_destinations = [[5]], exec_deadline = 100\<rparr>"

definition solo_entry :: deposit_entry where
  "solo_entry = \<lparr>entry_idx = 2, entry_deposit_state = Dispatched solo_dispatch, entry_withdrawal_request_txid = Some 77\<rparr>"

definition sample_stake :: stake_tx where
  "sample_stake = \<lparr>st_psbt = \<lparr>unsigned_tx = sample_tx 2 2, psbt_inputs = []\<rparr>, st_hash = 3, st_witnesses = []\<rparr>"

definition solo_assignment :: contract_event where
  "solo_assignment = Assignment solo_entry (StakeTail sample_stake) 30"

definition solo_fulfillment :: transaction where
  "solo_fulfillment = (sample_tx 1 0)\<lparr>tx_output := [\<lparr>txout_value = 990000000, script_pubkey = [5]\<rparr>,
     \<lparr>txout_value = 0, script_pubkey = OP_RETURN # 40 # op_return_data_of example_bridge_env
        \<lparr>wm_tag = [], wm_operator_idx = 0, wm_deposit_idx = 2, wm_deposit_txid = 101\<rparr>\<rparr>]\<rparr>"

definition solo_claim :: transaction where
  "solo_claim = (sample_tx 1 4)\<lparr>tx_input := [example_signed_in (witness_items [replicate 21 0, replicate 21 7] @ [[1], [2]])]\<rparr>"

definition solo_events :: "contract_event list" where
  "solo_events = [solo_setup, DepositConfirmation (sample_tx 1 1), solo_assignment,
     PegOutGraphConfirmation solo_fulfillment 31, PegOutGraphConfirmation solo_claim 32,
     PegOutGraphConfirmation (sample_tx 5 2) 40]"

lemma solo_facts:
  "is_fulfillment_tx (bridge example_csm_env) (cfg_graph_params (contract_cfg_of t)) 0 2
     (cfg_deposit_txid example_csm_env (contract_cfg_of t)) [5] solo_fulfillment = (Ok True :: (transition_err, _) outcome)"
  "claim_parse_witness example_csm_env solo_claim = Ok [replicate 21 0, replicate 21 7]"
  "tx_id example_csm_env (sample_tx n m) = of_nat (n + 100 * m)" "tx_id example_csm_env solo_claim = 401"
  "\<not> is_challenge 401 (sample_tx 5 2)"
proof -
  let ?m = "\<lparr>wm_tag = [], wm_operator_idx = 0, wm_deposit_idx = 2, wm_deposit_txid = 101\<rparr>"
  have "op_return_data example_bridge_env (OP_RETURN # 40 # op_return_data_of example_bridge_env ?m) =
      Some (op_return_data_of example_bridge_env ?m)"
    by (simp add: op_return_data_def example_bridge_env_def example_instructions_def)
  moreover have "fulfillment_metadata_ok example_bridge_env [] 0 2 101 (op_return_data_of example_bridge_env ?m)"
    using fulfillment_metadata_iff [OF example_txid_encoding_ok, of ?m "[]"] by simp
  moreover have "bridge example_csm_env = example_bridge_env" "descriptor_to_address example_bridge_env [5] = Some [5]"
    by (simp_all add: example_csm_env_def example_bridge_env_def)
  ultimately show "is_fulfillment_tx (bridge example_csm_env) (cfg_graph_params (contract_cfg_of t)) 0 2
     (cfg_deposit_txid example_csm_env (contract_cfg_of t)) [5] solo_fulfillment = (Ok True :: (transition_err, _) outcome)"
    by (simp add: is_fulfillment_tx_def solo_fulfillment_def solo_deposit_txid amount_sub_def example_graph_params_def)
  have "claim_digit (witness_items [replicate 21 0, replicate 21 7] @ [[1], [2]]) i =
      Ok ([replicate 21 0, replicate 21 7] ! i)" if "i < 2" for i
    by (rule claim_digit_items) (use that in auto)
  then show "claim_parse_witness example_csm_env solo_claim = Ok [replicate 21 0, replicate 21 7]"
    by (simp add: claim_parse_witness_def solo_claim_def traverse_map_Ok_iff example_csm_env_def example_signed_in_def)
  show "tx_id example_csm_env (sample_tx n m) = of_nat (n + 100 * m)" "tx_id example_csm_env solo_claim = 401"
    by (simp_all add: example_tx_id sample_tx_def solo_claim_def)
  show "\<not> is_challenge 401 (sample_tx 5 2)" by (simp add: is_challenge_def sample_tx_def)
qed

lemma solo_assigned:
  "\<exists>a s. the_state (csm_run example_csm_env (contract_of solo_table)
        [solo_setup, DepositConfirmation (sample_tx 1 1), solo_assignment]) = Assigned a [5] 100 30 \<and>
     fulfiller a = 0 \<and> act_withdrawal_request_txid a = 77 \<and> active_summary a = s \<and>
     summary_claim_txid s = 401 \<and> payout_optimistic_txid s = 205"
proof -
  let ?sm = "csm_run example_csm_env (contract_of solo_table) [solo_setup]"
  obtain r s where r: "the_state ?sm = Requested r" "req_claim_txids r = bt_insert [1] 401 bt_empty"
    "bt_get (peg_out_graph_summaries r) 401 = Some s" "payout_optimistic_txid s = 205"
    using solo_after_setup by blast
  have ok: "requested_ok r" using csm_new_run(3) [OF contract_of_new, of solo_table example_csm_env "[solo_setup]"] r(1) by simp
  have "bt_get (req_claim_txids r) [1] = Some 401" using r(2) by (simp add: bt.get_insert)
  then have "summary_claim_txid s = 401" using ok r(3) unfolding requested_ok_def by fastforce
  then show ?thesis
    using deposit_and_assign [OF r(1) ok, of "contract_cfg_of solo_table" example_csm_env "sample_tx 1 1" solo_entry solo_dispatch
        77 "[5]" "[1]" 401 s "StakeTail sample_stake" 30] csm_new_run(1) [OF contract_of_new] r(2-4)
    by (auto simp: solo_facts(3) solo_deposit_txid solo_entry_def solo_dispatch_def solo_table_def
        idx_to_p2p_key_def bt.get_insert btree_simps bt_values_def solo_assignment_def)
qed

lemma solo_resolved:
  "the_state (csm_run example_csm_env (contract_of solo_table) solo_events) =
     Resolved \<lparr>res_claim_txid = 401, res_withdrawal_request_txid = 77,
       res_fulfillment_txid = tx_id example_csm_env solo_fulfillment, res_payout_txid = 205, res_path = Optimistic\<rparr>"
proof -
  let ?sm = "csm_run example_csm_env (contract_of solo_table) [solo_setup, DepositConfirmation (sample_tx 1 1), solo_assignment]"
  obtain a s where a: "the_state ?sm = Assigned a [5] 100 30" "fulfiller a = 0" "act_withdrawal_request_txid a = 77"
     "active_summary a = s" "summary_claim_txid s = 401" "payout_optimistic_txid s = 205" using solo_assigned by blast
  have cfg: "csm_cfg ?sm = contract_cfg_of solo_table" by (rule csm_new_run(1) [OF contract_of_new])
  show ?thesis
    using fulfill_claim_payout [OF a(1) cfg, of example_csm_env solo_fulfillment solo_claim _ "sample_tx 5 2" 31 32 40] a(2-)
    by (simp add: solo_facts [simplified] solo_events_def)
qed

section \<open>Instances: runs\<close>

theorem active_graph_of_fulfiller_witness:
  "\<exists>a key. state_active (the_state (csm_run example_csm_env (contract_of solo_table)
        [solo_setup, DepositConfirmation (sample_tx 1 1), solo_assignment])) = Some a \<and>
     idx_to_p2p_key solo_table (fulfiller a) = Some key \<and>
     bt_get (dep_claim_txids a) key = Some (summary_claim_txid (active_summary a))"
proof -
  obtain a where a: "state_active (the_state (csm_run example_csm_env (contract_of solo_table)
      [solo_setup, DepositConfirmation (sample_tx 1 1), solo_assignment])) = Some a"
    using solo_assigned by force
  from active_graph_of_fulfiller [OF contract_of_new this] a show ?thesis unfolding contract_cfg_of_simps by blast
qed

theorem contract_never_reverts_witness:
  "the_state (csm_run example_csm_env (csm_run example_csm_env (contract_of solo_table) solo_events) [Block 11, solo_setup]) =
     the_state (csm_run example_csm_env (contract_of solo_table) solo_events)"
  using contract_never_reverts [of "csm_run example_csm_env (contract_of solo_table) solo_events" example_csm_env "[Block 11, solo_setup]"]
    solo_resolved by simp

theorem resolved_only_after_payment_witness:
  "\<exists>op to. in_order [confirms_deposit example_csm_env (contract_cfg_of solo_table), assigns (contract_cfg_of solo_table) op to 77,
     confirms_fulfillment example_csm_env (contract_cfg_of solo_table) op to (tx_id example_csm_env solo_fulfillment),
     confirms_tx example_csm_env 401, confirms_tx example_csm_env 205] solo_events"
  using resolved_only_after_payment [OF contract_of_new solo_resolved] by simp

theorem graph_generation_modes_agree_witness:
  "snd (process_deposit_setup (example_csm_env\<lparr>multi_thread_graph_gen := True\<rparr>) (contract_of solo_table) [1] 4 3 7 example_wots) =
   snd (process_deposit_setup (example_csm_env\<lparr>multi_thread_graph_gen := False\<rparr>) (contract_of solo_table) [1] 4 3 7 example_wots)"
  by (rule graph_generation_modes_agree [THEN conjunct1, OF _ refl])
     (auto simp: contract_of_def contract_state_new_def setup_graph_input_def bt_values_def btree_simps
       cache_coherent_def bt.get_empty list_all_iff)

theorem setups_open_sessions_witness:
  "\<exists>r claim. the_state (csm_run example_csm_env (contract_of solo_table) [setup_event ([1], 4, 3, 7, example_wots)]) = Requested r \<and>
     bt_get (req_claim_txids r) [1] = Some claim \<and> bt_get (graph_nonces r) claim \<noteq> None"
proof -
  have "length ([] @ [([1], 4, 3, 7, example_wots)]) = cardinality (cfg_operator_table (contract_cfg_of solo_table))"
    by (simp add: solo_table_def cardinality_def bt.len_insert bt.len_empty bt.get_empty)
  from setups_open_sessions [OF contract_of_new solo_env_ok _ this] show ?thesis by auto
qed

theorem deposit_confirmation_exact_witness:
  "snd (process_deposit_confirmation example_csm_env (csm_run example_csm_env (contract_of solo_table) [solo_setup]) (sample_tx 1 1)) =
     Ok None"
proof -
  obtain r where r: "the_state (csm_run example_csm_env (contract_of solo_table) [solo_setup]) = Requested r"
    "req_claim_txids r = bt_insert [1] 401 bt_empty" using solo_after_setup by blast
  have "tx_id example_csm_env (sample_tx 1 1) = cfg_deposit_txid example_csm_env (contract_cfg_of solo_table)"
    by (simp add: solo_facts(3) solo_deposit_txid)
  from deposit_confirmation_exact [OF contract_of_new r(1) this] show ?thesis
    by (simp add: r(2) bt_values_def btree_simps)
qed

theorem optimistic_withdrawal_completes_witness:
  "the_state (csm_run example_csm_env (contract_of solo_table) solo_events) =
     Resolved \<lparr>res_claim_txid = 401, res_withdrawal_request_txid = 77,
       res_fulfillment_txid = tx_id example_csm_env solo_fulfillment, res_payout_txid = 205, res_path = Optimistic\<rparr>"
proof -
  obtain r s where r: "the_state (csm_run example_csm_env (contract_of solo_table) [solo_setup]) = Requested r"
    "req_claim_txids r = bt_insert [1] 401 bt_empty" "bt_get (peg_out_graph_summaries r) 401 = Some s"
    "payout_optimistic_txid s = 205" using solo_after_setup by blast
  have paid: "is_fulfillment_tx (bridge example_csm_env) example_graph_params 0 2 101 [5] solo_fulfillment =
      (Ok True :: (transition_err, _) outcome)" using solo_facts(1) [of solo_table] by (simp add: solo_deposit_txid)
  show ?thesis
    using optimistic_withdrawal_completes [OF contract_of_new r(1), where entry = solo_entry and d = solo_dispatch and
        deposit = "sample_tx 1 1" and request = 77 and to = "[5]" and key = "[1]" and claim_id = 401 and summary = s and
        fulfillment = solo_fulfillment and claim = solo_claim and payout = "sample_tx 5 2" and
        commitment = "[replicate 21 0, replicate 21 7]" and
        stake = "StakeTail sample_stake" and ?h0.0 = 30 and ?h1.0 = 31 and ?h2.0 = 32 and ?h3.0 = 40] r(2-4)
    by (simp add: paid solo_facts(2-5) solo_deposit_txid solo_entry_def solo_dispatch_def solo_table_def
        idx_to_p2p_key_def bt.get_insert btree_simps bt_values_def solo_events_def solo_assignment_def)
qed

theorem transaction_filter_complete_witness:
  "transaction_filter example_csm_env (csm_run example_csm_env (contract_of solo_table)
      [solo_setup, DepositConfirmation (sample_tx 1 1), solo_assignment]) solo_fulfillment = (Ok True :: (transition_err, _) outcome)"
proof -
  let ?evs = "[solo_setup, DepositConfirmation (sample_tx 1 1), solo_assignment]"
  let ?sm = "csm_run example_csm_env (contract_of solo_table) ?evs"
  obtain a where a: "the_state ?sm = Assigned a [5] 100 30" "fulfiller a = 0" using solo_assigned by blast
  have cfg: "csm_cfg ?sm = contract_cfg_of solo_table" by (rule csm_new_run(1) [OF contract_of_new])
  have "the_state (csm_step example_csm_env ?sm (PegOutGraphConfirmation solo_fulfillment 31)) \<noteq> the_state ?sm"
    using a cfg by (simp add: csm_step_def process_peg_out_graph_tx_confirmation_def process_fulfillment_confirmation_def
        Let_def solo_facts [simplified])
  from transaction_filter_complete [OF contract_of_new this] show ?thesis by blast
qed


section \<open>Instances: the deposit\<close>

definition signing_env :: csm_env where
  "signing_env = example_csm_env\<lparr>bridge := example_bridge_env\<lparr>graph_lib := example_env\<lparr>env_key_spend_hash := \<lambda>_ _ _ _. Some 6\<rparr>\<rparr>\<rparr>"

lemma signing_facts:
  "deposit_sighash signing_env (contract_cfg_of t) = Ok 6"
  "create_agg_ctx (bridge signing_env) keys WitnessKey = Some []"
  "verify_partial (bridge signing_env) ctx sig agg key nonce hash"
  "list_get (ct_witnesses solo_deposit) 0 = Some WitnessKey"
  by (simp_all add: deposit_sighash_def signing_env_def ct_sighashes_def ct_sighash_types_def solo_deposit_def
      btc_env.truncate_def create_agg_ctx_def example_bridge_env_def)

theorem deposit_published_by_all_witness:
  "\<exists>r partials agg. snd (process_contract_event signing_env (csm_run signing_env (contract_of solo_table) [RootNonce [1] [9]])
        (RootSig [1] 8)) = Ok [PublishDeposit solo_deposit partials agg] \<and> length partials = 1 \<and>
     the_state (csm_run signing_env (contract_of solo_table) [RootNonce [1] [9], RootSig [1] 8]) = Requested r \<and>
     bt_get (root_partials r) [1] \<noteq> None"
proof -
  let ?sm = "csm_run signing_env (contract_of solo_table) [RootNonce [1] [9]]"
  have wf: "operator_table_wf solo_table" by (rule operator_table_new_wf [OF solo_table_new])
  have table: "cardinality solo_table = 1" "p2p_key_to_btc_key solo_table [1] = Some 5"
    by (simp_all add: solo_table_def cardinality_def p2p_key_to_btc_key_def bt.len_insert bt.len_empty bt.get_empty bt.get_insert)
  obtain r where r: "the_state ?sm = Requested r" "root_nonces r = bt_insert [1] [9] bt_empty" "root_partials r = bt_empty"
    and cfg: "csm_cfg ?sm = contract_cfg_of solo_table"
    using signing_facts(1) [of solo_table]
    by (auto simp: csm_step_def process_root_nonce_def contract_of_def contract_state_new_def Let_def bt.get_empty
        bt.len_insert bt.len_empty table signing_facts cfg_deposit_request_txid_def solo_deposit_def sample_tx_def)
  obtain sm' partials agg where out: "process_contract_event signing_env ?sm (RootSig [1] 8) = (sm', Ok [PublishDeposit solo_deposit partials agg])"
    using r cfg by (simp add: process_root_signature_def Let_def bt.get_empty signing_facts table bt.get_insert bt.len_insert
        bt.len_empty duty_list_def)
  have "sm' = csm_run signing_env (contract_of solo_table) [RootNonce [1] [9], RootSig [1] 8]"
    using out by (simp add: csm_step_def)
  then show ?thesis
    using deposit_published_by_all [OF contract_of_new _ out] wf table out by auto
qed

theorem root_signature_accepted_early_witness:
  "\<exists>r. the_state (csm_run signing_env (contract_of example_table) [RootNonce [1] [9], RootSig [1] 8]) = Requested r \<and>
     bt_get (root_partials r) [1] = Some 8 \<and>
     the_state (csm_run signing_env (contract_of example_table) [RootNonce [1] [9], RootSig [1] 8, RootNonce [2] [7], RootSig [1] 11]) =
       the_state (csm_run signing_env (contract_of example_table) [RootNonce [1] [9], RootSig [1] 8, RootNonce [2] [7]])"
proof -
  let ?sm = "csm_run signing_env (contract_of example_table) [RootNonce [1] [9]]"
  have table: "cardinality example_table = 2" "p2p_key_to_btc_key example_table [1] = Some 5"
    by (simp_all add: example_table_eq cardinality_def p2p_key_to_btc_key_def bt.len_insert bt.len_empty bt.get_empty bt.get_insert)
  obtain r where r: "the_state ?sm = Requested r" "root_nonces r = bt_insert [1] [9] bt_empty" "root_partials r = bt_empty"
    by (simp add: csm_step_def process_root_nonce_def contract_of_def contract_state_new_def Let_def bt.get_empty
        bt.len_insert bt.len_empty table)
  have cfg: "csm_cfg ?sm = contract_cfg_of example_table" by (rule csm_new_run(1) [OF contract_of_new])
  show ?thesis
    using root_signature_accepted_early [OF r(1), of "[1]" "[9]" 5 WitnessKey signing_env "[]" 6 8 "[([2], [7])]" 11] cfg r(2,3)
    by (simp add: table signing_facts bt.get_insert bt.get_empty bt.len_insert bt.len_empty)
qed

section \<open>Instances: a claimed contract\<close>

text \<open>The numbers of outputs of the assert-data transactions make their identifiers different.\<close>

definition solo_data_tx :: "nat \<Rightarrow> transaction" where
  "solo_data_tx i = (sample_tx 1 (Suc i))\<lparr>tx_input := [example_signed_in [[1], [2], [3]]]\<rparr>"

definition solo_data :: "transaction list" where
  "solo_data = map solo_data_tx [0..<39]"

definition solo_summary :: peg_out_graph_summary where
  "solo_summary = \<lparr>stake_txid = 7, summary_claim_txid = 401, payout_optimistic_txid = 205, pre_assert_txid = 4001,
     summary_assert_data_txids = map (\<lambda>i. of_nat (101 + 100 * i)) [0..<39], post_assert_txid = 5001, payout_txid = 204,
     slash_stake_txids = []\<rparr>"

definition solo_active :: "operator_idx \<Rightarrow> (txid, taproot_signature pog_musig_f) btree_map \<Rightarrow> active_data" where
  "solo_active op sigs = \<lparr>peg_out_graphs = bt_insert 401 (example_input, solo_summary) bt_empty,
     dep_claim_txids = bt_insert [1] 401 bt_empty, dep_graph_sigs = sigs, fulfiller = op,
     active_graph = (example_input, solo_summary), act_withdrawal_request_txid = 77\<rparr>"

definition solo_signed :: "(txid, taproot_signature pog_musig_f) btree_map" where
  "solo_signed = bt_insert 401 (example_pog \<lparr>signature = 0, sighash_type = SighashDefault\<rparr>) bt_empty"

definition solo_claimed :: claimed_data where
  "solo_claimed = \<lparr>claim_height = 32, cl_fulfillment_txid = 201, cl_fulfillment_commitment = [], cl_l1_start_height = 30\<rparr>"

definition machine_at :: "block_height \<Rightarrow> contract_state \<Rightarrow> contract_sm" where
  "machine_at h s = \<lparr>csm_cfg = contract_cfg_of solo_table, csm_state = \<lparr>block_height_of = h, contract_state_of = s\<rparr>,
     csm_pog = bt_empty\<rparr>"

lemmas solo_defs = machine_at_def solo_claimed_def solo_active_def solo_signed_def solo_summary_def solo_table_def
  pov_idx_def example_connector_params_def bt.get_insert bt.get_empty


theorem failed_block_is_consumed_witness:
  "snd (process_contract_event example_csm_env (machine_at 1031 (Claimed (solo_active 0 bt_empty) solo_claimed)) (Block 1032)) =
     Err (GraphSigsMissing 401)"
  using failed_block_is_consumed [of "machine_at 1031 (Claimed (solo_active 0 bt_empty) solo_claimed)" 32 1000
      "solo_active 0 bt_empty" 1032 example_csm_env]
  by (simp add: solo_defs del: process_contract_event.simps)

section \<open>Instances: a disputed contract\<close>

lemma solo_parse:
  assumes "length ws = 39"
  shows "\<exists>sigs. parse_assertion_witnesses example_csm_env (take 3 ws) [] (take 33 (drop 3 ws)) (drop 36 ws) = Ok sigs"
proof -
  have digit: "stack_digit (final_stack_get example_csm_env w) k = Ok (replicate 20 0 @ [0])" for w k
    by (simp add: stack_digit_def example_csm_env_def digit_of_def numeral_eq_Suc)
  have "\<exists>v. parse_wots_signatures example_csm_env d n w = Ok v" for d n w
    unfolding parse_wots_signatures_def by (intro traverse_ok) (auto simp: digit intro!: traverse_ok)
  then have batch: "\<exists>vs. traverse (parse_wots_signatures example_csm_env d n) xs = Ok vs" for d n xs
    by (intro traverse_ok) blast
  obtain w1 v1 v2 where w: "traverse (parse_wots_signatures example_csm_env (wots256_digit_len example_csm_env)
        num_field_elems_per_connector_batch_1) (take 3 ws) = Ok w1"
      "traverse (parse_wots_signatures example_csm_env (wots_hash_digit_len example_csm_env)
        num_hash_elems_per_connector_batch_1) (take 33 (drop 3 ws)) = Ok v1"
      "traverse (parse_wots_signatures example_csm_env (wots_hash_digit_len example_csm_env)
        num_hash_elems_per_connector_batch_2) (drop 36 ws) = Ok v2"
    using batch by metis
  have lens: "length (concat w1) = 15" "length (concat v1) = 330" "length (concat v2) = 33"
    using w [THEN parse_batch_length] assms by (simp_all add: num_connectors_defs)
  then have "concat w1 \<noteq> []" by (metis length_0_conv zero_neq_numeral)
  then show ?thesis using lens
    by (simp add: parse_assertion_witnesses_def w Let_def num_field_elements_def num_hash_elements_def
        num_connectors_defs w [unfolded num_connectors_defs] del: concat_eq_Nil_conv)
qed

lemma solo_data_facts:
  "map (tx_id example_csm_env) solo_data = summary_assert_data_txids solo_summary"
  "distinct (summary_assert_data_txids solo_summary)" "length solo_data = num_assert_data_tx"
  "\<exists>sigs. assert_data_parse_witnesses example_csm_env solo_data = Ok sigs"
proof -
  show "map (tx_id example_csm_env) solo_data = summary_assert_data_txids solo_summary"
    by (simp add: solo_data_def solo_summary_def example_tx_id solo_data_tx_def sample_tx_def algebra_simps)
  have "unat (of_nat (101 + 100 * i) :: 256 word) = 101 + 100 * i" if "i < 39" for i
    unfolding unat_of_nat by (rule mod_less) (use that in simp)
  then have "inj_on (\<lambda>i. of_nat (101 + 100 * i) :: 256 word) (set [0..<39])"
    by (intro inj_on_inverseI [where g = "\<lambda>w. (unat w - 101) div 100"]) simp
  then show "distinct (summary_assert_data_txids solo_summary)" by (simp add: solo_summary_def distinct_map)
  show "length solo_data = num_assert_data_tx" by (simp add: solo_data_def num_assert_data_tx_def)
  have inputs: "concat (map tx_input solo_data) = replicate 39 (example_signed_in [[1], [2], [3]])"
    by (simp add: solo_data_def solo_data_tx_def comp_def map_replicate_const concat_map_singleton)
  obtain ws where ws: "traverse (witness_script example_csm_env) (concat (map tx_input solo_data)) = Ok ws"
    using traverse_ok [of "concat (map tx_input solo_data)" "witness_script example_csm_env"]
    by (auto simp: inputs witness_script_def Let_def example_signed_in_def)
  have "length ws = 39" using traverse_length [OF ws] by (simp add: inputs)
  then show "\<exists>sigs. assert_data_parse_witnesses example_csm_env solo_data = Ok sigs"
    using ws solo_parse [of ws]
    by (simp add: assert_data_parse_witnesses_def Let_def total_connectors_def num_connectors_defs)
qed


theorem verification_duties_witness:
  "snd (process_contract_event example_csm_env (machine_at 42 (AssertDataConfirmed (solo_active 0 bt_empty) 201 [] (stored_txs example_csm_env solo_data)))
     (PegOutGraphConfirmation (sample_tx 1 50) 43)) = Ok [VerifierDuty VerifyAssertion] \<and>
   snd (process_contract_event example_csm_env (machine_at 31 (Fulfilled (solo_active 1 bt_empty) 201 31 30))
     (PegOutGraphConfirmation solo_claim 32)) = Ok [VerifierDuty VerifyClaim]"
proof
  let ?sm = "machine_at 42 (AssertDataConfirmed (solo_active 0 bt_empty) 201 [] (stored_txs example_csm_env solo_data))"
  obtain sigs where sigs: "assert_data_parse_witnesses example_csm_env solo_data = Ok sigs" using solo_data_facts(4) by blast
  have summary: "active_summary (solo_active op g) = solo_summary" "fulfiller (solo_active op g) = op" for op g
    by (simp_all add: solo_active_def)
  have "distinct (map (tx_id example_csm_env) solo_data)" using solo_data_facts(1,2) by simp
  then obtain duties where "snd (process_contract_event example_csm_env ?sm (PegOutGraphConfirmation (sample_tx 1 50) 43)) = Ok duties"
    using post_assert_accepted [of ?sm _ _ _ example_csm_env solo_data solo_data sigs "sample_tx 1 50" 43] solo_data_facts(1,3) sigs
    by (simp add: machine_at_def summary solo_facts(3) solo_summary_def del: process_contract_event.simps)
  then show "snd (process_contract_event example_csm_env ?sm (PegOutGraphConfirmation (sample_tx 1 50) 43)) = Ok [VerifierDuty VerifyAssertion]"
    using verification_duties [of example_csm_env ?sm "sample_tx 1 50" 43 duties]
    by (simp add: machine_at_def summary solo_table_def pov_idx_def del: process_contract_event.simps)
  let ?sm' = "machine_at 31 (Fulfilled (solo_active 1 bt_empty) 201 31 30)"
  have "snd (process_contract_event example_csm_env ?sm' (PegOutGraphConfirmation solo_claim 32)) = Ok [VerifierDuty VerifyClaim]"
    by (simp add: machine_at_def process_peg_out_graph_tx_confirmation_def process_claim_confirmation_def summary solo_facts
        solo_summary_def Let_def duty_list_def solo_table_def pov_idx_def)
  then show "snd (process_contract_event example_csm_env ?sm' (PegOutGraphConfirmation solo_claim 32)) = Ok [VerifierDuty VerifyClaim]" .
qed

end
