(* ===== verification/Btc_Notify.thy ===== *)
theory Btc_Notify
  imports BTree_Map Bitcoin
begin

text \<open>
  The transaction tracker behind the bridge's view of the chain: \<open>BtcZmqSM\<close>
  (\<open>crates/btc-notify/src/state_machine.rs\<close>) and the events it emits
  (\<open>crates/btc-notify/src/event.rs\<close>). It consumes the three ZMQ streams of a Bitcoin node (raw blocks,
  raw transactions, sequence messages) and answers each message with the list of transaction events
  and the optional block event that the message causes.

  A predicate is an \<open>Arc\<close> of a closure: the closure, and the address that \<open>Arc::ptr_eq\<close> compares.
  The hash and the height of a block and the id of a transaction are computed by the \<open>bitcoin\<close>
  crate and are parameters. A \<open>debug_assert!\<close> panics in a build with debug assertions only, which
  is a parameter as well. The queue of unburied blocks is a list with the newest block first.
\<close>

named_theorems zmq_defs \<open>definitions of the transaction tracker\<close>

section \<open>Events\<close>

type_synonym block_hash = "256 word"

record block =
  prev_blockhash :: block_hash
  header_rest :: bytes
  txdata :: "transaction list"

datatype tx_status =
    StatusUnknown
  | StatusMempool
  | StatusMined block_hash u64
  | StatusBuried block_hash u64

fun is_mined :: "tx_status \<Rightarrow> bool" where
  "is_mined (StatusMined _ _) = True"
| "is_mined _ = False"

fun is_buried :: "tx_status \<Rightarrow> bool" where
  "is_buried (StatusBuried _ _) = True"
| "is_buried _ = False"

record tx_event =
  rawtx :: transaction
  ev_status :: tx_status

datatype block_status = BlockUncled | BlockMined | BlockBuried

record block_event =
  ev_block :: block
  blk_status :: block_status

text \<open>\<open>bitcoincore_zmq::SequenceMessage\<close>, without the mempool sequence numbers the tracker ignores.\<close>

datatype sequence_message =
    BlockConnect block_hash
  | BlockDisconnect block_hash
  | MempoolAcceptance txid
  | MempoolRemoval txid

section \<open>The tracker\<close>

record tx_predicate =
  ptr :: nat
  holds :: "transaction \<Rightarrow> bool"

record tx_lifecycle =
  lc_raw :: transaction
  lc_block :: "(u64 \<times> block_hash) option"

record btc_zmq_sm =
  bury_depth :: nat
  tx_filters :: "tx_predicate list"
  tx_lifecycles :: "(txid, tx_lifecycle option) btree_map"
  unburied_blocks :: "block list"

record zmq_env =
  zmq_txid :: "transaction \<Rightarrow> txid"
  zmq_block_hash :: "block \<Rightarrow> block_hash"
  zmq_bip34_height :: "block \<Rightarrow> u64 option"
  zmq_debug_assertions :: bool

text \<open>The tracker never returns an error: it answers or panics.\<close>

type_synonym 'a zmq_step = "(unit, 'a) outcome"

definition zmq_init :: "nat \<Rightarrow> block list \<Rightarrow> btc_zmq_sm" where
  "zmq_init depth blocks =
     \<lparr>bury_depth = depth, tx_filters = [], tx_lifecycles = bt_empty, unburied_blocks = blocks\<rparr>"

definition add_filter :: "tx_predicate \<Rightarrow> btc_zmq_sm \<Rightarrow> btc_zmq_sm" where
  "add_filter p sm = sm\<lparr>tx_filters := tx_filters sm @ [p]\<rparr>"

text \<open>\<open>Iterator::position\<close> and \<open>Vec::swap_remove\<close>, at an index within the vector.\<close>

fun position :: "('a \<Rightarrow> bool) \<Rightarrow> 'a list \<Rightarrow> nat option" where
  "position p [] = None"
| "position p (x # xs) = (if p x then Some 0 else map_option Suc (position p xs))"

definition swap_remove :: "nat \<Rightarrow> 'a list \<Rightarrow> 'a list" where
  "swap_remove i xs = butlast (xs[i := last xs])"

definition rm_filter :: "nat \<Rightarrow> btc_zmq_sm \<Rightarrow> btc_zmq_sm" where
  "rm_filter address sm =
     (case position (\<lambda>p. ptr p = address) (tx_filters sm) of
        None \<Rightarrow> sm
      | Some idx \<Rightarrow> sm\<lparr>tx_filters := swap_remove idx (tx_filters sm)\<rparr>)"

definition matches_any :: "tx_predicate list \<Rightarrow> transaction \<Rightarrow> bool" where
  "matches_any filters tx = list_ex (\<lambda>f. holds f tx) filters"

subsection \<open>Raw blocks\<close>

definition zmq_height :: "zmq_env \<Rightarrow> block \<Rightarrow> u64" where
  "zmq_height env b = (case zmq_bip34_height env b of None \<Rightarrow> 0 | Some h \<Rightarrow> h)"

definition mined_event :: "zmq_env \<Rightarrow> block \<Rightarrow> transaction \<Rightarrow> tx_event" where
  "mined_event env b tx =
     \<lparr>rawtx = tx, ev_status = StatusMined (zmq_block_hash env b) (zmq_height env b)\<rparr>"

definition buried_event :: "zmq_env \<Rightarrow> block \<Rightarrow> transaction \<Rightarrow> tx_event" where
  "buried_event env b tx =
     \<lparr>rawtx = tx, ev_status = StatusBuried (zmq_block_hash env b) (zmq_height env b)\<rparr>"

text \<open>The body of the loop over the matched transactions of the new tip.\<close>

definition mine_tx ::
    "zmq_env \<Rightarrow> block \<Rightarrow> transaction \<Rightarrow> (txid, tx_lifecycle option) btree_map \<Rightarrow>
     (txid, tx_lifecycle option) btree_map zmq_step" where
  "mine_tx env b tx lifecycles =
     (let blockhash = zmq_block_hash env b; height = zmq_height env b; txid = zmq_txid env tx in
      case bt_get lifecycles txid of
        Some (Some lifecycle) \<Rightarrow>
          (case lc_block lifecycle of
             Some (_, prior_blockhash) \<Rightarrow>
               if zmq_debug_assertions env \<and> (tx \<noteq> lc_raw lifecycle \<or> prior_blockhash = blockhash)
               then Panic
               else Ok (bt_insert txid (Some (lifecycle\<lparr>lc_block := Some (height, blockhash)\<rparr>)) lifecycles)
           | None \<Rightarrow>
               Ok (bt_insert txid (Some (lifecycle\<lparr>lc_block := Some (height, blockhash)\<rparr>)) lifecycles))
      | _ \<Rightarrow>
          Ok (bt_insert txid (Some \<lparr>lc_raw = tx, lc_block = Some (height, blockhash)\<rparr>) lifecycles))"

fun mine_txs ::
    "zmq_env \<Rightarrow> block \<Rightarrow> transaction list \<Rightarrow> (txid, tx_lifecycle option) btree_map \<Rightarrow>
     (txid, tx_lifecycle option) btree_map zmq_step" where
  "mine_txs env b [] lifecycles = Ok lifecycles"
| "mine_txs env b (tx # txs) lifecycles =
     bind_outcome (mine_tx env b tx lifecycles) (mine_txs env b txs)"

text \<open>The new tip: a block that does not extend the old one is not queued.\<close>

definition extends_tip :: "zmq_env \<Rightarrow> btc_zmq_sm \<Rightarrow> block \<Rightarrow> bool" where
  "extends_tip env sm b =
     (case unburied_blocks sm of [] \<Rightarrow> True | tip # _ \<Rightarrow> prev_blockhash b = zmq_block_hash env tip)"

definition push_block :: "zmq_env \<Rightarrow> btc_zmq_sm \<Rightarrow> block \<Rightarrow> block list zmq_step" where
  "push_block env sm b =
     (if extends_tip env sm b then Ok (b # unburied_blocks sm)
      else if zmq_debug_assertions env then Panic
      else Ok (unburied_blocks sm))"

text \<open>The oldest block leaves the queue once the queue is longer than the bury depth.\<close>

definition bury_txs :: "zmq_env \<Rightarrow> block \<Rightarrow> (txid, tx_lifecycle option) btree_map \<Rightarrow>
    (txid, tx_lifecycle option) btree_map" where
  "bury_txs env b lifecycles = foldl (\<lambda>m tx. bt_remove (zmq_txid env tx) m) lifecycles (txdata b)"

definition bury_oldest ::
    "zmq_env \<Rightarrow> btc_zmq_sm \<Rightarrow> btc_zmq_sm \<times> tx_event list \<times> block_event option" where
  "bury_oldest env sm =
     (if length (unburied_blocks sm) > bury_depth sm then
        let newly_buried = last (unburied_blocks sm) in
        (sm\<lparr>unburied_blocks := butlast (unburied_blocks sm),
            tx_lifecycles := bury_txs env newly_buried (tx_lifecycles sm)\<rparr>,
         map (buried_event env newly_buried)
           (filter (matches_any (tx_filters sm)) (txdata newly_buried)),
         Some \<lparr>ev_block = newly_buried, blk_status = BlockBuried\<rparr>)
      else (sm, [], None))"

definition zmq_process_block ::
    "zmq_env \<Rightarrow> btc_zmq_sm \<Rightarrow> block \<Rightarrow> (btc_zmq_sm \<times> tx_event list \<times> block_event option) zmq_step" where
  "zmq_process_block env sm b =
     bind_outcome (push_block env sm b) (\<lambda>blocks.
     bind_outcome (expect (list_get blocks 0)) (\<lambda>tip.
     let matched = filter (matches_any (tx_filters sm)) (txdata tip) in
     bind_outcome (mine_txs env tip matched (tx_lifecycles sm)) (\<lambda>lifecycles.
     let mined = sm\<lparr>unburied_blocks := blocks, tx_lifecycles := lifecycles\<rparr>;
         (sm', buried, block_event) = bury_oldest env mined in
     Ok (sm', map (mined_event env tip) matched @ buried, block_event))))"

subsection \<open>Raw transactions\<close>

definition zmq_process_tx ::
    "zmq_env \<Rightarrow> btc_zmq_sm \<Rightarrow> transaction \<Rightarrow> btc_zmq_sm \<times> tx_event list" where
  "zmq_process_tx env sm tx =
     (let txid = zmq_txid env tx;
          seen = sm\<lparr>tx_lifecycles :=
                     bt_insert txid (Some \<lparr>lc_raw = tx, lc_block = None\<rparr>) (tx_lifecycles sm)\<rparr> in
      if \<not> matches_any (tx_filters sm) tx then (sm, [])
      else
        case bt_get (tx_lifecycles sm) txid of
          None \<Rightarrow> (seen, [])
        | Some None \<Rightarrow> (seen, [\<lparr>rawtx = tx, ev_status = StatusMempool\<rparr>])
        | Some (Some _) \<Rightarrow> (sm, []))"

subsection \<open>Sequence messages\<close>

text \<open>Whether \<open>retain\<close> keeps an entry when the block with the given hash is disconnected.\<close>

definition bound_to :: "block_hash \<Rightarrow> tx_lifecycle option \<Rightarrow> bool" where
  "bound_to blockhash v =
     (case v of
        Some lifecycle \<Rightarrow> (case lc_block lifecycle of Some (_, blk) \<Rightarrow> blk = blockhash | None \<Rightarrow> False)
      | None \<Rightarrow> False)"

definition unknown_event :: "transaction \<Rightarrow> tx_event" where
  "unknown_event tx = \<lparr>rawtx = tx, ev_status = StatusUnknown\<rparr>"

definition disconnect_block ::
    "zmq_env \<Rightarrow> btc_zmq_sm \<Rightarrow> block_hash \<Rightarrow> (btc_zmq_sm \<times> tx_event list \<times> block_event option) zmq_step" where
  "disconnect_block env sm blockhash =
     (let dropped = filter (bound_to blockhash) (bt_values (tx_lifecycles sm));
          diff = List.map_filter (map_option (\<lambda>l. unknown_event (lc_raw l))) dropped;
          sm' = sm\<lparr>tx_lifecycles := bt_retain (\<lambda>_ v. \<not> bound_to blockhash v) (tx_lifecycles sm)\<rparr> in
      case unburied_blocks sm of
        [] \<Rightarrow> Ok (sm', diff, None)
      | b # rest \<Rightarrow>
          if zmq_block_hash env b = blockhash
          then Ok (sm'\<lparr>unburied_blocks := rest\<rparr>, diff,
                   Some \<lparr>ev_block = b, blk_status = BlockUncled\<rparr>)
          else Panic)"

definition process_sequence ::
    "zmq_env \<Rightarrow> btc_zmq_sm \<Rightarrow> sequence_message \<Rightarrow>
     (btc_zmq_sm \<times> tx_event list \<times> block_event option) zmq_step" where
  "process_sequence env sm seq =
     (case seq of
        BlockConnect _ \<Rightarrow> Ok (sm, [], None)
      | BlockDisconnect blockhash \<Rightarrow> disconnect_block env sm blockhash
      | MempoolAcceptance txid \<Rightarrow>
          (case bt_get (tx_lifecycles sm) txid of
             Some (Some lifecycle) \<Rightarrow>
               (case lc_block lifecycle of
                  None \<Rightarrow> Ok (sm, [\<lparr>rawtx = lc_raw lifecycle, ev_status = StatusMempool\<rparr>], None)
                | Some _ \<Rightarrow> Ok (sm, [], None))
           | Some None \<Rightarrow> Panic
           | None \<Rightarrow> Ok (sm\<lparr>tx_lifecycles := bt_insert txid None (tx_lifecycles sm)\<rparr>, [], None))
      | MempoolRemoval txid \<Rightarrow>
          let sm' = sm\<lparr>tx_lifecycles := bt_remove txid (tx_lifecycles sm)\<rparr> in
          (case bt_get (tx_lifecycles sm) txid of
             Some (Some lifecycle) \<Rightarrow> Ok (sm', [unknown_event (lc_raw lifecycle)], None)
           | _ \<Rightarrow> Ok (sm', [], None)))"

section \<open>The invariant of the tracker\<close>

text \<open>
  The queue is a segment of one chain that is no longer than the bury depth, an entry with
  transaction data carries the data of its key, and an entry bound to a block is bound to a queued
  block that contains the transaction.
\<close>

fun chained :: "zmq_env \<Rightarrow> block list \<Rightarrow> bool" where
  "chained env (b # tip # rest) \<longleftrightarrow>
     prev_blockhash b = zmq_block_hash env tip \<and> chained env (tip # rest)"
| "chained env _ \<longleftrightarrow> True"

definition block_txids :: "zmq_env \<Rightarrow> block \<Rightarrow> txid set" where
  "block_txids env b = zmq_txid env ` set (txdata b)"

definition lifecycles_ok :: "zmq_env \<Rightarrow> block list \<Rightarrow> (txid, tx_lifecycle option) btree_map \<Rightarrow> bool" where
  "lifecycles_ok env blocks m \<longleftrightarrow>
     (\<forall>i l. bt_get m i = Some (Some l) \<longrightarrow>
        i = zmq_txid env (lc_raw l) \<and>
        (\<forall>h bh. lc_block l = Some (h, bh) \<longrightarrow>
           (\<exists>b \<in> set blocks. zmq_block_hash env b = bh \<and> i \<in> block_txids env b)))"

definition zmq_inv :: "zmq_env \<Rightarrow> btc_zmq_sm \<Rightarrow> bool" where
  "zmq_inv env sm \<longleftrightarrow>
     length (unburied_blocks sm) \<le> bury_depth sm \<and> chained env (unburied_blocks sm) \<and>
     lifecycles_ok env (unburied_blocks sm) (tx_lifecycles sm)"

lemma chained_Cons:
  "chained env (b # q) \<longleftrightarrow>
     (case q of [] \<Rightarrow> True | tip # _ \<Rightarrow> prev_blockhash b = zmq_block_hash env tip) \<and> chained env q"
  by (cases q) simp_all

lemma chained_butlast: "chained env q \<Longrightarrow> chained env (butlast q)"
  by (induction q rule: induct_list012) (auto simp: chained_Cons split: list.splits)

lemma chained_push: "extends_tip env sm b \<Longrightarrow> chained env (unburied_blocks sm) \<Longrightarrow>
    chained env (b # unburied_blocks sm)"
  by (simp add: chained_Cons extends_tip_def)

lemma lifecycles_okD:
  assumes "lifecycles_ok env q m" and "bt_get m i = Some (Some l)"
  shows "i = zmq_txid env (lc_raw l)"
    and "lc_block l = Some (h, bh) \<Longrightarrow>
         \<exists>b \<in> set q. zmq_block_hash env b = bh \<and> i \<in> block_txids env b"
  using assms by (auto simp: lifecycles_ok_def)

lemma lifecycles_ok_mono: "lifecycles_ok env q m \<Longrightarrow> set q \<subseteq> set q' \<Longrightarrow> lifecycles_ok env q' m"
  by (fastforce simp: lifecycles_ok_def)

lemma lifecycles_ok_submap:
  "lifecycles_ok env q m \<Longrightarrow> (\<And>i l. bt_get m' i = Some (Some l) \<Longrightarrow> bt_get m i = Some (Some l)) \<Longrightarrow>
   lifecycles_ok env q m'"
  by (fastforce simp: lifecycles_ok_def)

lemma lifecycles_ok_insert:
  assumes "lifecycles_ok env q m" and "i = zmq_txid env (lc_raw l)"
    and "\<And>h bh. lc_block l = Some (h, bh) \<Longrightarrow>
           \<exists>b \<in> set q. zmq_block_hash env b = bh \<and> i \<in> block_txids env b"
  shows "lifecycles_ok env q (bt_insert i (Some l) m)"
  using assms by (auto simp: lifecycles_ok_def bt.get_insert)

subsection \<open>Mining and burying\<close>

text \<open>What one pass over a block leaves in the map of lifecycles.\<close>

lemma mine_tx_Ok:
  assumes "mine_tx env b tx m = Ok m'"
  obtains l where "m' = bt_insert (zmq_txid env tx) (Some l) m"
    and "lc_block l = Some (zmq_height env b, zmq_block_hash env b)"
    and "lc_raw l = (case bt_get m (zmq_txid env tx) of Some (Some old) \<Rightarrow> lc_raw old | _ \<Rightarrow> tx)"
  using assms
  by (auto simp: mine_tx_def Let_def split: option.splits if_splits prod.splits)

lemma mine_tx_inv:
  assumes "mine_tx env b tx m = Ok m'" "lifecycles_ok env q m" "b \<in> set q" "tx \<in> set (txdata b)"
  shows "lifecycles_ok env q m'"
proof -
  obtain l where m': "m' = bt_insert (zmq_txid env tx) (Some l) m"
    and blk: "lc_block l = Some (zmq_height env b, zmq_block_hash env b)"
    and raw: "lc_raw l = (case bt_get m (zmq_txid env tx) of Some (Some old) \<Rightarrow> lc_raw old | _ \<Rightarrow> tx)"
    using assms(1) by (rule mine_tx_Ok)
  have key: "zmq_txid env tx = zmq_txid env (lc_raw l)"
    using lifecycles_okD(1) [OF assms(2)] by (auto simp: raw split: option.splits)
  have here: "zmq_txid env tx \<in> block_txids env b"
    using assms(4) by (simp add: block_txids_def)
  show ?thesis
    unfolding m' using assms(2,3) key blk here by (intro lifecycles_ok_insert) auto
qed

lemma mine_txs_inv:
  "mine_txs env b txs m = Ok m' \<Longrightarrow> lifecycles_ok env q m \<Longrightarrow> b \<in> set q \<Longrightarrow>
   set txs \<subseteq> set (txdata b) \<Longrightarrow> lifecycles_ok env q m'"
proof (induction txs arbitrary: m)
  case (Cons tx txs)
  then obtain m1 where "mine_tx env b tx m = Ok m1" "mine_txs env b txs m1 = Ok m'"
    by (cases "mine_tx env b tx m") auto
  with Cons show ?case
    using mine_tx_inv [of env b tx m m1 q] by auto
qed simp

lemma bt_get_bury_txs:
  "bt_get (bury_txs env b m) i = (if i \<in> block_txids env b then None else bt_get m i)"
proof -
  have "bt_get (foldl (\<lambda>m tx. bt_remove (zmq_txid env tx) m) m txs) i =
        (if i \<in> zmq_txid env ` set txs then None else bt_get m i)" for txs
    by (induction txs arbitrary: m) (auto simp: bt.get_remove)
  then show ?thesis
    by (simp add: bury_txs_def block_txids_def)
qed

lemma lifecycles_ok_bury:
  assumes "lifecycles_ok env q m" and "q \<noteq> []"
  shows "lifecycles_ok env (butlast q) (bury_txs env (last q) m)"
  unfolding lifecycles_ok_def
proof (intro allI impI conjI)
  fix i l
  assume l: "bt_get (bury_txs env (last q) m) i = Some (Some l)"
  then have i: "i \<notin> block_txids env (last q)" and old: "bt_get m i = Some (Some l)"
    by (auto simp: bt_get_bury_txs split: if_splits)
  show "i = zmq_txid env (lc_raw l)"
    by (rule lifecycles_okD(1) [OF assms(1) old])
  fix h bh
  assume "lc_block l = Some (h, bh)"
  then obtain b where b: "b \<in> set q" "zmq_block_hash env b = bh" "i \<in> block_txids env b"
    using lifecycles_okD(2) [OF assms(1) old] by blast
  moreover have "set q = insert (last q) (set (butlast q))"
    using assms(2) by (metis append_butlast_last_id list.simps(15) rotate1.simps(2) set_rotate1)
  ultimately show "\<exists>b \<in> set (butlast q). zmq_block_hash env b = bh \<and> i \<in> block_txids env b"
    using i by auto
qed

lemma bury_oldest_inv:
  assumes "bury_oldest env sm = (sm', evs, be)" and "chained env (unburied_blocks sm)"
    and "lifecycles_ok env (unburied_blocks sm) (tx_lifecycles sm)"
    and "length (unburied_blocks sm) \<le> Suc (bury_depth sm)"
  shows "zmq_inv env sm'"
  using assms
  by (auto simp: bury_oldest_def zmq_inv_def Let_def chained_butlast split: if_splits
      intro!: lifecycles_ok_bury)

lemma zmq_process_block_OkE:
  assumes "zmq_process_block env sm b = Ok (sm', diff, be)"
  obtains tip rest m buried where "push_block env sm b = Ok (tip # rest)"
    and "mine_txs env tip (filter (matches_any (tx_filters sm)) (txdata tip)) (tx_lifecycles sm) = Ok m"
    and "bury_oldest env (sm\<lparr>unburied_blocks := tip # rest, tx_lifecycles := m\<rparr>) = (sm', buried, be)"
    and "diff = map (mined_event env tip) (filter (matches_any (tx_filters sm)) (txdata tip)) @ buried"
proof -
  obtain blocks where p: "push_block env sm b = Ok blocks"
    using assms by (cases "push_block env sm b") (auto simp: zmq_process_block_def)
  then obtain tip rest where q: "blocks = tip # rest"
    using assms by (cases blocks) (auto simp: zmq_process_block_def expect_def list_get_def)
  let ?f = "filter (matches_any (tx_filters sm)) (txdata tip)"
  obtain m where m: "mine_txs env tip ?f (tx_lifecycles sm) = Ok m"
    using assms by (cases "mine_txs env tip ?f (tx_lifecycles sm)")
      (auto simp: zmq_process_block_def expect_def list_get_def p q Let_def)
  show thesis
    using assms that [OF p [unfolded q] m]
    by (auto simp: zmq_process_block_def expect_def list_get_def p q m Let_def split: prod.splits)
qed

lemma push_block_cases:
  assumes "push_block env sm b = Ok q"
  shows "extends_tip env sm b \<and> q = b # unburied_blocks sm \<or>
         \<not> extends_tip env sm b \<and> \<not> zmq_debug_assertions env \<and> q = unburied_blocks sm"
  using assms by (auto simp: push_block_def split: if_splits)

lemma zmq_process_block_inv:
  assumes "zmq_process_block env sm b = Ok (sm', diff, be)" and inv: "zmq_inv env sm"
  shows "zmq_inv env sm'"
proof -
  obtain tip rest m buried where p: "push_block env sm b = Ok (tip # rest)"
    and m: "mine_txs env tip (filter (matches_any (tx_filters sm)) (txdata tip)) (tx_lifecycles sm) = Ok m"
    and bury: "bury_oldest env (sm\<lparr>unburied_blocks := tip # rest, tx_lifecycles := m\<rparr>) = (sm', buried, be)"
    using assms(1) by (rule zmq_process_block_OkE)
  have q: "chained env (tip # rest)" "set (unburied_blocks sm) \<subseteq> set (tip # rest)"
      "length (tip # rest) \<le> Suc (bury_depth sm)"
    using push_block_cases [OF p] inv chained_push [of env sm b]
    by (elim disjE conjE; simp add: zmq_inv_def; blast?)+
  have "lifecycles_ok env (tip # rest) (tx_lifecycles sm)"
    by (rule lifecycles_ok_mono [OF _ q(2)]) (use inv in \<open>simp add: zmq_inv_def\<close>)
  then have "lifecycles_ok env (tip # rest) m"
    by (intro mine_txs_inv [OF m]) auto
  then show ?thesis
    using q by (intro bury_oldest_inv [OF bury]) auto
qed

subsection \<open>The other messages\<close>

lemma zmq_process_tx_inv: "zmq_inv env sm \<Longrightarrow> zmq_inv env (fst (zmq_process_tx env sm tx))"
  by (auto simp: zmq_process_tx_def zmq_inv_def Let_def intro!: lifecycles_ok_insert
      split: option.splits)

lemma lifecycles_ok_disconnect:
  assumes ok: "lifecycles_ok env q m"
    and q: "\<And>b. b \<in> set q \<Longrightarrow> b \<in> set q' \<or> zmq_block_hash env b = bh"
  shows "lifecycles_ok env q' (bt_retain (\<lambda>_ v. \<not> bound_to bh v) m)" (is "lifecycles_ok env q' ?m")
  unfolding lifecycles_ok_def
proof (intro allI impI conjI)
  fix i l
  assume "bt_get ?m i = Some (Some l)"
  then have old: "bt_get m i = Some (Some l)" and free: "\<And>h. lc_block l \<noteq> Some (h, bh)"
    by (auto simp: bt_get_retain bound_to_def split: option.splits if_splits)
  show "i = zmq_txid env (lc_raw l)"
    by (rule lifecycles_okD(1) [OF ok old])
  fix h blk
  assume l: "lc_block l = Some (h, blk)"
  then obtain b where b: "b \<in> set q" "zmq_block_hash env b = blk" "i \<in> block_txids env b"
    using lifecycles_okD(2) [OF ok old] by blast
  moreover have "blk \<noteq> bh"
    using free l by blast
  ultimately show "\<exists>b \<in> set q'. zmq_block_hash env b = blk \<and> i \<in> block_txids env b"
    using q by blast
qed

lemma disconnect_block_inv:
  assumes "disconnect_block env sm bh = Ok (sm', diff, be)" and "zmq_inv env sm"
  shows "zmq_inv env sm'"
proof (cases "unburied_blocks sm")
  case Nil
  with assms show ?thesis
    using lifecycles_ok_disconnect [of env "[]" "tx_lifecycles sm" "[]" bh]
    by (auto simp: disconnect_block_def zmq_inv_def Let_def)
next
  case (Cons b rest)
  then have "zmq_block_hash env b = bh"
    using assms(1) by (auto simp: disconnect_block_def Let_def split: if_splits)
  then have "lifecycles_ok env rest (bt_retain (\<lambda>_ v. \<not> bound_to bh v) (tx_lifecycles sm))"
    using assms(2) Cons by (intro lifecycles_ok_disconnect [of env "b # rest"]) (auto simp: zmq_inv_def)
  with assms Cons show ?thesis
    by (auto simp: disconnect_block_def zmq_inv_def Let_def chained_Cons split: if_splits)
qed

lemma lifecycles_ok_placeholder: "lifecycles_ok env q m \<Longrightarrow> lifecycles_ok env q (bt_insert i None m)"
  by (erule lifecycles_ok_submap) (simp add: bt.get_insert split: if_splits)

lemma lifecycles_ok_remove: "lifecycles_ok env q m \<Longrightarrow> lifecycles_ok env q (bt_remove i m)"
  by (erule lifecycles_ok_submap) (simp add: bt.get_remove split: if_splits)

lemma process_sequence_inv:
  assumes "process_sequence env sm seq = Ok (sm', diff, be)" and "zmq_inv env sm"
  shows "zmq_inv env sm'"
proof (cases seq)
  case (BlockDisconnect bh)
  then show ?thesis
    using assms disconnect_block_inv by (simp add: process_sequence_def)
next
  case (MempoolAcceptance i)
  then show ?thesis
    using assms lifecycles_ok_placeholder [of env "unburied_blocks sm" "tx_lifecycles sm" i]
    by (auto simp: process_sequence_def zmq_inv_def split: option.splits)
next
  case (MempoolRemoval i)
  then show ?thesis
    using assms lifecycles_ok_remove [of env "unburied_blocks sm" "tx_lifecycles sm" i]
    by (auto simp: process_sequence_def zmq_inv_def Let_def split: option.splits)
qed (use assms in \<open>simp add: process_sequence_def\<close>)

section \<open>What a block changes\<close>

text \<open>The entry of every transaction of the pass is bound to the block; the others are untouched.\<close>

definition mined_lifecycle ::
    "zmq_env \<Rightarrow> block \<Rightarrow> transaction \<Rightarrow> tx_lifecycle option option \<Rightarrow> tx_lifecycle" where
  "mined_lifecycle env b tx before =
     \<lparr>lc_raw = (case before of Some (Some old) \<Rightarrow> lc_raw old | _ \<Rightarrow> tx),
      lc_block = Some (zmq_height env b, zmq_block_hash env b)\<rparr>"

lemma lc_block_update: "l\<lparr>lc_block := v\<rparr> = \<lparr>lc_raw = lc_raw l, lc_block = v\<rparr>"
  by (cases l) simp

lemma mine_tx_lifecycle:
  assumes "mine_tx env b tx m = Ok m'"
  shows "m' = bt_insert (zmq_txid env tx)
                (Some (mined_lifecycle env b tx (bt_get m (zmq_txid env tx)))) m"
  using assms
  by (auto simp: mine_tx_def mined_lifecycle_def Let_def lc_block_update split: option.splits if_splits prod.splits)

lemma bt_get_mine_txs:
  "mine_txs env b txs m = Ok m' \<Longrightarrow> distinct (map (zmq_txid env) txs) \<Longrightarrow>
   bt_get m' i =
     (case find (\<lambda>tx. zmq_txid env tx = i) txs of
        None \<Rightarrow> bt_get m i
      | Some tx \<Rightarrow> Some (Some (mined_lifecycle env b tx (bt_get m i))))"
proof (induction txs arbitrary: m)
  case (Cons tx txs)
  obtain m1 where m1: "mine_tx env b tx m = Ok m1" "mine_txs env b txs m1 = Ok m'"
    using Cons.prems(1) by (cases "mine_tx env b tx m") auto
  have "find (\<lambda>t. zmq_txid env t = i) txs = None" if "zmq_txid env tx = i"
    using Cons.prems(2) that by (simp add: find_None_iff) (metis imageI)
  then show ?case
    using Cons.IH [OF m1(2)] Cons.prems(2) mine_tx_lifecycle [OF m1(1)]
    by (auto simp: bt.get_insert split: option.split)
qed simp

lemma mined_entry:
  assumes "mine_txs env b txs m = Ok m'" "distinct (map (zmq_txid env) txs)" "tx \<in> set txs"
  shows "bt_get m' (zmq_txid env tx) =
           Some (Some (mined_lifecycle env b tx (bt_get m (zmq_txid env tx))))"
proof -
  have "find (\<lambda>t. zmq_txid env t = zmq_txid env tx) txs = Some tx"
    using assms(2,3) by (induction txs) auto
  then show ?thesis
    using bt_get_mine_txs [OF assms(1,2), of "zmq_txid env tx"] by simp
qed

lemma mine_txs_total:
  assumes "\<And>tx l. tx \<in> set txs \<Longrightarrow> bt_get m (zmq_txid env tx) = Some (Some l) \<Longrightarrow> lc_block l = None"
    and "distinct (map (zmq_txid env) txs)"
  shows "\<exists>m'. mine_txs env b txs m = Ok m'"
  using assms
proof (induction txs arbitrary: m)
  case (Cons tx txs)
  have "\<exists>m1. mine_tx env b tx m = Ok m1"
    using Cons.prems(1) [of tx] by (auto simp: mine_tx_def Let_def split: option.splits)
  then obtain m1 where m1: "mine_tx env b tx m = Ok m1"
    by blast
  have "\<exists>m'. mine_txs env b txs m1 = Ok m'"
    using Cons.prems mine_tx_lifecycle [OF m1]
    by (intro Cons.IH) (auto simp: bt.get_insert split: if_splits)
  with m1 show ?case
    by auto
qed simp

text \<open>
  The announcements a block causes, stated on the chain alone: every transaction of the block that
  satisfies the predicate is mined, and every one of the block that falls off the end of the queue
  is buried.
\<close>

definition falls_off :: "nat \<Rightarrow> block list \<Rightarrow> block list" where
  "falls_off depth q = (if length q > depth then [last q] else [])"

definition block_diff ::
    "zmq_env \<Rightarrow> (transaction \<Rightarrow> bool) \<Rightarrow> nat \<Rightarrow> block list \<Rightarrow> block \<Rightarrow> tx_event list" where
  "block_diff env p depth q b =
     map (mined_event env b) (filter p (txdata b)) @
     concat (map (\<lambda>x. map (buried_event env x) (filter p (txdata x))) (falls_off depth (b # q)))"

text \<open>A block as a node relays it: it extends the tip and its transactions are new to the chain.\<close>

definition next_block :: "zmq_env \<Rightarrow> block list \<Rightarrow> block \<Rightarrow> bool" where
  "next_block env q b \<longleftrightarrow>
     chained env (b # take 1 q) \<and> distinct (map (zmq_txid env) (txdata b)) \<and>
     list_all (\<lambda>old. list_all (\<lambda>tx. \<not> list_ex (\<lambda>t. zmq_txid env t = zmq_txid env tx) (txdata old))
       (txdata b)) q"

lemma next_block_extends: "next_block env (unburied_blocks sm) b \<Longrightarrow> extends_tip env sm b"
  by (cases "unburied_blocks sm") (auto simp: next_block_def extends_tip_def)

lemma next_block_new:
  "next_block env q b \<Longrightarrow> tx \<in> set (txdata b) \<Longrightarrow> old \<in> set q \<Longrightarrow> zmq_txid env tx \<notin> block_txids env old"
  by (force simp: next_block_def block_txids_def list_all_iff list_ex_iff)

lemma distinct_map_filter_txs:
  "distinct (map f xs) \<Longrightarrow> distinct (map f (filter p xs))"
  by (induction xs) auto

lemma next_block_mines:
  assumes "zmq_inv env sm" and "next_block env (unburied_blocks sm) b"
  shows "\<exists>m. mine_txs env b (filter p (txdata b)) (tx_lifecycles sm) = Ok m"
proof (rule mine_txs_total)
  show "distinct (map (zmq_txid env) (filter p (txdata b)))"
    using assms(2) by (simp add: next_block_def distinct_map_filter_txs)
  fix tx l
  assume tx: "tx \<in> set (filter p (txdata b))"
    and l: "bt_get (tx_lifecycles sm) (zmq_txid env tx) = Some (Some l)"
  have "lifecycles_ok env (unburied_blocks sm) (tx_lifecycles sm)"
    using assms(1) by (simp add: zmq_inv_def)
  then have "\<exists>old \<in> set (unburied_blocks sm). zmq_txid env tx \<in> block_txids env old"
    if "lc_block l = Some (h, bh)" for h bh
    using lifecycles_okD(2) [OF _ l that] by blast
  then show "lc_block l = None"
    using next_block_new [OF assms(2)] tx by (cases "lc_block l") auto
qed

lemma bury_oldest_spec:
  assumes "length (unburied_blocks sm) \<le> Suc (bury_depth sm)"
  shows "bury_oldest env sm =
    (sm\<lparr>unburied_blocks := take (bury_depth sm) (unburied_blocks sm),
        tx_lifecycles := (case falls_off (bury_depth sm) (unburied_blocks sm) of
           [] \<Rightarrow> tx_lifecycles sm | b # _ \<Rightarrow> bury_txs env b (tx_lifecycles sm))\<rparr>,
     concat (map (\<lambda>x. map (buried_event env x) (filter (matches_any (tx_filters sm)) (txdata x)))
       (falls_off (bury_depth sm) (unburied_blocks sm))),
     (case falls_off (bury_depth sm) (unburied_blocks sm) of
        [] \<Rightarrow> None | b # _ \<Rightarrow> Some \<lparr>ev_block = b, blk_status = BlockBuried\<rparr>))"
proof (cases "length (unburied_blocks sm) > bury_depth sm")
  case True
  with assms have "length (unburied_blocks sm) - Suc 0 = bury_depth sm"
    by simp
  with True show ?thesis
    by (simp add: bury_oldest_def falls_off_def Let_def butlast_conv_take)
qed (simp add: bury_oldest_def falls_off_def)

lemma zmq_process_block_total:
  assumes inv: "zmq_inv env sm" and b: "next_block env (unburied_blocks sm) b"
  shows "\<exists>sm' be. zmq_process_block env sm b =
           Ok (sm', block_diff env (matches_any (tx_filters sm)) (bury_depth sm) (unburied_blocks sm) b, be) \<and>
         unburied_blocks sm' = take (bury_depth sm) (b # unburied_blocks sm) \<and>
         tx_filters sm' = tx_filters sm \<and> bury_depth sm' = bury_depth sm"
proof -
  obtain m where m: "mine_txs env b (filter (matches_any (tx_filters sm)) (txdata b)) (tx_lifecycles sm) = Ok m"
    using next_block_mines [OF inv b] by blast
  have p: "push_block env sm b = Ok (b # unburied_blocks sm)"
    using next_block_extends [OF b] by (simp add: push_block_def)
  have len: "length (b # unburied_blocks sm) \<le> Suc (bury_depth sm)"
    using inv by (simp add: zmq_inv_def)
  show ?thesis
    using len by (simp add: zmq_process_block_def p m expect_def list_get_def bury_oldest_spec block_diff_def)
qed

section \<open>Reversals and races\<close>

text \<open>A block and its disconnection, for a block whose transactions are not tracked yet.\<close>

lemma find_SomeD: "find p xs = Some x \<Longrightarrow> p x \<and> x \<in> set xs"
  by (auto simp: find_Some_iff)

lemma mined_bound_iff:
  assumes m': "mine_txs env b txs m = Ok m'" and d: "distinct (map (zmq_txid env) txs)"
    and un: "\<And>tx. tx \<in> set txs \<Longrightarrow> bt_get m (zmq_txid env tx) = None"
    and free: "\<And>i v. bt_get m i = Some v \<Longrightarrow> \<not> bound_to (zmq_block_hash env b) v"
  shows "bt_get m' i = Some (Some l) \<and> bound_to (zmq_block_hash env b) (Some l) \<longleftrightarrow>
    (\<exists>tx \<in> set txs. i = zmq_txid env tx \<and>
       l = \<lparr>lc_raw = tx, lc_block = Some (zmq_height env b, zmq_block_hash env b)\<rparr>)"
proof
  assume l: "bt_get m' i = Some (Some l) \<and> bound_to (zmq_block_hash env b) (Some l)"
  then obtain tx where tx: "find (\<lambda>tx. zmq_txid env tx = i) txs = Some tx"
    using bt_get_mine_txs [OF m' d, of i] free [of i] by (auto split: option.splits)
  then have "zmq_txid env tx = i" "tx \<in> set txs" "bt_get m i = None"
    using find_SomeD [OF tx] un by auto
  with tx show "\<exists>tx \<in> set txs. i = zmq_txid env tx \<and>
       l = \<lparr>lc_raw = tx, lc_block = Some (zmq_height env b, zmq_block_hash env b)\<rparr>"
    using l bt_get_mine_txs [OF m' d, of i] by (auto simp: mined_lifecycle_def)
next
  assume "\<exists>tx \<in> set txs. i = zmq_txid env tx \<and>
       l = \<lparr>lc_raw = tx, lc_block = Some (zmq_height env b, zmq_block_hash env b)\<rparr>"
  then show "bt_get m' i = Some (Some l) \<and> bound_to (zmq_block_hash env b) (Some l)"
    using mined_entry [OF m' d] un by (auto simp: mined_lifecycle_def bound_to_def)
qed

lemma retain_mined:
  assumes m': "mine_txs env b txs m = Ok m'" and d: "distinct (map (zmq_txid env) txs)"
    and un: "\<And>tx. tx \<in> set txs \<Longrightarrow> bt_get m (zmq_txid env tx) = None"
    and free: "\<And>i v. bt_get m i = Some v \<Longrightarrow> \<not> bound_to (zmq_block_hash env b) v"
  shows "bt_retain (\<lambda>_ v. \<not> bound_to (zmq_block_hash env b) v) m' = m"
proof (rule bt.get_ext)
  fix i
  have "bound_to (zmq_block_hash env b) (Some (mined_lifecycle env b tx x))" for tx x
    by (simp add: bound_to_def mined_lifecycle_def)
  then show "bt_get (bt_retain (\<lambda>_ v. \<not> bound_to (zmq_block_hash env b) v) m') i = bt_get m i"
    using un free [of i] bt_get_mine_txs [OF m' d, of i]
    by (auto simp: bt_get_retain split: option.splits dest: find_SomeD)
qed

lemma not_bound_to_new_hash:
  assumes "zmq_inv env sm" and "list_all (\<lambda>x. zmq_block_hash env x \<noteq> bh) (unburied_blocks sm)"
    and "bt_get (tx_lifecycles sm) i = Some v"
  shows "\<not> bound_to bh v"
proof
  assume "bound_to bh v"
  then obtain l h where l: "v = Some l" "lc_block l = Some (h, bh)"
    by (auto simp: bound_to_def split: option.splits)
  have "lifecycles_ok env (unburied_blocks sm) (tx_lifecycles sm)"
    using assms(1) by (simp add: zmq_inv_def)
  then obtain b where "b \<in> set (unburied_blocks sm)" "zmq_block_hash env b = bh"
    using lifecycles_okD(2) assms(3) l by blast
  with assms(2) show False
    by (simp add: list_all_iff)
qed

text \<open>The retained part of the map and the transactions reported as gone.\<close>

lemma set_disconnect_diff:
  "set (List.map_filter (map_option (\<lambda>l. unknown_event (lc_raw l)))
     (filter (bound_to bh) (bt_values m))) =
   {unknown_event (lc_raw l) | i l. bt_get m i = Some (Some l) \<and> bound_to bh (Some l)}"
  by (auto simp: List.map_filter_def bt_set_values image_iff) (metis option.sel option.simps(9))+


subsection \<open>Messages that race\<close>

text \<open>
  The three streams are delivered independently. A raw transaction and its acceptance into the
  mempool commute; so do a raw transaction and the block that contains it.
\<close>

lemma rawtx_then_acceptance:
  assumes "matches_any (tx_filters sm) tx" and "bt_get (tx_lifecycles sm) (zmq_txid env tx) = None"
  shows "process_sequence env (fst (zmq_process_tx env sm tx)) (MempoolAcceptance (zmq_txid env tx)) =
      Ok (sm\<lparr>tx_lifecycles := bt_insert (zmq_txid env tx) (Some \<lparr>lc_raw = tx, lc_block = None\<rparr>)
               (tx_lifecycles sm)\<rparr>, [\<lparr>rawtx = tx, ev_status = StatusMempool\<rparr>], None)"
    and "snd (zmq_process_tx env sm tx) = []"
  using assms by (simp_all add: process_sequence_def zmq_process_tx_def bt.get_insert)

lemma bt_insert_twice: "bt_insert k v (bt_insert k w m) = bt_insert k v m"
  by (rule bt.get_ext) (simp add: bt.get_insert)

lemma acceptance_then_rawtx:
  assumes "matches_any (tx_filters sm) tx" and "bt_get (tx_lifecycles sm) (zmq_txid env tx) = None"
  shows "\<exists>sm1. process_sequence env sm (MempoolAcceptance (zmq_txid env tx)) = Ok (sm1, [], None) \<and>
      zmq_process_tx env sm1 tx =
        (sm\<lparr>tx_lifecycles := bt_insert (zmq_txid env tx) (Some \<lparr>lc_raw = tx, lc_block = None\<rparr>)
              (tx_lifecycles sm)\<rparr>, [\<lparr>rawtx = tx, ev_status = StatusMempool\<rparr>])"
  using assms
  by (simp add: process_sequence_def zmq_process_tx_def bt.get_insert bt_insert_twice)

lemma mine_txs_after_rawtx:
  assumes m': "mine_txs env b txs m = Ok m'" and m2: "mine_txs env b txs m1 = Ok m2"
    and d: "distinct (map (zmq_txid env) txs)" and tx: "tx \<in> set txs"
    and un: "bt_get m (zmq_txid env tx) = None"
    and m1: "m1 = bt_insert (zmq_txid env tx) (Some \<lparr>lc_raw = tx, lc_block = None\<rparr>) m"
  shows "m2 = m'"
proof (rule bt.get_ext)
  fix i
  show "bt_get m2 i = bt_get m' i"
  proof (cases "i = zmq_txid env tx")
    case True
    then show ?thesis
      using mined_entry [OF m' d tx] mined_entry [OF m2 d tx] un
      by (simp add: m1 bt.get_insert mined_lifecycle_def)
  next
    case False
    then show ?thesis
      using bt_get_mine_txs [OF m' d, of i] bt_get_mine_txs [OF m2 d, of i]
      by (auto simp: m1 bt.get_insert split: option.splits)
  qed
qed

lemma rawtx_then_block:
  assumes inv: "zmq_inv env sm" and b: "next_block env (unburied_blocks sm) b"
    and tx: "tx \<in> set (txdata b)" and un: "bt_get (tx_lifecycles sm) (zmq_txid env tx) = None"
  shows "zmq_process_block env (fst (zmq_process_tx env sm tx)) b = zmq_process_block env sm b"
proof (cases "matches_any (tx_filters sm) tx")
  case True
  let ?txs = "filter (matches_any (tx_filters sm)) (txdata b)"
  let ?m1 = "bt_insert (zmq_txid env tx) (Some \<lparr>lc_raw = tx, lc_block = None\<rparr>) (tx_lifecycles sm)"
  have sm1: "fst (zmq_process_tx env sm tx) = sm\<lparr>tx_lifecycles := ?m1\<rparr>"
    using True un by (simp add: zmq_process_tx_def)
  have d: "distinct (map (zmq_txid env) ?txs)"
    using b by (simp add: next_block_def distinct_map_filter_txs)
  obtain m' where m': "mine_txs env b ?txs (tx_lifecycles sm) = Ok m'"
    using next_block_mines [OF inv b] by blast
  obtain m2 where m2: "mine_txs env b ?txs ?m1 = Ok m2"
    using next_block_mines [OF zmq_process_tx_inv [OF inv, of tx], of b] b by (auto simp: sm1)
  have "m2 = m'"
    using tx True un by (intro mine_txs_after_rawtx [OF m' m2 d]) auto
  then show ?thesis
    using next_block_extends [OF b] m' m2
    by (simp add: sm1 zmq_process_block_def push_block_def extends_tip_def expect_def list_get_def)
qed (simp add: zmq_process_tx_def)

lemma block_then_rawtx:
  assumes inv: "zmq_inv env sm" and b: "next_block env (unburied_blocks sm) b"
    and tx: "tx \<in> set (txdata b)" and depth: "0 < bury_depth sm"
    and sm': "zmq_process_block env sm b = Ok (sm', diff, be)"
  shows "zmq_process_tx env sm' tx = (sm', [])"
proof (cases "matches_any (tx_filters sm) tx")
  case True
  let ?txs = "filter (matches_any (tx_filters sm)) (txdata b)"
  have d: "distinct (map (zmq_txid env) ?txs)"
    using b by (simp add: next_block_def distinct_map_filter_txs)
  obtain m where m: "mine_txs env b ?txs (tx_lifecycles sm) = Ok m"
    using next_block_mines [OF inv b] by blast
  have "\<exists>l. bt_get m (zmq_txid env tx) = Some (Some l)"
    using mined_entry [OF m d, of tx] tx True by simp
  moreover have "zmq_txid env tx \<notin> block_txids env (last (b # unburied_blocks sm))"
    if "length (b # unburied_blocks sm) > bury_depth sm"
    using that depth tx next_block_new [OF b, of tx "last (unburied_blocks sm)"] by auto
  ultimately have "\<exists>l. bt_get (tx_lifecycles sm') (zmq_txid env tx) = Some (Some l)"
    using sm' next_block_extends [OF b]
    by (auto simp: zmq_process_block_def push_block_def m expect_def list_get_def bury_oldest_def
        Let_def bt_get_bury_txs split: if_splits)
  then show ?thesis
    by (auto simp: zmq_process_tx_def Let_def)
next
  case False
  have "tx_filters sm' = tx_filters sm"
    using sm' zmq_process_block_total [OF inv b] by auto
  with False show ?thesis
    by (simp add: zmq_process_tx_def)
qed

text \<open>
  (C31) The order in which the independent streams are delivered does not matter. For an untracked
  transaction that a filter selects, the raw transaction and its mempool acceptance lead to the same
  state in either order and announce it once. For an untracked transaction of the next block, with a
  positive bury depth, the raw transaction and the block lead to the same state in either order and
  the same announcements.
\<close>
theorem streams_commute:
  assumes inv: "zmq_inv env sm" and un: "bt_get (tx_lifecycles sm) (zmq_txid env tx) = None"
    and wanted: "matches_any (tx_filters sm) tx"
    and b: "next_block env (unburied_blocks sm) b" and tx: "tx \<in> set (txdata b)"
    and depth: "0 < bury_depth sm"
  shows "(\<exists>sm1 sm2. process_sequence env sm (MempoolAcceptance (zmq_txid env tx)) = Ok (sm1, [], None) \<and>
      zmq_process_tx env sm1 tx = (sm2, [\<lparr>rawtx = tx, ev_status = StatusMempool\<rparr>]) \<and>
      snd (zmq_process_tx env sm tx) = [] \<and>
      process_sequence env (fst (zmq_process_tx env sm tx)) (MempoolAcceptance (zmq_txid env tx)) =
        Ok (sm2, [\<lparr>rawtx = tx, ev_status = StatusMempool\<rparr>], None)) \<and>
    (\<exists>sm' diff be. zmq_process_block env sm b = Ok (sm', diff, be) \<and>
      zmq_process_tx env sm' tx = (sm', []) \<and>
      zmq_process_block env (fst (zmq_process_tx env sm tx)) b = Ok (sm', diff, be))"
    (is "?mempool \<and> ?block")
proof (rule conjI)
  show ?mempool
    using rawtx_then_acceptance [OF wanted un] acceptance_then_rawtx [OF wanted un] by fastforce
  show ?block
    using zmq_process_block_total [OF inv b] block_then_rawtx [OF inv b tx depth]
      rawtx_then_block [OF inv b tx un] by metis
qed

section \<open>A block that does not extend the tip\<close>

text \<open>
  In a build without debug assertions, a block that does not extend the tip is dropped and the
  old tip is processed a second time: the queue keeps its blocks, nothing is buried, none of the
  dropped block's transactions is tracked on its account, and the matching transactions of the old tip
  are announced as mined again.
\<close>
theorem stray_block_repeats_tip:
  assumes "\<not> zmq_debug_assertions env" and inv: "zmq_inv env sm" and "\<not> extends_tip env sm b"
  shows "\<exists>sm'. zmq_process_block env sm b =
      Ok (sm', map (mined_event env (hd (unburied_blocks sm)))
                 (filter (matches_any (tx_filters sm)) (txdata (hd (unburied_blocks sm)))), None) \<and>
      unburied_blocks sm' = unburied_blocks sm"
proof -
  obtain tip rest where q: "unburied_blocks sm = tip # rest"
    using assms(3) by (cases "unburied_blocks sm") (auto simp: extends_tip_def)
  have total: "\<exists>m'. mine_txs env tip txs m = Ok m'" for txs m
    using assms(1) by (induction txs arbitrary: m)
      (auto simp: mine_tx_def Let_def split: option.splits)
  then obtain m where "mine_txs env tip (filter (matches_any (tx_filters sm)) (txdata tip)) (tx_lifecycles sm) = Ok m"
    by blast
  moreover have "length (unburied_blocks sm) \<le> bury_depth sm"
    using inv by (simp add: zmq_inv_def)
  ultimately show ?thesis
    using assms(1,3) q
    by (simp add: zmq_process_block_def push_block_def expect_def list_get_def bury_oldest_def)
qed

end
