(* ===== verification/Btc_Client.thy ===== *)
theory Btc_Client
  imports Btc_Notify "HOL-Library.Multiset"
begin

text \<open>
  The subscription service around the transaction tracker: \<open>BtcZmqClient\<close>
  (\<open>crates/btc-notify/src/client.rs\<close>). A task takes the messages of the node's ZMQ stream one by one,
  feeds them to the tracker and forwards the resulting events to the subscribers. The channel of a
  subscriber is the list of the events sent to it and whether its receiver still exists: sending
  fails exactly when the receiver has been dropped. A new \<open>Arc\<close> gets an address that no live one has;
  the client's counter stands for the allocator. A panic ends the task.
\<close>

section \<open>The client\<close>

record tx_subscription =
  predicate :: tx_predicate
  tx_outbox :: "tx_event list"
  tx_receiver :: bool

record block_subscription =
  block_outbox :: "block_event list"
  block_receiver :: bool

record btc_zmq_client =
  state_machine :: btc_zmq_sm
  tx_subs :: "tx_subscription list"
  block_subs :: "block_subscription list"
  thread_alive :: bool
  next_address :: nat

text \<open>The messages of the socket: \<open>Message\<close>, a monitoring message, or an error of the stream.\<close>

datatype socket_message =
    HashBlock block_hash
  | HashTx txid
  | MsgBlock block
  | MsgTx transaction
  | MsgSequence sequence_message
  | MonitoringMessage
  | StreamError

definition client_connect :: "nat \<Rightarrow> block list \<Rightarrow> btc_zmq_client" where
  "client_connect depth blocks =
     \<lparr>state_machine = zmq_init depth blocks, tx_subs = [], block_subs = [], thread_alive = True,
      next_address = 0\<rparr>"

definition subscribe_transactions :: "(transaction \<Rightarrow> bool) \<Rightarrow> btc_zmq_client \<Rightarrow> btc_zmq_client" where
  "subscribe_transactions f c =
     (let p = \<lparr>ptr = next_address c, holds = f\<rparr> in
      c\<lparr>state_machine := add_filter p (state_machine c),
        tx_subs := tx_subs c @ [\<lparr>predicate = p, tx_outbox = [], tx_receiver = True\<rparr>],
        next_address := Suc (next_address c)\<rparr>)"

definition subscribe_blocks :: "btc_zmq_client \<Rightarrow> btc_zmq_client" where
  "subscribe_blocks c =
     c\<lparr>block_subs := block_subs c @ [\<lparr>block_outbox = [], block_receiver = True\<rparr>]\<rparr>"

definition num_tx_subscriptions :: "btc_zmq_client \<Rightarrow> nat" where
  "num_tx_subscriptions c = length (tx_subs c)"

definition num_block_subscriptions :: "btc_zmq_client \<Rightarrow> nat" where
  "num_block_subscriptions c = length (block_subs c)"

subsection \<open>Delivery\<close>

definition send_block :: "block_event \<Rightarrow> block_subscription \<Rightarrow> block_subscription" where
  "send_block ev sub = sub\<lparr>block_outbox := block_outbox sub @ [ev]\<rparr>"

definition deliver_block :: "block_event \<Rightarrow> block_subscription list \<Rightarrow> block_subscription list" where
  "deliver_block ev subs = map (send_block ev) (filter block_receiver subs)"

definition deliver_block_opt ::
    "block_event option \<Rightarrow> block_subscription list \<Rightarrow> block_subscription list" where
  "deliver_block_opt ev subs = (case ev of None \<Rightarrow> subs | Some e \<Rightarrow> deliver_block e subs)"

text \<open>
  The closure passed to \<open>tx_subs.retain\<close>: the events the subscriber's predicate selects are sent in
  order; the first failure removes the filter from the tracker and the subscriber from the list.
\<close>

fun deliver_txs ::
    "tx_event list \<Rightarrow> tx_subscription list \<Rightarrow> btc_zmq_sm \<Rightarrow> btc_zmq_sm \<times> tx_subscription list" where
  "deliver_txs diff [] sm = (sm, [])"
| "deliver_txs diff (sub # subs) sm =
     (let wanted = filter (\<lambda>e. holds (predicate sub) (rawtx e)) diff in
      if wanted \<noteq> [] \<and> \<not> tx_receiver sub
      then deliver_txs diff subs (rm_filter (ptr (predicate sub)) sm)
      else let (sm', rest) = deliver_txs diff subs sm in
           (sm', sub\<lparr>tx_outbox := tx_outbox sub @ wanted\<rparr> # rest))"

text \<open>
  One turn of the task. A new block goes to the block subscribers before the tracker sees it. When
  the tracker panics the task is gone; what it had sent by then stays sent.
\<close>

definition finish_message ::
    "btc_zmq_client \<Rightarrow> btc_zmq_sm \<Rightarrow> tx_event list \<Rightarrow> block_event option \<Rightarrow> btc_zmq_client" where
  "finish_message c sm diff ev =
     (let (sm', subs) = deliver_txs diff (tx_subs c) sm in
      c\<lparr>state_machine := sm', tx_subs := subs, block_subs := deliver_block_opt ev (block_subs c)\<rparr>)"

definition handle_answer ::
    "btc_zmq_client \<Rightarrow> (btc_zmq_sm \<times> tx_event list \<times> block_event option) zmq_step \<Rightarrow> btc_zmq_client" where
  "handle_answer c answer =
     (case answer of
        Ok (sm, diff, ev) \<Rightarrow> finish_message c sm diff ev
      | _ \<Rightarrow> c\<lparr>thread_alive := False\<rparr>)"

definition handle_message :: "zmq_env \<Rightarrow> btc_zmq_client \<Rightarrow> socket_message \<Rightarrow> btc_zmq_client" where
  "handle_message env c msg =
     (if \<not> thread_alive c then c
      else
        case msg of
          MsgBlock b \<Rightarrow>
            let announced = c\<lparr>block_subs := deliver_block \<lparr>ev_block = b, blk_status = BlockMined\<rparr> (block_subs c)\<rparr>
            in handle_answer announced (zmq_process_block env (state_machine c) b)
        | MsgTx tx \<Rightarrow>
            let (sm, diff) = zmq_process_tx env (state_machine c) tx in finish_message c sm diff None
        | MsgSequence seq \<Rightarrow> handle_answer c (process_sequence env (state_machine c) seq)
        | _ \<Rightarrow> finish_message c (state_machine c) [] None)"

text \<open>What can happen to a client: a message, a new subscription, a receiver that is dropped.\<close>

datatype client_event =
    Incoming socket_message
  | SubscribeTransactions "transaction \<Rightarrow> bool"
  | SubscribeBlocks
  | DropTxReceiver nat
  | DropBlockReceiver nat

fun client_step :: "zmq_env \<Rightarrow> btc_zmq_client \<Rightarrow> client_event \<Rightarrow> btc_zmq_client" where
  "client_step env c (Incoming msg) = handle_message env c msg"
| "client_step env c (SubscribeTransactions f) = subscribe_transactions f c"
| "client_step env c SubscribeBlocks = subscribe_blocks c"
| "client_step env c (DropTxReceiver i) =
     (if i < length (tx_subs c)
      then c\<lparr>tx_subs := (tx_subs c)[i := (tx_subs c ! i)\<lparr>tx_receiver := False\<rparr>]\<rparr> else c)"
| "client_step env c (DropBlockReceiver i) =
     (if i < length (block_subs c)
      then c\<lparr>block_subs := (block_subs c)[i := (block_subs c ! i)\<lparr>block_receiver := False\<rparr>]\<rparr> else c)"

section \<open>The invariant of the client\<close>

text \<open>
  The tracker is well formed, and its filters are the predicates of the subscribers, each once: the
  two collections are kept in step although they are updated separately and the filters are
  reordered by \<open>swap_remove\<close>.
\<close>

definition client_inv :: "zmq_env \<Rightarrow> btc_zmq_client \<Rightarrow> bool" where
  "client_inv env c \<longleftrightarrow>
     zmq_inv env (state_machine c) \<and>
     mset (tx_filters (state_machine c)) = mset (map predicate (tx_subs c)) \<and>
     distinct (map ptr (tx_filters (state_machine c))) \<and>
     list_all (\<lambda>p. ptr p < next_address c) (tx_filters (state_machine c))"

lemma position_Some: "position p xs = Some i \<Longrightarrow> i < length xs \<and> p (xs ! i)"
  by (induction xs arbitrary: i) (auto split: if_splits)

lemma position_None: "position p xs = None \<longleftrightarrow> (\<forall>x \<in> set xs. \<not> p x)"
  by (induction xs) auto

lemma mset_swap_remove:
  assumes "i < length xs"
  shows "mset (swap_remove i xs) = mset xs - {#xs ! i#}"
proof -
  have "xs[i := last xs] \<noteq> []"
    using assms by auto
  then have "mset (xs[i := last xs]) = mset (swap_remove i xs) + {#last (xs[i := last xs])#}"
    unfolding swap_remove_def by (metis append_butlast_last_id mset_append mset_single_iff_right)
  moreover have "last (xs[i := last xs]) = last xs"
    using assms by (cases "xs = []") (simp_all add: last_list_update)
  moreover have "mset (xs[i := last xs]) = add_mset (last xs) (mset xs - {#xs ! i#})"
    using assms by (rule mset_update)
  ultimately show ?thesis
    by simp
qed

lemma mset_rm_filter:
  assumes "p \<in> set (tx_filters sm)" and "distinct (map ptr (tx_filters sm))"
  shows "mset (tx_filters (rm_filter (ptr p) sm)) = mset (tx_filters sm) - {#p#}"
proof (cases "position (\<lambda>q. ptr q = ptr p) (tx_filters sm)")
  case None
  with assms(1) show ?thesis
    by (auto simp: position_None)
next
  case (Some i)
  then have i: "i < length (tx_filters sm)" "ptr (tx_filters sm ! i) = ptr p"
    by (auto dest: position_Some)
  then have "tx_filters sm ! i = p"
    using assms by (metis (no_types, lifting) distinct_map inj_onD nth_mem)
  with Some i show ?thesis
    by (simp add: rm_filter_def mset_swap_remove)
qed

lemma distinct_ptr_remove:
  assumes "mset ys = mset xs - {#p#}" and "p \<in> set xs" and "distinct (map ptr xs)"
  shows "distinct (map ptr ys)" and "set ys \<subseteq> set xs"
proof -
  have "mset (p # ys) = mset xs"
    using assms(1,2) by (simp add: insert_DiffM)
  then have "mset (map ptr (p # ys)) = mset (map ptr xs)" and xs: "set (p # ys) = set xs"
    by (metis mset_map) (metis \<open>mset (p # ys) = mset xs\<close> mset_eq_setD)
  then have "distinct (map ptr (p # ys))"
    using assms(3) mset_eq_imp_distinct_iff by blast
  then show "distinct (map ptr ys)"
    by simp
  show "set ys \<subseteq> set xs"
    using xs by auto
qed

lemma rm_filter_simps [simp]:
  "bury_depth (rm_filter a sm) = bury_depth sm"
  "tx_lifecycles (rm_filter a sm) = tx_lifecycles sm"
  "unburied_blocks (rm_filter a sm) = unburied_blocks sm"
  by (simp_all add: rm_filter_def split: option.split)

lemma zmq_inv_filters [simp]:
  "zmq_inv env (rm_filter a sm) = zmq_inv env sm"
  "zmq_inv env (add_filter p sm) = zmq_inv env sm"
  by (simp_all add: zmq_inv_def add_filter_def)

text \<open>
  Delivery drops a filter exactly with its subscriber and leaves the rest of the tracker alone. The
  collection \<open>R\<close> stands for the subscribers already visited.
\<close>

lemma deliver_txs_filters:
  assumes "deliver_txs diff subs sm = (sm', subs')"
    and "mset (tx_filters sm) = mset (map predicate subs) + R" and "distinct (map ptr (tx_filters sm))"
  shows "mset (tx_filters sm') = mset (map predicate subs') + R \<and> distinct (map ptr (tx_filters sm')) \<and>
    set (tx_filters sm') \<subseteq> set (tx_filters sm)"
  using assms
proof (induction subs arbitrary: sm sm' subs' R)
  case (Cons sub subs)
  let ?p = "predicate sub" and ?w = "filter (\<lambda>e. holds (predicate sub) (rawtx e)) diff"
  show ?case
  proof (cases "?w \<noteq> [] \<and> \<not> tx_receiver sub")
    case True
    have "?p \<in># mset (tx_filters sm)"
      using Cons.prems(2) by simp
    then have p: "?p \<in> set (tx_filters sm)"
      by simp
    let ?sm = "rm_filter (ptr ?p) sm"
    have rm: "mset (tx_filters ?sm) = mset (tx_filters sm) - {#?p#}"
      by (rule mset_rm_filter [OF p Cons.prems(3)])
    note d = distinct_ptr_remove [OF rm p Cons.prems(3)]
    have "deliver_txs diff subs ?sm = (sm', subs')"
      using Cons.prems(1) True by simp
    then show ?thesis
      using Cons.IH [of ?sm sm' subs' R] Cons.prems(2) rm d by auto
  next
    case False
    then obtain rest where rest: "deliver_txs diff subs sm = (sm', rest)"
      "subs' = sub\<lparr>tx_outbox := tx_outbox sub @ ?w\<rparr> # rest"
      using Cons.prems(1) by (auto simp: Let_def split: prod.splits if_splits)
    then show ?thesis
      using Cons.IH [OF rest(1), of "add_mset ?p R"] Cons.prems(2,3) by simp
  qed
qed simp

lemma deliver_txs_tracker:
  "zmq_inv env (fst (deliver_txs diff subs sm)) = zmq_inv env sm"
  "bury_depth (fst (deliver_txs diff subs sm)) = bury_depth sm"
  "unburied_blocks (fst (deliver_txs diff subs sm)) = unburied_blocks sm"
  "tx_lifecycles (fst (deliver_txs diff subs sm)) = tx_lifecycles sm"
  by (induction subs arbitrary: sm) (simp_all add: Let_def case_prod_beta)

lemma finish_message_inv:
  assumes "client_inv env c" and "zmq_inv env sm" and "tx_filters sm = tx_filters (state_machine c)"
  shows "client_inv env (finish_message c sm diff ev)"
proof -
  obtain sm' subs' where d: "deliver_txs diff (tx_subs c) sm = (sm', subs')"
    by fastforce
  have "zmq_inv env sm'"
    using assms(2) deliver_txs_tracker(1) [of env diff "tx_subs c" sm] d by simp
  moreover have "mset (tx_filters sm') = mset (map predicate subs') \<and> distinct (map ptr (tx_filters sm')) \<and>
      set (tx_filters sm') \<subseteq> set (tx_filters sm)"
    using deliver_txs_filters [OF d, of "{#}"] assms(1,3) by (simp add: client_inv_def)
  ultimately show ?thesis
    using assms(1,3) by (auto simp: finish_message_def d client_inv_def list_all_iff)
qed

text \<open>The tracker's own operations do not touch its filters.\<close>

lemma tracker_keeps_filters:
  "zmq_process_block env sm b = Ok (sm', diff, ev) \<Longrightarrow> tx_filters sm' = tx_filters sm"
  "process_sequence env sm seq = Ok (sm', diff, ev) \<Longrightarrow> tx_filters sm' = tx_filters sm"
  "tx_filters (fst (zmq_process_tx env sm tx)) = tx_filters sm"
proof -
  assume "zmq_process_block env sm b = Ok (sm', diff, ev)"
  then show "tx_filters sm' = tx_filters sm"
    by (rule zmq_process_block_OkE) (auto simp: bury_oldest_def Let_def split: if_splits)
next
  assume "process_sequence env sm seq = Ok (sm', diff, ev)"
  then show "tx_filters sm' = tx_filters sm"
    by (auto simp: process_sequence_def disconnect_block_def Let_def
        split: sequence_message.splits list.splits option.splits if_splits)
qed (simp add: zmq_process_tx_def Let_def split: option.split)

lemma handle_answer_inv:
  assumes "client_inv env c"
    and "\<And>sm diff ev. answer = Ok (sm, diff, ev) \<Longrightarrow>
           zmq_inv env sm \<and> tx_filters sm = tx_filters (state_machine c)"
  shows "client_inv env (handle_answer c answer)"
  using assms finish_message_inv
  by (cases answer) (auto simp: handle_answer_def client_inv_def)

lemma client_inv_block_subs [simp]: "client_inv env (c\<lparr>block_subs := subs\<rparr>) = client_inv env c"
  by (simp add: client_inv_def)

lemma handle_message_inv:
  assumes "client_inv env c"
  shows "client_inv env (handle_message env c msg)"
proof (cases "thread_alive c")
  case True
  have inv: "zmq_inv env (state_machine c)"
    using assms by (simp add: client_inv_def)
  show ?thesis
  proof (cases msg)
    case (MsgBlock b)
    then show ?thesis
      using assms True zmq_process_block_inv [OF _ inv] tracker_keeps_filters(1)
      by (auto simp: handle_message_def Let_def intro!: handle_answer_inv)
  next
    case (MsgTx tx)
    then show ?thesis
      using True assms zmq_process_tx_inv [OF inv, of tx] tracker_keeps_filters(3) [of env "state_machine c" tx]
      by (auto simp: handle_message_def split: prod.split intro!: finish_message_inv)
  next
    case (MsgSequence seq)
    then show ?thesis
      using assms True process_sequence_inv [OF _ inv] tracker_keeps_filters(2)
      by (auto simp: handle_message_def intro!: handle_answer_inv)
  qed (use True assms inv in \<open>auto simp: handle_message_def intro!: finish_message_inv\<close>)
qed (use assms in \<open>simp add: handle_message_def\<close>)

lemma mset_predicate_drop:
  assumes "i < length subs"
  shows "image_mset predicate (mset (subs[i := (subs ! i)\<lparr>tx_receiver := r\<rparr>])) =
         image_mset predicate (mset subs)"
proof -
  have "map predicate (subs[i := (subs ! i)\<lparr>tx_receiver := r\<rparr>]) = map predicate subs"
    using assms by (simp add: map_update) (metis list_update_id nth_map)
  then show ?thesis
    by (metis mset_map)
qed

definition client_init :: "zmq_env \<Rightarrow> btc_zmq_client \<Rightarrow> bool" where
  "client_init env c \<longleftrightarrow>
     (\<exists>depth blocks. c = client_connect depth blocks \<and> length blocks \<le> depth \<and> chained env blocks)"

interpretation zmq_client: invariant_machine "client_init env" "client_step env" "client_inv env" for env
proof unfold_locales
  show "client_init env c \<Longrightarrow> client_inv env c" for c
    by (auto simp: client_init_def client_connect_def client_inv_def zmq_inv_def zmq_init_def
        lifecycles_ok_def bt.get_empty)
  show "client_inv env c \<Longrightarrow> client_inv env (client_step env c e)" for c e
  proof (cases e)
    case (Incoming msg)
    then show "client_inv env c \<Longrightarrow> client_inv env (client_step env c e)"
      by (simp add: handle_message_inv)
  next
    case (SubscribeTransactions f)
    then show "client_inv env c \<Longrightarrow> client_inv env (client_step env c e)"
      by (auto simp: client_inv_def subscribe_transactions_def Let_def add_filter_def list_all_iff
          zmq_inv_def)
  qed (auto simp: subscribe_blocks_def mset_predicate_drop client_inv_def)
qed

section \<open>What a subscriber receives\<close>

definition subscription :: "btc_zmq_client \<Rightarrow> nat \<Rightarrow> tx_subscription option" where
  "subscription c address = find (\<lambda>s. ptr (predicate s) = address) (tx_subs c)"

lemma deliver_txs_finds:
  "find (\<lambda>s. ptr (predicate s) = a) subs = Some s \<Longrightarrow> tx_receiver s \<Longrightarrow>
   distinct (map (ptr \<circ> predicate) subs) \<Longrightarrow>
   find (\<lambda>s. ptr (predicate s) = a) (snd (deliver_txs diff subs sm)) =
     Some (s\<lparr>tx_outbox := tx_outbox s @ filter (\<lambda>e. holds (predicate s) (rawtx e)) diff\<rparr>)"
  by (induction subs arbitrary: sm) (auto simp: Let_def case_prod_beta split: if_splits)

lemma client_inv_subs_distinct:
  assumes "client_inv env c"
  shows "distinct (map (ptr \<circ> predicate) (tx_subs c))"
proof -
  have "mset (map ptr (tx_filters (state_machine c))) = mset (map ptr (map predicate (tx_subs c)))"
    using assms by (metis client_inv_def mset_map)
  then have "distinct (map ptr (tx_filters (state_machine c))) \<longleftrightarrow> distinct (map ptr (map predicate (tx_subs c)))"
    by (rule mset_eq_imp_distinct_iff)
  then show ?thesis
    using assms by (simp add: client_inv_def)
qed

lemma subscription_filter:
  assumes "client_inv env c" and "subscription c a = Some s"
  shows "predicate s \<in> set (tx_filters (state_machine c))"
proof -
  have "s \<in> set (tx_subs c)"
    using assms(2) by (auto simp: subscription_def dest: find_SomeD)
  moreover have "set (tx_filters (state_machine c)) = predicate ` set (tx_subs c)"
    using assms(1) by (metis client_inv_def mset_eq_setD set_map)
  ultimately show ?thesis
    by simp
qed

lemma finish_message_delivers:
  assumes "client_inv env c" and "subscription c a = Some s" and "tx_receiver s"
  shows "subscription (finish_message c sm diff ev) a =
    Some (s\<lparr>tx_outbox := tx_outbox s @ filter (\<lambda>e. holds (predicate s) (rawtx e)) diff\<rparr>)"
  using deliver_txs_finds [of a "tx_subs c" s diff sm] client_inv_subs_distinct [OF assms(1)] assms(2,3)
  by (simp add: subscription_def finish_message_def case_prod_beta)

text \<open>A subscriber's share of what a block causes.\<close>

lemma rawtx_events [simp]:
  "rawtx (mined_event env b tx) = tx" "rawtx (buried_event env b tx) = tx"
  by (simp_all add: mined_event_def buried_event_def)

lemma filter_map_events:
  assumes "\<And>tx. rawtx (ev tx) = tx" and "\<And>tx. p tx \<Longrightarrow> any tx"
  shows "filter (\<lambda>e. p (rawtx e)) (map ev (filter any txs)) = map ev (filter p txs)"
  using assms by (induction txs) auto

lemma filter_block_diff:
  assumes "\<And>tx. p tx \<Longrightarrow> any tx"
  shows "filter (\<lambda>e. p (rawtx e)) (block_diff env any depth q b) = block_diff env p depth q b"
  using filter_map_events [of "mined_event env b" p any] assms
    filter_map_events [of "buried_event env (last (b # q))" p any]
  by (simp add: block_diff_def falls_off_def)

lemma matches_any_member: "p \<in> set fs \<Longrightarrow> holds p tx \<Longrightarrow> matches_any fs tx"
  by (auto simp: matches_any_def list_ex_iff)

abbreviation zmq_queue :: "btc_zmq_client \<Rightarrow> block list" where
  "zmq_queue c \<equiv> unburied_blocks (state_machine c)"

abbreviation zmq_depth :: "btc_zmq_client \<Rightarrow> nat" where
  "zmq_depth c \<equiv> bury_depth (state_machine c)"

lemma handle_block:
  assumes inv: "client_inv env c" and alive: "thread_alive c" and b: "next_block env (zmq_queue c) b"
    and s: "subscription c a = Some s" "tx_receiver s"
  shows "thread_alive (handle_message env c (MsgBlock b)) \<and>
    zmq_queue (handle_message env c (MsgBlock b)) = take (zmq_depth c) (b # zmq_queue c) \<and>
    zmq_depth (handle_message env c (MsgBlock b)) = zmq_depth c \<and>
    subscription (handle_message env c (MsgBlock b)) a =
      Some (s\<lparr>tx_outbox := tx_outbox s @ block_diff env (holds (predicate s)) (zmq_depth c) (zmq_queue c) b\<rparr>)"
proof -
  let ?sm = "state_machine c" and ?any = "matches_any (tx_filters (state_machine c))"
  obtain sm' be where sm': "zmq_process_block env ?sm b = Ok (sm', block_diff env ?any (zmq_depth c) (zmq_queue c) b, be)"
    "unburied_blocks sm' = take (zmq_depth c) (b # zmq_queue c)" "bury_depth sm' = zmq_depth c"
    using zmq_process_block_total [of env ?sm b] inv b by (auto simp: client_inv_def)
  let ?c = "c\<lparr>block_subs := deliver_block \<lparr>ev_block = b, blk_status = BlockMined\<rparr> (block_subs c)\<rparr>"
  let ?diff = "block_diff env ?any (zmq_depth c) (zmq_queue c) b"
  have h: "handle_message env c (MsgBlock b) = finish_message ?c sm' ?diff be"
    using alive sm' by (simp add: handle_message_def handle_answer_def)
  have "filter (\<lambda>e. holds (predicate s) (rawtx e)) ?diff =
        block_diff env (holds (predicate s)) (zmq_depth c) (zmq_queue c) b"
    using matches_any_member [OF subscription_filter [OF inv s(1)]] by (rule filter_block_diff)
  moreover have "subscription ?c a = Some s"
    using s(1) by (simp add: subscription_def)
  ultimately have "subscription (finish_message ?c sm' ?diff be) a =
      Some (s\<lparr>tx_outbox := tx_outbox s @ block_diff env (holds (predicate s)) (zmq_depth c) (zmq_queue c) b\<rparr>)"
    using finish_message_delivers [of env ?c a s sm' ?diff be] inv s(2) by simp
  then show ?thesis
    using sm'(2,3) alive by (simp add: h finish_message_def case_prod_beta deliver_txs_tracker)
qed

text \<open>A stretch of the chain as a node relays it, and the announcements it causes.\<close>

fun chain_ok :: "zmq_env \<Rightarrow> nat \<Rightarrow> block list \<Rightarrow> block list \<Rightarrow> bool" where
  "chain_ok env n q [] = True"
| "chain_ok env n q (b # bs) = (next_block env q b \<and> chain_ok env n (take n (b # q)) bs)"

fun chain_events :: "zmq_env \<Rightarrow> (transaction \<Rightarrow> bool) \<Rightarrow> nat \<Rightarrow> block list \<Rightarrow> block list \<Rightarrow> tx_event list" where
  "chain_events env p n q [] = []"
| "chain_events env p n q (b # bs) = block_diff env p n q b @ chain_events env p n (take n (b # q)) bs"

lemma blocks_delivered:
  assumes "client_inv env c" and "thread_alive c" and "chain_ok env (zmq_depth c) (zmq_queue c) bs"
    and "subscription c a = Some s" and "tx_receiver s"
  shows "thread_alive (foldl (handle_message env) c (map MsgBlock bs)) \<and>
    subscription (foldl (handle_message env) c (map MsgBlock bs)) a =
      Some (s\<lparr>tx_outbox := tx_outbox s @ chain_events env (holds (predicate s)) (zmq_depth c) (zmq_queue c) bs\<rparr>)"
  using assms
proof (induction bs arbitrary: c s)
  case (Cons b bs)
  let ?c = "handle_message env c (MsgBlock b)"
  let ?s = "s\<lparr>tx_outbox := tx_outbox s @ block_diff env (holds (predicate s)) (zmq_depth c) (zmq_queue c) b\<rparr>"
  have c': "thread_alive ?c" "zmq_queue ?c = take (zmq_depth c) (b # zmq_queue c)" "zmq_depth ?c = zmq_depth c"
    "subscription ?c a = Some ?s"
    using handle_block [OF Cons.prems(1,2) _ Cons.prems(4,5)] Cons.prems(3) by simp_all
  then show ?case
    using Cons.IH [of ?c ?s] handle_message_inv [OF Cons.prems(1)] Cons.prems(3,5) by simp
qed simp

text \<open>
  In closed form: the \<open>k\<close>-th block of the stretch is announced as mined, and together with it the
  block that lies as many blocks deeper as the bury depth says is announced as buried.
\<close>

definition mined_in :: "zmq_env \<Rightarrow> (transaction \<Rightarrow> bool) \<Rightarrow> block \<Rightarrow> tx_event list" where
  "mined_in env p b = map (mined_event env b) (filter p (txdata b))"

definition buried_in :: "zmq_env \<Rightarrow> (transaction \<Rightarrow> bool) \<Rightarrow> block \<Rightarrow> tx_event list" where
  "buried_in env p b = map (buried_event env b) (filter p (txdata b))"

definition announcements ::
    "zmq_env \<Rightarrow> (transaction \<Rightarrow> bool) \<Rightarrow> nat \<Rightarrow> block list \<Rightarrow> block list \<Rightarrow> nat \<Rightarrow> tx_event list" where
  "announcements env p n q bs k =
     mined_in env p (bs ! k) @
     (if n \<le> length q + k then buried_in env p ((rev q @ bs) ! (length q + k - n)) else [])"

lemma announcements_0:
  assumes "length q \<le> n"
  shows "announcements env p n q (b # bs) 0 = block_diff env p n q b"
  using assms
  by (cases q rule: rev_cases)
     (auto simp: announcements_def block_diff_def falls_off_def mined_in_def buried_in_def)

lemma rev_take_Cons:
  assumes "length q \<le> n"
  shows "rev (take n (b # q)) = (if length q < n then rev q @ [b] else tl (rev q @ [b]))"
proof (cases "length q < n")
  case False
  with assms have "n = length q"
    by simp
  then show ?thesis
    by (cases q rule: rev_cases) simp_all
qed simp

lemma announcements_Suc:
  assumes "length q \<le> n"
  shows "announcements env p n q (b # bs) (Suc k) = announcements env p n (take n (b # q)) bs k"
proof (cases "length q < n")
  case True
  then show ?thesis
    by (simp add: announcements_def rev_take_Cons)
next
  case False
  then have "rev (take n (b # q)) @ bs = tl (rev q @ b # bs)"
    using rev_take_Cons [OF assms, of b] by (cases "rev q") auto
  then have "(rev (take n (b # q)) @ bs) ! k = (rev q @ b # bs) ! Suc k"
    by (cases "rev q @ b # bs") auto
  with False assms show ?thesis
    by (simp add: announcements_def)
qed

lemma chain_events_closed:
  "length q \<le> n \<Longrightarrow>
   chain_events env p n q bs = concat (map (announcements env p n q bs) [0..<length bs])"
proof (induction bs arbitrary: q)
  case (Cons b bs)
  have "[0..<length (b # bs)] = 0 # map Suc [0..<length bs]"
    by (simp add: upt_conv_Cons map_Suc_upt del: upt_Suc)
  then show ?case
    using Cons announcements_0 announcements_Suc by (simp add: comp_def del: upt_Suc)
qed simp

text \<open>
  (C13) End to end: whatever happened to a client since it connected, as long as its task runs, a
  subscriber that still listens receives for a stretch of relayed blocks exactly this: for each
  block, in order, the block's transactions that satisfy its predicate as mined, followed by those of
  the block that lies the bury depth deeper as buried. It is sent nothing else, and the task keeps
  running.
\<close>
theorem subscriber_follows_chain:
  assumes "client_init env c0" and "c = foldl (client_step env) c0 history" and "thread_alive c"
    and "chain_ok env (zmq_depth c) (zmq_queue c) bs" and "subscription c a = Some s" and "tx_receiver s"
  shows "thread_alive (foldl (handle_message env) c (map MsgBlock bs)) \<and>
    subscription (foldl (handle_message env) c (map MsgBlock bs)) a =
      Some (s\<lparr>tx_outbox := tx_outbox s @
        concat (map (announcements env (holds (predicate s)) (zmq_depth c) (zmq_queue c) bs) [0..<length bs])\<rparr>)"
proof -
  have inv: "client_inv env c"
    using zmq_client.inv_reachable [OF assms(1)] assms(2) by simp
  then have "length (zmq_queue c) \<le> zmq_depth c"
    by (simp add: client_inv_def zmq_inv_def)
  then show ?thesis
    using blocks_delivered [OF inv assms(3-6)] chain_events_closed by simp
qed

text \<open>
  (C14) Burial is eventually announced: a transaction that satisfies a listening subscriber's predicate
  and is in a block of the stretch with at least the bury depth of blocks on top of it has been
  announced to the subscriber both as mined and as buried, with the hash and height of its block.
\<close>
theorem transaction_eventually_buried:
  assumes "client_init env c0" and "c = foldl (client_step env) c0 history" and "thread_alive c"
    and "chain_ok env (zmq_depth c) (zmq_queue c) bs" and "subscription c a = Some s" and "tx_receiver s"
    and "j + zmq_depth c < length bs" and "tx \<in> set (txdata (bs ! j))" and "holds (predicate s) tx"
  shows "\<exists>s'. subscription (foldl (handle_message env) c (map MsgBlock bs)) a = Some s' \<and>
    mined_event env (bs ! j) tx \<in> set (tx_outbox s') \<and> buried_event env (bs ! j) tx \<in> set (tx_outbox s')"
proof -
  have inv: "client_inv env c"
    using zmq_client.inv_reachable [OF assms(1)] assms(2) by simp
  then have q: "length (zmq_queue c) \<le> zmq_depth c"
    by (simp add: client_inv_def zmq_inv_def)
  let ?ann = "announcements env (holds (predicate s)) (zmq_depth c) (zmq_queue c) bs"
  let ?out = "tx_outbox s @ chain_events env (holds (predicate s)) (zmq_depth c) (zmq_queue c) bs"
  have "mined_event env (bs ! j) tx \<in> set (?ann j)"
    using assms(8,9) by (simp add: announcements_def mined_in_def)
  moreover have "buried_event env (bs ! j) tx \<in> set (?ann (j + zmq_depth c))"
    using assms(8,9) by (simp add: announcements_def buried_in_def nth_append)
  ultimately have "mined_event env (bs ! j) tx \<in> set ?out \<and> buried_event env (bs ! j) tx \<in> set ?out"
    using assms(7) by (auto simp: chain_events_closed [OF q])
  moreover have "subscription (foldl (handle_message env) c (map MsgBlock bs)) a = Some (s\<lparr>tx_outbox := ?out\<rparr>)"
    using blocks_delivered [OF inv assms(3-6)] by blast
  ultimately show ?thesis
    by simp
qed

section \<open>A reorganisation that stops the tracker\<close>

text \<open>
  The placeholder a mempool acceptance leaves is filled by the raw transaction only when a filter
  selects it. For any other transaction it stays until the transaction is buried or leaves the
  mempool, and a second acceptance finds it.
\<close>

definition placeholder :: "btc_zmq_client \<Rightarrow> txid \<Rightarrow> bool" where
  "placeholder c i \<longleftrightarrow> bt_get (tx_lifecycles (state_machine c)) i = Some None"

definition unwanted :: "btc_zmq_client \<Rightarrow> transaction \<Rightarrow> bool" where
  "unwanted c tx \<longleftrightarrow> \<not> matches_any (tx_filters (state_machine c)) tx"

lemma placeholder_finish:
  "placeholder (finish_message c sm diff ev) i \<longleftrightarrow> bt_get (tx_lifecycles sm) i = Some None"
  by (simp add: placeholder_def finish_message_def case_prod_beta deliver_txs_tracker)

lemma finish_message_alive [simp]: "thread_alive (finish_message c sm diff ev) = thread_alive c"
  by (simp add: finish_message_def case_prod_beta)

lemma finish_message_queue [simp]:
  "zmq_queue (finish_message c sm diff ev) = unburied_blocks sm"
  by (simp add: finish_message_def case_prod_beta deliver_txs_tracker)

lemma finish_message_no_diff:
  "state_machine (finish_message c sm [] ev) = sm"
proof -
  have "fst (deliver_txs [] subs sm) = sm" for subs
    by (induction subs) (simp_all add: case_prod_beta)
  then show ?thesis
    by (simp add: finish_message_def case_prod_beta)
qed

lemma unwanted_not_mined:
  assumes "next_block env q b" and "tx \<in> set (txdata b)" and "\<not> any tx"
  shows "find (\<lambda>t. zmq_txid env t = zmq_txid env tx) (filter any (txdata b)) = None"
  using assms by (auto simp: find_None_iff next_block_def distinct_map dest: inj_onD)

lemma placeholder_survives_block:
  assumes inv: "client_inv env c" and alive: "thread_alive c" and b: "next_block env (zmq_queue c) b"
    and room: "length (zmq_queue c) < zmq_depth c" and tx: "tx \<in> set (txdata b)" "unwanted c tx"
    and p: "placeholder c (zmq_txid env tx)"
  shows "placeholder (handle_message env c (MsgBlock b)) (zmq_txid env tx) \<and>
    thread_alive (handle_message env c (MsgBlock b)) \<and>
    zmq_queue (handle_message env c (MsgBlock b)) = b # zmq_queue c"
proof -
  let ?sm = "state_machine c"
  let ?txs = "filter (matches_any (tx_filters ?sm)) (txdata b)"
  have zinv: "zmq_inv env ?sm"
    using inv by (simp add: client_inv_def)
  obtain m where m: "mine_txs env b ?txs (tx_lifecycles ?sm) = Ok m"
    using next_block_mines [OF zinv b] by blast
  have d: "distinct (map (zmq_txid env) ?txs)"
    using b by (simp add: next_block_def distinct_map_filter_txs)
  have "bt_get m (zmq_txid env tx) = Some None"
    using bt_get_mine_txs [OF m d, of "zmq_txid env tx"] unwanted_not_mined [OF b tx(1)] tx(2) p
    by (simp add: unwanted_def placeholder_def)
  moreover have "zmq_process_block env ?sm b =
      Ok (?sm\<lparr>unburied_blocks := b # zmq_queue c, tx_lifecycles := m\<rparr>, map (mined_event env b) ?txs, None)"
    using room next_block_extends [OF b]
    by (simp add: zmq_process_block_def push_block_def m expect_def list_get_def bury_oldest_def)
  ultimately show ?thesis
    using alive by (simp add: handle_message_def handle_answer_def placeholder_finish)
qed

lemma placeholder_survives_disconnect:
  assumes "thread_alive c" and "zmq_queue c = b # q" and "placeholder c i"
  shows "placeholder (handle_message env c (MsgSequence (BlockDisconnect (zmq_block_hash env b)))) i \<and>
    thread_alive (handle_message env c (MsgSequence (BlockDisconnect (zmq_block_hash env b))))"
  using assms
  by (simp add: handle_message_def handle_answer_def process_sequence_def disconnect_block_def Let_def
      placeholder_finish bt_get_retain bound_to_def) (simp add: placeholder_def)

text \<open>
  (C39) A transaction no subscriber wants can stop the service for all of them. It enters the mempool,
  its raw data arrives, the next block includes it, that block is disconnected in a reorganisation
  while it is still unburied, and the transaction re-enters the mempool: the task survives the first
  four messages and the fifth ends it.
\<close>
theorem reorged_unwanted_tx_stops_client:
  assumes inv: "client_inv env c" and alive: "thread_alive c" and b: "next_block env (zmq_queue c) b"
    and room: "length (zmq_queue c) < zmq_depth c" and tx: "tx \<in> set (txdata b)" "unwanted c tx"
    and un: "bt_get (tx_lifecycles (state_machine c)) (zmq_txid env tx) = None"
  shows "let msgs = [MsgSequence (MempoolAcceptance (zmq_txid env tx)), MsgTx tx, MsgBlock b,
                     MsgSequence (BlockDisconnect (zmq_block_hash env b))];
             c' = foldl (handle_message env) c msgs in
         thread_alive c' \<and>
         \<not> thread_alive (handle_message env c' (MsgSequence (MempoolAcceptance (zmq_txid env tx))))"
proof -
  let ?i = "zmq_txid env tx"
  let ?c1 = "handle_message env c (MsgSequence (MempoolAcceptance ?i))"
  let ?sm1 = "(state_machine c)\<lparr>tx_lifecycles := bt_insert ?i None (tx_lifecycles (state_machine c))\<rparr>"
  have h1: "?c1 = finish_message c ?sm1 [] None"
    using alive un by (simp add: handle_message_def handle_answer_def process_sequence_def)
  have sm1: "state_machine ?c1 = ?sm1"
    by (simp add: h1 finish_message_no_diff)
  have alive1: "thread_alive ?c1"
    using alive by (simp add: h1)
  let ?c2 = "handle_message env ?c1 (MsgTx tx)"
  have h2: "?c2 = finish_message ?c1 ?sm1 [] None"
    using tx(2) alive1 by (simp add: handle_message_def [of env ?c1] sm1 zmq_process_tx_def unwanted_def)
  have sm2: "state_machine ?c2 = ?sm1"
    by (simp add: h2 finish_message_no_diff)
  have inv2: "client_inv env ?c2"
    by (intro handle_message_inv inv)
  have alive2: "thread_alive ?c2"
    using alive1 by (simp add: h2)
  have c2: "placeholder ?c2 ?i" "unwanted ?c2 tx"
    using tx(2) by (simp_all add: placeholder_def unwanted_def sm2 bt.get_insert)
  let ?c3 = "handle_message env ?c2 (MsgBlock b)"
  have c3: "placeholder ?c3 ?i" "thread_alive ?c3" "zmq_queue ?c3 = b # zmq_queue c"
    using placeholder_survives_block [OF inv2 alive2 _ _ tx(1) c2(2,1)] b room by (simp_all add: sm2)
  let ?c4 = "handle_message env ?c3 (MsgSequence (BlockDisconnect (zmq_block_hash env b)))"
  have c4: "placeholder ?c4 ?i" "thread_alive ?c4"
    using placeholder_survives_disconnect [OF c3(2,3,1)] by auto
  then have "\<not> thread_alive (handle_message env ?c4 (MsgSequence (MempoolAcceptance ?i)))"
    by (simp add: handle_message_def [of env ?c4] handle_answer_def process_sequence_def placeholder_def)
  with c4 show ?thesis
    by (simp add: Let_def)
qed

section \<open>An example\<close>

text \<open>
  A chain whose block hashes count upwards and whose transactions are told apart by their lock time;
  a client with bury depth 1 and one subscriber for the transactions with a lock time below 10.
\<close>

definition zmq_example_env :: "bool \<Rightarrow> zmq_env" where
  "zmq_example_env debug =
     \<lparr>zmq_txid = (\<lambda>tx. ucast (lock_time tx)), zmq_block_hash = (\<lambda>b. prev_blockhash b + 1),
      zmq_bip34_height = (\<lambda>b. Some (ucast (prev_blockhash b))), zmq_debug_assertions = debug\<rparr>"

definition example_tx :: "u32 \<Rightarrow> transaction" where
  "example_tx i = \<lparr>tx_version = 2, lock_time = i, tx_input = [], tx_output = []\<rparr>"

definition example_block :: "block_hash \<Rightarrow> transaction list \<Rightarrow> block" where
  "example_block prev txs = \<lparr>prev_blockhash = prev, header_rest = [], txdata = txs\<rparr>"

definition example_connected :: btc_zmq_client where
  "example_connected = client_connect 1 [example_block 0 []]"

definition example_client :: btc_zmq_client where
  "example_client = foldl (client_step (zmq_example_env True)) example_connected
     [SubscribeTransactions (\<lambda>tx. lock_time tx < 10)]"

definition example_subscription :: tx_subscription where
  "example_subscription =
     \<lparr>predicate = \<lparr>ptr = 0, holds = (\<lambda>tx. lock_time tx < 10)\<rparr>, tx_outbox = [], tx_receiver = True\<rparr>"

lemmas zmq_example_defs =
  zmq_example_env_def example_tx_def example_block_def example_connected_def example_client_def
  example_subscription_def client_connect_def zmq_init_def subscribe_transactions_def add_filter_def
  subscription_def

lemma example_init: "client_init (zmq_example_env d) example_connected"
  unfolding client_init_def by (intro exI conjI) (auto simp: zmq_example_defs)

lemma example_facts:
  "thread_alive example_client" "subscription example_client 0 = Some example_subscription"
  "tx_receiver example_subscription" "zmq_depth example_client = 1"
  "zmq_queue example_client = [example_block 0 []]"
  "tx_lifecycles (state_machine example_client) = bt_empty"
  "tx_filters (state_machine example_client) = [predicate example_subscription]"
  "holds (predicate example_subscription) = (\<lambda>tx. lock_time tx < 10)"
  by (simp_all add: zmq_example_defs Let_def)

lemma example_client_inv: "client_inv (zmq_example_env d) example_client"
  using zmq_client.inv_reachable [OF example_init, of d "[SubscribeTransactions (\<lambda>tx. lock_time tx < 10)]"]
  by (simp add: example_client_def)

lemma example_client_chain:
  "chain_ok (zmq_example_env d) 1 [example_block 0 []]
     [example_block 1 [example_tx 1, example_tx 20], example_block 2 [example_tx 2]]"
  by (simp add: next_block_def zmq_example_env_def example_block_def example_tx_def)

theorem subscriber_follows_chain_witness:
  "let env = zmq_example_env True;
       bs = [example_block 1 [example_tx 1, example_tx 20], example_block 2 [example_tx 2]];
       c = foldl (handle_message env) example_client (map MsgBlock bs) in
   thread_alive c \<and>
   subscription c 0 = Some (example_subscription\<lparr>tx_outbox :=
     [mined_event env (bs ! 0) (example_tx 1), mined_event env (bs ! 1) (example_tx 2),
      buried_event env (bs ! 0) (example_tx 1)]\<rparr>)"
proof -
  let ?env = "zmq_example_env True"
  let ?bs = "[example_block 1 [example_tx 1, example_tx 20], example_block 2 [example_tx 2]]"
  have lt: "lock_time (example_tx i) = i" "txdata (example_block k txs) = txs" for i k txs
    by (simp_all add: example_tx_def example_block_def)
  have out: "tx_outbox example_subscription = []"
    by (simp add: example_subscription_def)
  have chain: "chain_ok ?env (zmq_depth example_client) (zmq_queue example_client) ?bs"
    by (simp only: example_facts example_client_chain)
  have "[0..<length ?bs] = [0, 1]"
    by (simp add: upt_conv_Cons)
  then have "concat (map (announcements ?env (holds (predicate example_subscription)) 1 [example_block 0 []] ?bs)
        [0..<length ?bs]) =
      [mined_event ?env (?bs ! 0) (example_tx 1), mined_event ?env (?bs ! 1) (example_tx 2),
       buried_event ?env (?bs ! 0) (example_tx 1)]"
    by (simp add: announcements_def mined_in_def buried_in_def lt example_facts)
  then show ?thesis
    using subscriber_follows_chain [OF example_init example_client_def example_facts(1) chain
        example_facts(2,3)]
    unfolding example_facts(4,5) out Let_def by simp
qed

theorem transaction_eventually_buried_witness:
  "let env = zmq_example_env True;
       bs = [example_block 1 [example_tx 1, example_tx 20], example_block 2 [example_tx 2]] in
   \<exists>s'. subscription (foldl (handle_message env) example_client (map MsgBlock bs)) 0 = Some s' \<and>
    mined_event env (bs ! 0) (example_tx 1) \<in> set (tx_outbox s') \<and>
    buried_event env (bs ! 0) (example_tx 1) \<in> set (tx_outbox s')"
proof -
  let ?bs = "[example_block 1 [example_tx 1, example_tx 20], example_block 2 [example_tx 2]]"
  have c: "example_client = foldl (client_step (zmq_example_env True)) example_connected
      [SubscribeTransactions (\<lambda>tx. lock_time tx < 10)]"
    by (rule example_client_def)
  have chain: "chain_ok (zmq_example_env True) (zmq_depth example_client) (zmq_queue example_client) ?bs"
    by (simp only: example_facts example_client_chain)
  show ?thesis
    using transaction_eventually_buried [OF example_init c example_facts(1) chain example_facts(2,3),
        of 0 "example_tx 1"]
    by (simp add: example_facts Let_def) (simp add: example_tx_def example_block_def)
qed

theorem reorged_unwanted_tx_stops_client_witness:
  "let env = zmq_example_env True; b = example_block 0 [example_tx 20];
       c = foldl (client_step env) (client_connect 1 []) [SubscribeTransactions (\<lambda>tx. lock_time tx < 10)];
       c' = foldl (handle_message env) c
              [MsgSequence (MempoolAcceptance 20), MsgTx (example_tx 20), MsgBlock b,
               MsgSequence (BlockDisconnect 1)] in
   thread_alive c' \<and> \<not> thread_alive (handle_message env c' (MsgSequence (MempoolAcceptance 20)))"
proof -
  let ?env = "zmq_example_env True"
  let ?c = "foldl (client_step ?env) (client_connect 1 []) [SubscribeTransactions (\<lambda>tx. lock_time tx < 10)]"
  have "client_init ?env (client_connect 1 [])"
    unfolding client_init_def by (intro exI conjI) auto
  then have inv: "client_inv ?env ?c"
    by (rule zmq_client.inv_reachable)
  show ?thesis
    using reorged_unwanted_tx_stops_client [OF inv, of "example_block 0 [example_tx 20]" "example_tx 20"]
    by (simp add: zmq_example_defs next_block_def unwanted_def matches_any_def bt.get_empty Let_def)
qed


theorem streams_commute_witness:
  "let env = zmq_example_env True; sm = add_filter (predicate example_subscription) (zmq_init 2 []);
       tx = example_tx 1; b = example_block 0 [example_tx 1, example_tx 20] in
   (\<exists>sm1 sm2. process_sequence env sm (MempoolAcceptance 1) = Ok (sm1, [], None) \<and>
      zmq_process_tx env sm1 tx = (sm2, [\<lparr>rawtx = tx, ev_status = StatusMempool\<rparr>]) \<and>
      snd (zmq_process_tx env sm tx) = [] \<and>
      process_sequence env (fst (zmq_process_tx env sm tx)) (MempoolAcceptance 1) =
        Ok (sm2, [\<lparr>rawtx = tx, ev_status = StatusMempool\<rparr>], None)) \<and>
    (\<exists>sm' diff be. zmq_process_block env sm b = Ok (sm', diff, be) \<and>
      zmq_process_tx env sm' tx = (sm', []) \<and>
      zmq_process_block env (fst (zmq_process_tx env sm tx)) b = Ok (sm', diff, be))"
proof -
  let ?env = "zmq_example_env True"
  let ?sm = "add_filter (predicate example_subscription) (zmq_init 2 [])"
  let ?b = "example_block 0 [example_tx 1, example_tx 20]"
  have inv: "zmq_inv ?env ?sm"
    by (simp add: zmq_inv_def add_filter_def zmq_init_def lifecycles_ok_def bt.get_empty)
  have id: "zmq_txid ?env (example_tx 1) = 1"
    by (simp add: zmq_example_env_def example_tx_def)
  have facts: "bt_get (tx_lifecycles ?sm) 1 = None" "matches_any (tx_filters ?sm) (example_tx 1)"
    "next_block ?env (unburied_blocks ?sm) ?b" "example_tx 1 \<in> set (txdata ?b)" "0 < bury_depth ?sm"
    by (simp_all add: zmq_example_defs next_block_def matches_any_def bt.get_empty)
  show ?thesis
    using streams_commute [OF inv _ facts(2-5)] facts(1) unfolding id Let_def by blast
qed

theorem stray_block_repeats_tip_witness:
  "let env = zmq_example_env False; tip = example_block 0 [example_tx 1];
       sm = add_filter (predicate example_subscription) (zmq_init 1 [tip]) in
   \<exists>sm'. zmq_process_block env sm (example_block 7 [example_tx 2]) =
      Ok (sm', [mined_event env tip (example_tx 1)], None) \<and> unburied_blocks sm' = [tip]"
proof -
  let ?sm = "add_filter (predicate example_subscription) (zmq_init 1 [example_block 0 [example_tx 1]])"
  have "zmq_inv (zmq_example_env False) ?sm"
    by (simp add: zmq_inv_def add_filter_def zmq_init_def lifecycles_ok_def bt.get_empty)
  then show ?thesis
    using stray_block_repeats_tip [of "zmq_example_env False" ?sm "example_block 7 [example_tx 2]"]
    by (simp add: zmq_example_defs extends_tip_def matches_any_def Let_def)
qed

end
