(* ===== verification/Wots_Keys.thy ===== *)
theory Wots_Keys
  imports Wots Witness_Parsing
begin

text \<open>
  How the one-time keys of a deposit are derived and used: the derivation from a master secret
  (\<open>crates/primitives/src/scripts/commitments.rs\<close> and the constructors of
  \<open>crates/primitives/src/wots.rs\<close>), and the derivation and signing through the secret service that the
  duty executors use (\<open>crates/duty-tracker/src/executors/wots_handler.rs\<close>). The hash function, the text
  form of a transaction id, key generation and signing are those of the libraries, the secret service
  is a client whose answers depend on the request only; all of them are parameters.
\<close>

section \<open>Derivation from a master secret\<close>

record wots_env =
  txid_string :: "txid \<Rightarrow> string"
  sha256_of :: "string \<Rightarrow> bytes"
  wots256_generate :: "bytes \<Rightarrow> wots_pk"
  wots_hash_generate :: "bytes \<Rightarrow> wots_pk"
  wots256_sign :: "bytes \<Rightarrow> bytes \<Rightarrow> wots_sig"
  wots_hash_sign :: "bytes \<Rightarrow> bytes \<Rightarrow> wots_sig"

text \<open>The decimal text of a number, as \<open>format!\<close> prints a \<open>usize\<close>.\<close>

fun decimal :: "nat \<Rightarrow> string" where
  "decimal n = (if n < 10 then [char_of (48 + n)] else decimal (n div 10) @ [char_of (48 + n mod 10)])"

declare decimal.simps [simp del]

definition get_deposit_master_secret_key :: "wots_env \<Rightarrow> string \<Rightarrow> txid \<Rightarrow> string" where
  "get_deposit_master_secret_key env msk deposit_txid = msk @ '':'' @ txid_string env deposit_txid"

definition secret_key_from_msk :: "wots_env \<Rightarrow> string \<Rightarrow> string \<Rightarrow> bytes" where
  "secret_key_from_msk env msk var = sha256_of env (msk @ '':'' @ var)"

definition secret_key_for_bridge_out_txid :: "wots_env \<Rightarrow> string \<Rightarrow> bytes" where
  "secret_key_for_bridge_out_txid env msk = secret_key_from_msk env msk ''bridge_out_txid''"

definition secret_key_for_public_inputs_hash :: "wots_env \<Rightarrow> string \<Rightarrow> bytes" where
  "secret_key_for_public_inputs_hash env msk = secret_key_from_msk env msk ''public_inputs_hash''"

definition secret_key_for_proof_element :: "wots_env \<Rightarrow> string \<Rightarrow> nat \<Rightarrow> bytes" where
  "secret_key_for_proof_element env msk i = secret_key_from_msk env msk (''proof_element_'' @ decimal i)"

definition public_key_for_bridge_out_txid :: "wots_env \<Rightarrow> string \<Rightarrow> wots_pk" where
  "public_key_for_bridge_out_txid env msk =
     wots256_generate env (secret_key_for_bridge_out_txid env msk)"

definition public_key_for_public_inputs_hash :: "wots_env \<Rightarrow> string \<Rightarrow> wots_pk" where
  "public_key_for_public_inputs_hash env msk =
     wots256_generate env (secret_key_for_bridge_out_txid env msk)"

section \<open>Keys and signatures of a deposit\<close>

record assertions =
  as_withdrawal_fulfillment :: bytes
  as_public_inputs :: "bytes list"
  as_fqs :: "bytes list"
  as_hashes :: "bytes list"

record wots_signatures =
  sigs_withdrawal_fulfillment :: wots_sig
  sigs_groth16 :: groth16_sigs

definition wots256_public_key_new :: "wots_env \<Rightarrow> string \<Rightarrow> txid \<Rightarrow> wots_pk" where
  "wots256_public_key_new env msk txid =
     (let sk = get_deposit_master_secret_key env msk txid in
      wots256_generate env (secret_key_for_bridge_out_txid env sk))"

definition public_keys_new :: "wots_env \<Rightarrow> string \<Rightarrow> txid \<Rightarrow> wots_public_keys" where
  "public_keys_new env msk deposit_txid =
     (let deposit_msk = get_deposit_master_secret_key env msk deposit_txid in
      \<lparr>withdrawal_fulfillment_pk = wots256_public_key_new env msk deposit_txid,
       groth16_public_inputs = wots256_generate env (secret_key_for_public_inputs_hash env deposit_msk),
       groth16_fqs = map (\<lambda>i. wots256_generate env (secret_key_for_proof_element env deposit_msk i)) [0..<NUM_U256],
       groth16_hashes =
         map (\<lambda>i. wots_hash_generate env (secret_key_for_proof_element env deposit_msk (i + 40))) [0..<NUM_HASH]\<rparr>)"

definition wots256_sig_new :: "wots_env \<Rightarrow> string \<Rightarrow> txid \<Rightarrow> bytes \<Rightarrow> wots_sig" where
  "wots256_sig_new env msk seed_txid data =
     (let sk = get_deposit_master_secret_key env msk seed_txid in
      wots256_sign env (secret_key_for_bridge_out_txid env sk) data)"

definition groth16_sigs_new :: "wots_env \<Rightarrow> string \<Rightarrow> txid \<Rightarrow> assertions \<Rightarrow> groth16_sigs" where
  "groth16_sigs_new env msk deposit_txid a =
     (let deposit_msk = get_deposit_master_secret_key env msk deposit_txid in
      \<lparr>sig_public_inputs =
         [wots256_sign env (secret_key_for_public_inputs_hash env deposit_msk) (as_public_inputs a ! 0)],
       sig_fqs = map (\<lambda>i. wots256_sign env (secret_key_for_proof_element env deposit_msk i) (as_fqs a ! i))
                   [0..<NUM_U256],
       sig_hashes =
         map (\<lambda>i. wots_hash_sign env (secret_key_for_proof_element env deposit_msk (i + 40)) (as_hashes a ! i))
           [0..<NUM_HASH]\<rparr>)"

definition signatures_new :: "wots_env \<Rightarrow> string \<Rightarrow> txid \<Rightarrow> assertions \<Rightarrow> wots_signatures" where
  "signatures_new env msk deposit_txid a =
     \<lparr>sigs_withdrawal_fulfillment = wots256_sig_new env msk deposit_txid (as_withdrawal_fulfillment a),
      sigs_groth16 = groth16_sigs_new env msk deposit_txid a\<rparr>"

section \<open>Keys and signatures through the secret service\<close>

datatype wots_handler_err = SecretServiceErr string | FatalErr string

record s2_wots_client =
  get_256_public_key :: "txid \<Rightarrow> u32 \<Rightarrow> u32 \<Rightarrow> (wots_handler_err, bytes) outcome"
  get_128_public_key :: "txid \<Rightarrow> u32 \<Rightarrow> u32 \<Rightarrow> (wots_handler_err, bytes) outcome"
  get_256_signature :: "txid \<Rightarrow> u32 \<Rightarrow> u32 \<Rightarrow> bytes \<Rightarrow> (wots_handler_err, wots_sig) outcome"
  get_128_signature :: "txid \<Rightarrow> u32 \<Rightarrow> u32 \<Rightarrow> bytes \<Rightarrow> (wots_handler_err, wots_sig) outcome"
  from_flattened_256 :: "bytes \<Rightarrow> wots_pk"
  from_flattened_128 :: "bytes \<Rightarrow> wots_pk"

definition DEPOSIT_VOUT :: u32 where "DEPOSIT_VOUT = 0"
definition WITHDRAWAL_FULFILLMENT_PK_IDX :: u32 where "WITHDRAWAL_FULFILLMENT_PK_IDX = 0"

definition get_withdrawal_fulfillment_wots_pk ::
    "s2_wots_client \<Rightarrow> txid \<Rightarrow> (wots_handler_err, wots_pk) outcome" where
  "get_withdrawal_fulfillment_wots_pk s2 deposit_txid =
     map_outcome_ok (from_flattened_256 s2)
       (get_256_public_key s2 deposit_txid DEPOSIT_VOUT WITHDRAWAL_FULFILLMENT_PK_IDX)"

definition get_wots_pks :: "s2_wots_client \<Rightarrow> txid \<Rightarrow> (wots_handler_err, p2p_wots_public_keys) outcome" where
  "get_wots_pks s2 deposit_txid =
     bind_outcome (get_withdrawal_fulfillment_wots_pk s2 deposit_txid) (\<lambda>withdrawal_fulfillment_pk.
     bind_outcome (traverse (\<lambda>i. map_outcome_ok (from_flattened_256 s2)
         (get_256_public_key s2 deposit_txid DEPOSIT_VOUT (WITHDRAWAL_FULFILLMENT_PK_IDX + of_nat i)))
       [0..<NUM_PUBS]) (\<lambda>public_inputs.
     bind_outcome (traverse (\<lambda>i. map_outcome_ok (from_flattened_256 s2)
         (get_256_public_key s2 deposit_txid DEPOSIT_VOUT (WITHDRAWAL_FULFILLMENT_PK_IDX + of_nat (NUM_PUBS + i))))
       [0..<NUM_U256]) (\<lambda>fqs.
     bind_outcome (traverse (\<lambda>i. map_outcome_ok (from_flattened_128 s2)
         (get_128_public_key s2 deposit_txid DEPOSIT_VOUT (of_nat i)))
       [0..<NUM_HASH]) (\<lambda>hashes.
       Ok \<lparr>p2p_withdrawal_fulfillment = withdrawal_fulfillment_pk, p2p_public_inputs = public_inputs,
           p2p_fqs = fqs, p2p_hashes = hashes\<rparr>))))"

text \<open>
  The futures of the three groups run together; an error is returned by the first group that has one,
  in the order in which the code collects them.
\<close>

definition sign_all ::
    "(nat \<Rightarrow> bytes \<Rightarrow> (wots_handler_err, wots_sig) outcome) \<Rightarrow> bytes list \<Rightarrow> nat \<Rightarrow>
     (wots_handler_err, wots_sig list) outcome" where
  "sign_all sign messages expected =
     bind_outcome (traverse (\<lambda>(i, m). sign i m) (enumerate 0 messages)) (\<lambda>sigs.
     if length sigs \<noteq> expected then Err (FatalErr ''signatures must have the right size'') else Ok sigs)"

definition sign_assertions ::
    "s2_wots_client \<Rightarrow> txid \<Rightarrow> assertions \<Rightarrow> (wots_handler_err, wots_signatures) outcome" where
  "sign_assertions s2 deposit_txid a =
     bind_outcome (get_256_signature s2 deposit_txid DEPOSIT_VOUT WITHDRAWAL_FULFILLMENT_PK_IDX
         (as_withdrawal_fulfillment a)) (\<lambda>withdrawal_fulfillment_sig.
     bind_outcome (sign_all (\<lambda>i. get_256_signature s2 deposit_txid DEPOSIT_VOUT
         (WITHDRAWAL_FULFILLMENT_PK_IDX + of_nat i)) (as_public_inputs a) NUM_PUBS) (\<lambda>public_params_sigs.
     bind_outcome (sign_all (\<lambda>i. get_256_signature s2 deposit_txid DEPOSIT_VOUT
         (WITHDRAWAL_FULFILLMENT_PK_IDX + of_nat NUM_PUBS + of_nat i)) (as_fqs a) NUM_U256) (\<lambda>field_elems_sigs.
     bind_outcome (sign_all (\<lambda>i. get_128_signature s2 deposit_txid DEPOSIT_VOUT (of_nat i))
         (as_hashes a) NUM_HASH) (\<lambda>hash_sigs.
       Ok \<lparr>sigs_withdrawal_fulfillment = withdrawal_fulfillment_sig,
           sigs_groth16 = \<lparr>sig_public_inputs = public_params_sigs, sig_fqs = field_elems_sigs,
                           sig_hashes = hash_sigs\<rparr>\<rparr>))))"

section \<open>Every derived secret is used for one commitment\<close>

fun decimal_value :: "nat \<Rightarrow> string \<Rightarrow> nat" where
  "decimal_value acc [] = acc"
| "decimal_value acc (c # cs) = decimal_value (10 * acc + (of_char c - 48)) cs"

lemma decimal_value_append: "decimal_value acc (xs @ ys) = decimal_value (decimal_value acc xs) ys"
  by (induction xs arbitrary: acc) auto

lemma decimal_value_decimal: "decimal_value 0 (decimal n) = n"
proof (induction n rule: decimal.induct)
  case (1 n)
  have digit: "of_char (char_of (48 + k) :: char) - 48 = k" if "k < 10" for k :: nat
    using that by simp
  show ?case
    using 1 digit [of n] digit [of "n mod 10"]
    by (subst decimal.simps) (simp add: decimal_value_append)
qed

lemma decimal_inj [simp]: "decimal m = decimal n \<longleftrightarrow> m = n"
  using decimal_value_decimal [of m] decimal_value_decimal [of n] by metis

text \<open>The secrets behind the keys of one deposit, in the order of the keys.\<close>

definition deposit_secrets :: "wots_env \<Rightarrow> string \<Rightarrow> bytes list" where
  "deposit_secrets env msk =
     secret_key_for_bridge_out_txid env msk # secret_key_for_public_inputs_hash env msk #
     map (secret_key_for_proof_element env msk) [0..<NUM_U256] @
     map (\<lambda>i. secret_key_for_proof_element env msk (i + 40)) [0..<NUM_HASH]"

definition deposit_secret_texts :: "string \<Rightarrow> string list" where
  "deposit_secret_texts msk =
     map (\<lambda>var. msk @ '':'' @ var)
       (''bridge_out_txid'' # ''public_inputs_hash'' #
        map (\<lambda>i. ''proof_element_'' @ decimal i) ([0..<NUM_U256] @ map (\<lambda>i. i + 40) [0..<NUM_HASH]))"

lemma deposit_secrets_texts: "deposit_secrets env msk = map (sha256_of env) (deposit_secret_texts msk)"
  by (simp add: deposit_secrets_def deposit_secret_texts_def secret_key_for_bridge_out_txid_def
      secret_key_for_public_inputs_hash_def secret_key_for_proof_element_def secret_key_from_msk_def comp_def)

lemma distinct_proof_elements: "distinct ([0..<NUM_U256] @ map (\<lambda>i. i + 40) [0..<NUM_HASH])"
  by (auto simp: distinct_map NUM_U256_def)

lemma distinct_secret_texts: "distinct (deposit_secret_texts msk)"
proof -
  have "distinct (map (\<lambda>i. ''proof_element_'' @ decimal i) ([0..<NUM_U256] @ map (\<lambda>i. i + 40) [0..<NUM_HASH]))"
    using distinct_proof_elements by (subst distinct_map) (auto simp: inj_on_def)
  then have "distinct (''bridge_out_txid'' # ''public_inputs_hash'' #
      map (\<lambda>i. ''proof_element_'' @ decimal i) ([0..<NUM_U256] @ map (\<lambda>i. i + 40) [0..<NUM_HASH]))"
    by auto
  then show ?thesis
    unfolding deposit_secret_texts_def by (subst distinct_map) (simp add: inj_on_def)
qed


text \<open>
  (C26) The signatures made from a master secret verify under the keys made from it: given a verifier
  that accepts what the scheme signs, each signature of \<open>Signatures::new\<close> is accepted under the key of
  \<open>PublicKeys::new\<close> for the same commitment.
\<close>
theorem signatures_match_keys:
  assumes "\<And>sk m. verify256 (wots256_generate env sk) (wots256_sign env sk m) m"
    and "\<And>sk m. verify_hash (wots_hash_generate env sk) (wots_hash_sign env sk m) m"
  shows "let keys = public_keys_new env msk txid; sigs = signatures_new env msk txid a;
             g = sigs_groth16 sigs in
     verify256 (withdrawal_fulfillment_pk keys) (sigs_withdrawal_fulfillment sigs) (as_withdrawal_fulfillment a) \<and>
     verify256 (groth16_public_inputs keys) (sig_public_inputs g ! 0) (as_public_inputs a ! 0) \<and>
     (\<forall>i < NUM_U256. verify256 (groth16_fqs keys ! i) (sig_fqs g ! i) (as_fqs a ! i)) \<and>
     (\<forall>i < NUM_HASH. verify_hash (groth16_hashes keys ! i) (sig_hashes g ! i) (as_hashes a ! i))"
  using assms
  by (simp add: public_keys_new_def signatures_new_def groth16_sigs_new_def wots256_sig_new_def
      wots256_public_key_new_def Let_def)

section \<open>Keys that serve two commitments\<close>

text \<open>
  The public key that \<open>public_key_for_public_inputs_hash\<close> returns is that of the withdrawal
  fulfillment commitment; \<open>PublicKeys::new\<close> derives the key of the public inputs from their own secret.
\<close>

lemma public_inputs_key_is_bridge_out_key:
  "public_key_for_public_inputs_hash env msk = public_key_for_bridge_out_txid env msk"
  "groth16_public_inputs (public_keys_new env msk txid) =
     wots256_generate env (secret_key_for_public_inputs_hash env (get_deposit_master_secret_key env msk txid))"
  by (simp_all add: public_key_for_public_inputs_hash_def public_key_for_bridge_out_txid_def
      public_keys_new_def Let_def)

lemma traverse_hd:
  "traverse f (x # xs) = Ok ys \<Longrightarrow> f x = Ok (ys ! 0)"
  by (cases "f x"; cases "traverse f xs") auto

text \<open>
  (C37) Through the secret service, one one-time key serves two commitments: the key published for the
  public input of the proof is the key published for the withdrawal fulfillment, and the two signatures
  of a disputed claim, on two messages, are answers to requests for the same key.
\<close>
theorem fulfillment_key_signs_twice:
  assumes "get_wots_pks s2 deposit_txid = Ok keys" and "sign_assertions s2 deposit_txid a = Ok sigs"
    and "length (as_public_inputs a) = NUM_PUBS"
  shows "p2p_public_inputs keys ! 0 = p2p_withdrawal_fulfillment keys \<and>
    get_256_signature s2 deposit_txid 0 0 (as_withdrawal_fulfillment a) = Ok (sigs_withdrawal_fulfillment sigs) \<and>
    get_256_signature s2 deposit_txid 0 0 (as_public_inputs a ! 0) =
      Ok (sig_public_inputs (sigs_groth16 sigs) ! 0)"
proof -
  have pubs: "[0..<NUM_PUBS] = 0 # []"
    by (simp add: NUM_PUBS_def)
  obtain m where m: "as_public_inputs a = [m]"
    using assms(3) by (auto simp: NUM_PUBS_def length_Suc_conv)
  have "p2p_public_inputs keys ! 0 = p2p_withdrawal_fulfillment keys"
    using assms(1)
    by (auto simp: get_wots_pks_def bind_outcome_Ok_iff pubs get_withdrawal_fulfillment_wots_pk_def
        dest!: traverse_hd)
  moreover have "get_256_signature s2 deposit_txid 0 0 (as_withdrawal_fulfillment a) =
      Ok (sigs_withdrawal_fulfillment sigs)"
    using assms(2)
    by (auto simp: sign_assertions_def bind_outcome_Ok_iff DEPOSIT_VOUT_def WITHDRAWAL_FULFILLMENT_PK_IDX_def)
  moreover have "get_256_signature s2 deposit_txid 0 0 m = Ok (sig_public_inputs (sigs_groth16 sigs) ! 0)"
    using assms(2)
    by (auto simp: sign_assertions_def sign_all_def bind_outcome_Ok_iff DEPOSIT_VOUT_def
        WITHDRAWAL_FULFILLMENT_PK_IDX_def m split: if_splits dest!: traverse_hd)
  ultimately show ?thesis
    by (simp add: m)
qed

section \<open>Signatures of a proof as a sequence\<close>

text \<open>
  \<open>Groth16Sigs\<close> is written as two arrays of signatures and a vector of hash signatures, whose length is
  checked when it is read.
\<close>

definition serialize_groth16_sigs :: "groth16_sigs \<Rightarrow> wots_sig list \<times> wots_sig list \<times> wots_sig list" where
  "serialize_groth16_sigs g =
     (map serialize_sig_stub (sig_public_inputs g), map serialize_sig_stub (sig_fqs g),
      map serialize_sig_stub (sig_hashes g))"

fun visit_sig_array :: "nat \<Rightarrow> wots_sig \<Rightarrow> (nat, wots_sig) outcome" where
  "visit_sig_array width seq = map_outcome_ok fst (visit_sig_stub width 0 seq)"

definition deserialize_groth16_sigs ::
    "wots_sig list \<times> wots_sig list \<times> wots_sig list \<Rightarrow> (nat, groth16_sigs) outcome" where
  "deserialize_groth16_sigs parts =
     (case parts of (pub_inputs, field_elems, hashes) \<Rightarrow>
      bind_outcome (traverse (visit_sig_array wots256_width) pub_inputs) (\<lambda>pub_inputs.
      bind_outcome (traverse (visit_sig_array wots256_width) field_elems) (\<lambda>field_elems.
      bind_outcome (traverse (visit_sig_array wots_hash_width) hashes) (\<lambda>hashes.
      if length hashes \<noteq> NUM_HASH then Err (length hashes)
      else Ok \<lparr>sig_public_inputs = pub_inputs, sig_fqs = field_elems, sig_hashes = hashes\<rparr>))))"

lemma traverse_sig_array:
  assumes "list_all (\<lambda>s. length s = width) sigs"
  shows "traverse (visit_sig_array width) (map serialize_sig_stub sigs) = Ok sigs"
proof -
  have one: "visit_sig_array width (serialize_sig_stub s) = Ok s" if "length s = width" for s
    using visit_sig_stub_iff [of width 0 "serialize_sig_stub s" s "[]"] that by simp
  show ?thesis
    using assms by (induction sigs) (simp_all add: one del: visit_sig_array.simps)
qed

lemma groth16_sigs_round_trip:
  assumes "list_all (\<lambda>s. length s = wots256_width) (sig_public_inputs g)"
    and "list_all (\<lambda>s. length s = wots256_width) (sig_fqs g)"
    and "list_all (\<lambda>s. length s = wots_hash_width) (sig_hashes g)" and "length (sig_hashes g) = NUM_HASH"
  shows "deserialize_groth16_sigs (serialize_groth16_sigs g) = Ok g"
  using assms
  by (simp add: deserialize_groth16_sigs_def serialize_groth16_sigs_def traverse_sig_array)

section \<open>An example\<close>

definition example_wots_env :: wots_env where
  "example_wots_env =
     \<lparr>txid_string = (\<lambda>_. ''00''), sha256_of = map (\<lambda>c. word_of_nat (of_char c)), wots256_generate = (\<lambda>sk. [sk]),
      wots_hash_generate = (\<lambda>sk. [sk]), wots256_sign = (\<lambda>sk m. [sk, m]), wots_hash_sign = (\<lambda>sk m. [sk, m])\<rparr>"

definition example_s2 :: s2_wots_client where
  "example_s2 =
     \<lparr>get_256_public_key = (\<lambda>_ _ i. Ok [ucast i]), get_128_public_key = (\<lambda>_ _ i. Ok [ucast i]),
      get_256_signature = (\<lambda>_ _ i m. Ok [ucast i # m]), get_128_signature = (\<lambda>_ _ i m. Ok [ucast i # m]),
      from_flattened_256 = (\<lambda>b. [b]), from_flattened_128 = (\<lambda>b. [b])\<rparr>"

definition example_assertions :: assertions where
  "example_assertions =
     \<lparr>as_withdrawal_fulfillment = [1], as_public_inputs = [[2]], as_fqs = replicate NUM_U256 [3],
      as_hashes = replicate NUM_HASH [4]\<rparr>"

lemma char_byte_inj: "inj (\<lambda>c. word_of_nat (of_char c) :: u8)"
proof (rule injI)
  fix c d :: char
  assume "(word_of_nat (of_char c) :: u8) = word_of_nat (of_char d)"
  then have "unat (word_of_nat (of_char c) :: u8) = unat (word_of_nat (of_char d) :: u8)"
    by simp
  moreover have "unat (word_of_nat (of_char x) :: u8) = of_char x" for x
    using nat_of_char_less_256 [of x] by (simp add: unat_of_nat)
  ultimately show "c = d"
    by simp
qed


theorem signatures_match_keys_witness:
  "let keys = public_keys_new example_wots_env ''msk'' 7;
       sigs = signatures_new example_wots_env ''msk'' 7 example_assertions; g = sigs_groth16 sigs;
       ok = (\<lambda>pk sig m. sig = pk @ [m]) in
     ok (withdrawal_fulfillment_pk keys) (sigs_withdrawal_fulfillment sigs) [1] \<and>
     ok (groth16_public_inputs keys) (sig_public_inputs g ! 0) [2] \<and>
     (\<forall>i < NUM_U256. ok (groth16_fqs keys ! i) (sig_fqs g ! i) (as_fqs example_assertions ! i)) \<and>
     (\<forall>i < NUM_HASH. ok (groth16_hashes keys ! i) (sig_hashes g ! i) (as_hashes example_assertions ! i))"
  using signatures_match_keys [of "\<lambda>pk sig m. sig = pk @ [m]" example_wots_env "\<lambda>pk sig m. sig = pk @ [m]"
      "''msk''" 7 example_assertions]
  by (simp add: Let_def example_wots_env_def) (simp add: example_assertions_def)

lemma example_pks: "\<exists>keys. get_wots_pks example_s2 7 = Ok keys"
proof -
  have "traverse (\<lambda>i. Ok (h i) :: (wots_handler_err, wots_pk) outcome) xs = Ok (map h xs)"
    for h and xs :: "nat list"
    by (induction xs) auto
  then show ?thesis
    by (simp add: get_wots_pks_def get_withdrawal_fulfillment_wots_pk_def example_s2_def)
qed

lemma example_sign_all:
  assumes "\<And>i m. sign i m = Ok (f i m)" and "length ms = n"
  shows "\<exists>sigs. sign_all sign ms n = Ok sigs"
proof -
  have "traverse (\<lambda>(i, m). sign i m) xs = Ok (map (\<lambda>(i, m). f i m) xs)" for xs
    by (induction xs) (auto simp: assms(1))
  then show ?thesis
    using assms(2) by (simp add: sign_all_def)
qed

lemma example_sigs: "\<exists>sigs. sign_assertions example_s2 7 example_assertions = Ok sigs"
proof -
  have "\<exists>s1. sign_all (\<lambda>i. get_256_signature example_s2 7 DEPOSIT_VOUT (WITHDRAWAL_FULFILLMENT_PK_IDX + of_nat i))
          (as_public_inputs example_assertions) NUM_PUBS = Ok s1"
    by (rule example_sign_all) (simp_all add: example_s2_def example_assertions_def NUM_PUBS_def)
  moreover have "\<exists>s2. sign_all (\<lambda>i. get_256_signature example_s2 7 DEPOSIT_VOUT
          (WITHDRAWAL_FULFILLMENT_PK_IDX + of_nat NUM_PUBS + of_nat i)) (as_fqs example_assertions) NUM_U256 = Ok s2"
    by (rule example_sign_all) (simp_all add: example_s2_def example_assertions_def)
  moreover have "\<exists>s3. sign_all (\<lambda>i. get_128_signature example_s2 7 DEPOSIT_VOUT (of_nat i))
          (as_hashes example_assertions) NUM_HASH = Ok s3"
    by (rule example_sign_all) (simp_all add: example_s2_def example_assertions_def)
  moreover have "\<exists>s0. get_256_signature example_s2 7 DEPOSIT_VOUT WITHDRAWAL_FULFILLMENT_PK_IDX
      (as_withdrawal_fulfillment example_assertions) = Ok s0"
    by (simp add: example_s2_def)
  ultimately show ?thesis
    by (auto simp: sign_assertions_def)
qed

theorem fulfillment_key_signs_twice_witness:
  "\<exists>keys sigs. get_wots_pks example_s2 7 = Ok keys \<and> sign_assertions example_s2 7 example_assertions = Ok sigs \<and>
    p2p_public_inputs keys ! 0 = p2p_withdrawal_fulfillment keys \<and>
    get_256_signature example_s2 7 0 0 [1] = Ok (sigs_withdrawal_fulfillment sigs) \<and>
    get_256_signature example_s2 7 0 0 [2] = Ok (sig_public_inputs (sigs_groth16 sigs) ! 0)"
proof -
  obtain keys sigs where k: "get_wots_pks example_s2 7 = Ok keys"
    and s: "sign_assertions example_s2 7 example_assertions = Ok sigs"
    using example_pks example_sigs by blast
  then show ?thesis
    using fulfillment_key_signs_twice [OF k s] by (auto simp: example_assertions_def NUM_PUBS_def)
qed

end
