(* ===== verification/Database.thy ===== *)
theory Database
  imports Stake_Chain Wots_Keys
begin

text \<open>
  The node's database (\<open>crates/db/src/persistent/sqlite.rs\<close>, with the schema of
  \<open>migrations/20241113060253_init_schema.sql\<close>). A table is the list of its rows, each a primary key
  and the remaining columns. \<open>INSERT OR REPLACE\<close> removes the row with the same key first,
  \<open>INSERT OR IGNORE\<close> keeps it, a \<open>SELECT\<close> by primary key finds at most one row. Every call is attempted
  again after a failure until the configured number of retries is used up; which attempts fail is a
  parameter of the call. A failed attempt leaves the database as it was, its transaction being rolled
  back.
\<close>

section \<open>Tables\<close>

type_synonym ('k, 'v) sql_table = "('k \<times> 'v) list"

definition sql_select :: "('k, 'v) sql_table \<Rightarrow> 'k \<Rightarrow> 'v option" where
  "sql_select t k = map_of t k"

definition insert_or_replace :: "'k \<Rightarrow> 'v \<Rightarrow> ('k, 'v) sql_table \<Rightarrow> ('k, 'v) sql_table" where
  "insert_or_replace k v t = filter (\<lambda>r. fst r \<noteq> k) t @ [(k, v)]"

definition insert_or_ignore :: "'k \<Rightarrow> 'v \<Rightarrow> ('k, 'v) sql_table \<Rightarrow> ('k, 'v) sql_table" where
  "insert_or_ignore k v t = (if sql_select t k = None then t @ [(k, v)] else t)"

text \<open>
  What the operations on a table rely on: after storing a value under a key, the key holds the value
  that the conflict rule picks from the old and the new one, and the other keys hold what they held.
\<close>

locale keyed_table =
  fixes put :: "'k \<Rightarrow> 'v \<Rightarrow> 't \<Rightarrow> 't"
    and get :: "'t \<Rightarrow> 'k \<Rightarrow> 'v option"
    and pick :: "'v option \<Rightarrow> 'v \<Rightarrow> 'v"
  assumes get_put: "get (put k v t) k' = (if k' = k then Some (pick (get t k) v) else get t k')"
    and pick_None: "pick None v = v"
    and pick_idem: "pick (Some (pick x v)) v = pick x v"
begin

lemma get_put_new: "get t k = None \<Longrightarrow> get (put k v t) k = Some v"
  by (simp add: get_put pick_None)

lemma get_put_twice: "get (put k v (put k v t)) = get (put k v t)"
  by (rule ext) (simp add: get_put pick_idem)

lemma get_put_commute: "j \<noteq> k \<Longrightarrow> get (put j v (put k w t)) = get (put k w (put j v t))"
  by (rule ext) (auto simp: get_put)

lemma get_foldl_put_other:
  "k \<notin> fst ` set rows \<Longrightarrow> get (foldl (\<lambda>t (k, v). put k v t) t rows) k = get t k"
  by (induction rows arbitrary: t) (auto simp: get_put)

lemma get_foldl_put:
  "distinct (map fst rows) \<Longrightarrow> (k, v) \<in> set rows \<Longrightarrow>
   get (foldl (\<lambda>t (k, v). put k v t) t rows) k = Some (pick (get t k) v)"
proof (induction rows arbitrary: t)
  case (Cons r rows)
  show ?case
  proof (cases "(k, v) = r")
    case True
    then have "k \<notin> fst ` set rows"
      using Cons.prems(1) by (metis distinct.simps(2) fst_conv list.map(2) set_map)
    with True show ?thesis
      using get_foldl_put_other [of k rows "put k v t"] True by (cases r) (simp add: get_put)
  next
    case False
    then have "(k, v) \<in> set rows"
      using Cons.prems(2) by simp
    moreover from this have "fst r \<noteq> k"
      using Cons.prems(1) by (metis distinct.simps(2) fst_conv imageI list.map(2) set_map)
    ultimately show ?thesis
      using Cons by (cases r) (auto simp: get_put)
  qed
qed simp

end

lemma sql_select_insert_or_replace:
  "sql_select (insert_or_replace k v t) k' = (if k' = k then Some v else sql_select t k')"
proof -
  have "map_of (filter (\<lambda>r. fst r \<noteq> k) t) k' = (if k' = k then None else map_of t k')"
    by (induction t) auto
  then show ?thesis
    by (auto simp: sql_select_def insert_or_replace_def map_add_def split: option.split)
qed

lemma sql_select_insert_or_ignore:
  "sql_select (insert_or_ignore k v t) k' =
     (if k' = k then Some (case sql_select t k of None \<Rightarrow> v | Some old \<Rightarrow> old) else sql_select t k')"
  by (auto simp: insert_or_ignore_def sql_select_def map_add_def split: option.splits)

interpretation replace_table: keyed_table insert_or_replace sql_select "\<lambda>old new. new"
  by unfold_locales (simp_all add: sql_select_insert_or_replace)

interpretation ignore_table: keyed_table insert_or_ignore sql_select
    "\<lambda>old new. case old of None \<Rightarrow> new | Some v \<Rightarrow> v"
  by unfold_locales (simp_all add: sql_select_insert_or_ignore split: option.splits)

section \<open>Retries\<close>

datatype db_error = StorageError string | DbUnexpected string

text \<open>
  \<open>execute_with_retries\<close>: the attempts are numbered from 0; the result carries the number of attempts
  made. The recursion is on the retries that are left.
\<close>

fun db_retry_loop :: "nat \<Rightarrow> nat \<Rightarrow> (nat \<Rightarrow> (db_error, 'a) outcome) \<Rightarrow> (db_error, 'a) outcome \<times> nat" where
  "db_retry_loop left retries operation =
     (case operation retries of
        Ok res \<Rightarrow> (Ok res, retries + 1)
      | Panic \<Rightarrow> (Panic, retries + 1)
      | Err e \<Rightarrow> (case left of 0 \<Rightarrow> (Err e, retries + 1) | Suc n \<Rightarrow> db_retry_loop n (retries + 1) operation))"

declare db_retry_loop.simps [simp del]

definition execute_with_retries ::
    "nat \<Rightarrow> (nat \<Rightarrow> (db_error, 'a) outcome) \<Rightarrow> (db_error, 'a) outcome \<times> nat" where
  "execute_with_retries max_retry_count operation = db_retry_loop max_retry_count 0 operation"

lemma db_retry_loop_first_success:
  assumes "\<forall>j. n \<le> j \<and> j < k \<longrightarrow> (\<exists>e. operation j = Err e)" and "operation k = Ok a" and "n \<le> k" and "k \<le> n + m"
  shows "db_retry_loop m n operation = (Ok a, k + 1)"
  using assms
proof (induction m arbitrary: n)
  case 0
  then show ?case by (subst db_retry_loop.simps) simp
next
  case (Suc m)
  show ?case
  proof (cases "n = k")
    case True
    with Suc.prems show ?thesis by (subst db_retry_loop.simps) simp
  next
    case False
    then obtain e where "operation n = Err e"
      using Suc.prems(1,3) by (metis le_eq_less_or_eq order_refl)
    moreover have "db_retry_loop m (n + 1) operation = (Ok a, k + 1)"
      using Suc.prems False by (intro Suc.IH) auto
    ultimately show ?thesis
      by (subst db_retry_loop.simps) simp
  qed
qed

lemma db_retry_loop_all_fail:
  assumes "\<forall>j \<le> n + m. n \<le> j \<longrightarrow> (\<exists>e. operation j = Err e)"
  shows "\<exists>e. operation (n + m) = Err e \<and> db_retry_loop m n operation = (Err e, n + m + 1)"
  using assms
proof (induction m arbitrary: n)
  case 0
  then obtain e where "operation n = Err e" by auto
  then show ?case by (subst db_retry_loop.simps) simp
next
  case (Suc m)
  then obtain e where "operation n = Err e"
    by (metis le_add1 order_refl)
  moreover have "\<exists>e. operation (n + 1 + m) = Err e \<and> db_retry_loop m (n + 1) operation = (Err e, n + 1 + m + 1)"
    using Suc.prems by (intro Suc.IH) auto
  ultimately show ?case
    by (subst db_retry_loop.simps) simp
qed

text \<open>
  (C36) A database call makes at most one attempt more than the configured retries. If one of those
  attempts succeeds after failures only, its result is returned and no further attempt is made; if all
  of them fail, the error of the last one is returned.
\<close>
theorem execute_with_retries_spec:
  "(\<forall>k a. k \<le> allowed \<and> operation k = Ok a \<and> (\<forall>j < k. \<exists>e. operation j = Err e) \<longrightarrow>
      execute_with_retries allowed operation = (Ok a, k + 1)) \<and>
   ((\<forall>j \<le> allowed. \<exists>e. operation j = Err e) \<longrightarrow>
      (\<exists>e. operation allowed = Err e \<and>
         execute_with_retries allowed operation = (Err e, allowed + 1)))"
  using db_retry_loop_first_success [of 0 _ operation _ allowed]
    db_retry_loop_all_fail [of 0 allowed operation]
  by (auto simp: execute_with_retries_def)

theorem execute_with_retries_spec_witness:
  "execute_with_retries 2 (\<lambda>n. if n < 2 then Err (StorageError ''locked'') else Ok n) = (Ok 2, 3) \<and>
   execute_with_retries 1 (\<lambda>n. Err (StorageError (replicate n (CHR ''x''))) :: (db_error, nat) outcome) =
     (Err (StorageError ''x''), 2)"
proof -
  have "execute_with_retries 2 (\<lambda>n. if n < 2 then Err (StorageError ''locked'') else Ok n) = (Ok 2, 3)"
    using execute_with_retries_spec [of 2 "\<lambda>n. if n < 2 then Err (StorageError ''locked'') else Ok n",
        THEN conjunct1, rule_format, of 2 2]
    by simp
  moreover have "execute_with_retries 1 (\<lambda>n. Err (StorageError (replicate n (CHR ''x''))) :: (db_error, nat) outcome) =
     (Err (StorageError ''x''), 2)"
    using execute_with_retries_spec [of 1 "\<lambda>n. Err (StorageError (replicate n (CHR ''x''))) :: (db_error, nat) outcome"]
    by simp
  ultimately show ?thesis
    by simp
qed

section \<open>The database\<close>

record sqlite_db =
  tbl_wots_public_keys :: "(operator_idx \<times> txid, wots_public_keys) sql_table"
  tbl_wots_signatures :: "(operator_idx \<times> txid, wots_signatures) sql_table"
  tbl_signatures :: "(operator_idx \<times> txid \<times> u32, schnorr_sig) sql_table"
  tbl_deposits :: "(txid, nat) sql_table"
  tbl_operator_stake_txids :: "(nat \<times> operator_idx, txid) sql_table"
  tbl_operator_pre_stake_data :: "(operator_idx, out_point) sql_table"
  tbl_operator_stake_data :: "(operator_idx \<times> u32, stake_tx_data) sql_table"
  tbl_claim_txids :: "(txid, operator_idx \<times> txid) sql_table"
  tbl_post_assert_txids :: "(txid, operator_idx \<times> txid) sql_table"
  tbl_assert_data_txids :: "(txid, operator_idx \<times> txid) sql_table"
  tbl_pre_assert_txids :: "(txid, operator_idx \<times> txid) sql_table"
  tbl_pub_nonces :: "(operator_idx \<times> txid \<times> u32, pub_nonce) sql_table"
  tbl_aggregated_nonces :: "(txid \<times> u32, agg_nonce) sql_table"
  tbl_partial_signatures :: "(operator_idx \<times> txid \<times> u32, partial_signature) sql_table"
  tbl_witnesses :: "(operator_idx \<times> txid \<times> u32, taproot_witness) sql_table"

text \<open>A call: the number of retries and the failure, if any, of each attempt.\<close>

record db_call =
  max_retry_count :: nat
  attempt_error :: "nat \<Rightarrow> db_error option"

definition attempt :: "db_call \<Rightarrow> 'a \<Rightarrow> nat \<Rightarrow> (db_error, 'a) outcome" where
  "attempt c a n = (case attempt_error c n of None \<Rightarrow> Ok a | Some e \<Rightarrow> Err e)"

definition db_read :: "db_call \<Rightarrow> 'a \<Rightarrow> (db_error, 'a) outcome" where
  "db_read c a = fst (execute_with_retries (max_retry_count c) (attempt c a))"

definition db_write :: "db_call \<Rightarrow> sqlite_db \<Rightarrow> sqlite_db \<Rightarrow> sqlite_db \<times> (db_error, unit) outcome" where
  "db_write c db db' =
     (case fst (execute_with_retries (max_retry_count c) (attempt c db')) of
        Ok db'' \<Rightarrow> (db'', Ok ())
      | Err e \<Rightarrow> (db, Err e)
      | Panic \<Rightarrow> (db, Panic))"

definition get_wots_public_keys where
  "get_wots_public_keys c db op deposit = db_read c (sql_select (tbl_wots_public_keys db) (op, deposit))"

definition set_wots_public_keys where
  "set_wots_public_keys c db op deposit keys =
     db_write c db (db\<lparr>tbl_wots_public_keys := insert_or_replace (op, deposit) keys (tbl_wots_public_keys db)\<rparr>)"

definition get_wots_signatures where
  "get_wots_signatures c db op deposit = db_read c (sql_select (tbl_wots_signatures db) (op, deposit))"

definition set_wots_signatures where
  "set_wots_signatures c db op deposit sigs =
     db_write c db (db\<lparr>tbl_wots_signatures := insert_or_replace (op, deposit) sigs (tbl_wots_signatures db)\<rparr>)"

definition get_signature where
  "get_signature c db op txid i = db_read c (sql_select (tbl_signatures db) (op, txid, i))"

definition set_signature where
  "set_signature c db op txid i sig =
     db_write c db (db\<lparr>tbl_signatures := insert_or_replace (op, txid, i) sig (tbl_signatures db)\<rparr>)"

text \<open>
  The id of a deposit is the number of rows at its insertion. The id is unique as well, so a row whose
  id is taken would be ignored too.
\<close>

definition add_deposit_txid where
  "add_deposit_txid c db deposit =
     (let new_index = length (tbl_deposits db) in
      db_write c db (db\<lparr>tbl_deposits :=
        (if new_index \<in> snd ` set (tbl_deposits db) then tbl_deposits db
         else insert_or_ignore deposit new_index (tbl_deposits db))\<rparr>))"

definition get_deposit_id where
  "get_deposit_id c db deposit = db_read c (sql_select (tbl_deposits db) deposit)"

definition add_stake_txid where
  "add_stake_txid c db op stake =
     (let stake_id = length (filter (\<lambda>r. snd (fst r) = op) (tbl_operator_stake_txids db)) in
      db_write c db (db\<lparr>tbl_operator_stake_txids :=
        insert_or_ignore (stake_id, op) stake (tbl_operator_stake_txids db)\<rparr>))"

definition get_stake_txid where
  "get_stake_txid c db op stake_id = db_read c (sql_select (tbl_operator_stake_txids db) (stake_id, op))"

definition set_pre_stake where
  "set_pre_stake c db op pre_stake =
     db_write c db (db\<lparr>tbl_operator_pre_stake_data :=
       insert_or_ignore op pre_stake (tbl_operator_pre_stake_data db)\<rparr>)"

definition get_pre_stake where
  "get_pre_stake c db op = db_read c (sql_select (tbl_operator_pre_stake_data db) op)"

definition add_stake_data where
  "add_stake_data c db op idx stake_data =
     db_write c db (db\<lparr>tbl_operator_stake_data :=
       insert_or_ignore (op, idx) stake_data (tbl_operator_stake_data db)\<rparr>)"

definition get_stake_data where
  "get_stake_data c db op idx = db_read c (sql_select (tbl_operator_stake_data db) (op, idx))"

definition add_all_stake_data :: "db_call \<Rightarrow> sqlite_db \<Rightarrow> (operator_idx \<times> u32 \<times> stake_tx_data) list \<Rightarrow> _" where
  "add_all_stake_data c db rows =
     db_write c db (db\<lparr>tbl_operator_stake_data :=
       foldl (\<lambda>t (k, v). insert_or_ignore k v t) (tbl_operator_stake_data db)
         (map (\<lambda>(op, i, d). ((op, i), d)) rows)\<rparr>)"

definition get_all_stake_data :: "db_call \<Rightarrow> sqlite_db \<Rightarrow> operator_idx \<Rightarrow> (db_error, (u32, stake_tx_data) btree_map) outcome" where
  "get_all_stake_data c db op =
     db_read c (bt_collect (map (\<lambda>((_, i), d). (i, d)) (filter (\<lambda>r. fst (fst r) = op) (tbl_operator_stake_data db))))"

definition register_claim_txid where
  "register_claim_txid c db claim op deposit =
     db_write c db (db\<lparr>tbl_claim_txids := insert_or_replace claim (op, deposit) (tbl_claim_txids db)\<rparr>)"

definition get_operator_and_deposit_for_claim where
  "get_operator_and_deposit_for_claim c db claim = db_read c (sql_select (tbl_claim_txids db) claim)"

definition register_post_assert_txid where
  "register_post_assert_txid c db post_assert op deposit =
     db_write c db (db\<lparr>tbl_post_assert_txids := insert_or_replace post_assert (op, deposit) (tbl_post_assert_txids db)\<rparr>)"

definition get_operator_and_deposit_for_post_assert where
  "get_operator_and_deposit_for_post_assert c db post_assert =
     db_read c (sql_select (tbl_post_assert_txids db) post_assert)"

definition register_assert_data_txids :: "db_call \<Rightarrow> sqlite_db \<Rightarrow> txid list \<Rightarrow> operator_idx \<Rightarrow> txid \<Rightarrow> _" where
  "register_assert_data_txids c db txids op deposit =
     db_write c db (db\<lparr>tbl_assert_data_txids :=
       foldl (\<lambda>t (k, v). insert_or_replace k v t) (tbl_assert_data_txids db)
         (map (\<lambda>txid. (txid, (op, deposit))) txids)\<rparr>)"

definition get_operator_and_deposit_for_assert_data where
  "get_operator_and_deposit_for_assert_data c db assert_data =
     db_read c (sql_select (tbl_assert_data_txids db) assert_data)"

definition register_pre_assert_txid where
  "register_pre_assert_txid c db pre_assert op deposit =
     db_write c db (db\<lparr>tbl_pre_assert_txids := insert_or_replace pre_assert (op, deposit) (tbl_pre_assert_txids db)\<rparr>)"

definition get_operator_and_deposit_for_pre_assert where
  "get_operator_and_deposit_for_pre_assert c db pre_assert =
     db_read c (sql_select (tbl_pre_assert_txids db) pre_assert)"

definition get_pub_nonce where
  "get_pub_nonce c db op txid i = db_read c (sql_select (tbl_pub_nonces db) (op, txid, i))"

definition set_pub_nonce where
  "set_pub_nonce c db op txid i nonce =
     db_write c db (db\<lparr>tbl_pub_nonces := insert_or_replace (op, txid, i) nonce (tbl_pub_nonces db)\<rparr>)"

definition get_aggregated_nonce where
  "get_aggregated_nonce c db txid i = db_read c (sql_select (tbl_aggregated_nonces db) (txid, i))"

definition set_aggregated_nonce where
  "set_aggregated_nonce c db txid i nonce =
     db_write c db (db\<lparr>tbl_aggregated_nonces := insert_or_replace (txid, i) nonce (tbl_aggregated_nonces db)\<rparr>)"

definition get_partial_signature where
  "get_partial_signature c db op txid i = db_read c (sql_select (tbl_partial_signatures db) (op, txid, i))"

definition set_partial_signature where
  "set_partial_signature c db op txid i sig =
     db_write c db (db\<lparr>tbl_partial_signatures := insert_or_replace (op, txid, i) sig (tbl_partial_signatures db)\<rparr>)"

definition get_witness where
  "get_witness c db op txid i = db_read c (sql_select (tbl_witnesses db) (op, txid, i))"

definition set_witness where
  "set_witness c db op txid i w =
     db_write c db (db\<lparr>tbl_witnesses := insert_or_replace (op, txid, i) w (tbl_witnesses db)\<rparr>)"

section \<open>What the database guarantees\<close>

definition db_call_ok :: "db_call \<Rightarrow> bool" where
  "db_call_ok c \<longleftrightarrow> list_ex (\<lambda>n. attempt_error c n = None) [0..<Suc (max_retry_count c)]"

lemma attempts_succeed:
  assumes "db_call_ok c"
  shows "fst (execute_with_retries (max_retry_count c) (attempt c a)) = Ok a"
proof -
  define k where "k = (LEAST n. attempt_error c n = None)"
  obtain n where n: "n \<le> max_retry_count c" "attempt_error c n = None"
    using assms by (auto simp: db_call_ok_def list_ex_iff less_Suc_eq_le simp del: upt_Suc)
  then have k: "attempt_error c k = None" "k \<le> max_retry_count c"
    unfolding k_def by (auto intro: LeastI Least_le order_trans)
  have "\<exists>e. attempt c a j = Err e" if "j < k" for j
    using not_less_Least [OF that [unfolded k_def]] by (auto simp: attempt_def)
  then show ?thesis
    using k db_retry_loop_first_success [of 0 k "attempt c a" a "max_retry_count c"]
    by (simp add: execute_with_retries_def attempt_def)
qed

lemma attempts_fail:
  assumes "\<not> db_call_ok c"
  shows "\<exists>e. fst (execute_with_retries (max_retry_count c) (attempt c a)) = Err e"
proof -
  have "\<exists>e. attempt c a j = Err e" if "j \<le> max_retry_count c" for j
    using assms that
    by (auto simp: db_call_ok_def list_ex_iff attempt_def less_Suc_eq_le split: option.split simp del: upt_Suc)
  then show ?thesis
    using db_retry_loop_all_fail [of 0 "max_retry_count c" "attempt c a"]
    by (auto simp: execute_with_retries_def)
qed

lemma db_read_ok [simp]: "db_call_ok c \<Longrightarrow> db_read c a = Ok a"
  by (simp add: db_read_def attempts_succeed)

lemma db_write_ok [simp]: "db_call_ok c \<Longrightarrow> db_write c db db' = (db', Ok ())"
  by (simp add: db_write_def attempts_succeed)

lemma db_write_failed: "\<not> db_call_ok c \<Longrightarrow> \<exists>e. db_write c db db' = (db, Err e)"
  using attempts_fail [of c db'] by (auto simp: db_write_def)

lemma db_write_Ok_iff: "snd (db_write c db db') = Ok () \<longleftrightarrow> db_call_ok c"
  using db_write_failed [of c db db'] by (cases "db_call_ok c") auto


text \<open>Ids of deposits: dense, in the order of insertion, and never reassigned.\<close>

definition deposits_ok :: "sqlite_db \<Rightarrow> bool" where
  "deposits_ok db \<longleftrightarrow>
     map snd (tbl_deposits db) = [0..<length (tbl_deposits db)] \<and> distinct (map fst (tbl_deposits db))"

lemma add_deposit_new:
  assumes "deposits_ok db" and "db_call_ok c"
  shows "tbl_deposits (fst (add_deposit_txid c db d)) =
    (if d \<in> fst ` set (tbl_deposits db) then tbl_deposits db
     else tbl_deposits db @ [(d, length (tbl_deposits db))])"
proof -
  have "snd ` set (tbl_deposits db) = {0..<length (tbl_deposits db)}"
    using assms(1) by (metis deposits_ok_def atLeastLessThan_upt set_map)
  then show ?thesis
    using assms(2)
    by (auto simp: add_deposit_txid_def Let_def insert_or_ignore_def sql_select_def map_of_eq_None_iff)
qed

lemma add_deposit_failed: "\<not> db_call_ok c \<Longrightarrow> fst (add_deposit_txid c db d) = db"
  unfolding add_deposit_txid_def Let_def by (metis db_write_failed fst_conv)

lemma add_deposit_keeps:
  assumes "deposits_ok db"
  shows "deposits_ok (fst (add_deposit_txid c db d))"
proof (cases "db_call_ok c")
  case True
  then show ?thesis
    using assms add_deposit_new [OF assms True, of d] by (auto simp: deposits_ok_def)
next
  case False
  with assms show ?thesis
    by (simp add: add_deposit_failed)
qed

definition deposit_call :: "sqlite_db \<Rightarrow> db_call \<times> txid \<Rightarrow> sqlite_db" where
  "deposit_call db e = fst (add_deposit_txid (fst e) db (snd e))"

interpretation deposits: invariant_machine "\<lambda>db. tbl_deposits db = []" deposit_call deposits_ok
  by unfold_locales (simp_all add: deposits_ok_def [of s for s] deposit_call_def,
      simp_all add: add_deposit_keeps flip: deposits_ok_def)

lemma deposit_rows_grow:
  assumes "deposits_ok db"
  shows "\<exists>new. tbl_deposits (foldl deposit_call db calls) = tbl_deposits db @ new"
  using assms
proof (induction calls arbitrary: db)
  case (Cons e calls)
  have "\<exists>n. tbl_deposits (deposit_call db e) = tbl_deposits db @ n"
    using add_deposit_new [OF Cons.prems, of "fst e"] add_deposit_failed [of "fst e" db]
    by (cases "db_call_ok (fst e)") (simp_all add: deposit_call_def)
  then obtain n where n: "tbl_deposits (deposit_call db e) = tbl_deposits db @ n"
    by blast
  have "deposits_ok (deposit_call db e)"
    using add_deposit_keeps [OF Cons.prems] by (simp add: deposit_call_def)
  then obtain new where "tbl_deposits (foldl deposit_call (deposit_call db e) calls) =
      tbl_deposits (deposit_call db e) @ new"
    using Cons.IH by blast
  then show ?case
    using n by simp
qed simp

text \<open>
  (C29) Deposit ids are dense, unique and stable: whatever calls, successful or not, added deposits to
  an empty table, the id of a deposit is below the number of deposits, no other deposit has it, and no
  later call changes it.
\<close>
theorem deposit_ids_stable:
  assumes "tbl_deposits db0 = []" and "db = foldl deposit_call db0 calls" and "db_call_ok c"
    and "get_deposit_id c db d = Ok (Some n)"
  shows "n < length (tbl_deposits db) \<and> (\<forall>d'. get_deposit_id c db d' = Ok (Some n) \<longrightarrow> d' = d) \<and>
         get_deposit_id c (foldl deposit_call db later) d = Ok (Some n)"
proof (intro conjI allI impI)
  have ok: "deposits_ok db"
    unfolding assms(2) by (rule deposits.inv_reachable [OF assms(1)])
  have row: "(d', k) \<in> set (tbl_deposits db)" if "get_deposit_id c db d' = Ok (Some k)" for d' k
    using that assms(3) by (simp add: get_deposit_id_def sql_select_def map_of_SomeD)
  then have "n \<in> set (map snd (tbl_deposits db))"
    using assms(4) by force
  moreover have "set (map snd (tbl_deposits db)) = {0..<length (tbl_deposits db)}"
    using ok by (metis deposits_ok_def atLeastLessThan_upt)
  ultimately show "n < length (tbl_deposits db)"
    by simp
  show "d' = d" if "get_deposit_id c db d' = Ok (Some n)" for d'
  proof -
    have "distinct (map snd (tbl_deposits db))"
      using ok by (simp add: deposits_ok_def)
    then have "inj_on snd (set (tbl_deposits db))"
      by (simp add: distinct_map)
    then show ?thesis
      using inj_onD [of snd "set (tbl_deposits db)" "(d', n)" "(d, n)"] row [OF that] row [OF assms(4)] by simp
  qed
  show "get_deposit_id c (foldl deposit_call db later) d = Ok (Some n)"
    using deposit_rows_grow [OF ok, of later] assms(3,4)
    by (auto simp: get_deposit_id_def sql_select_def map_add_def split: option.split)
qed

section \<open>An example\<close>

definition empty_db :: sqlite_db where
  "empty_db = \<lparr>tbl_wots_public_keys = [], tbl_wots_signatures = [], tbl_signatures = [], tbl_deposits = [],
     tbl_operator_stake_txids = [], tbl_operator_pre_stake_data = [], tbl_operator_stake_data = [],
     tbl_claim_txids = [], tbl_post_assert_txids = [], tbl_assert_data_txids = [], tbl_pre_assert_txids = [],
     tbl_pub_nonces = [], tbl_aggregated_nonces = [], tbl_partial_signatures = [], tbl_witnesses = []\<rparr>"

text \<open>A call that succeeds on the second attempt, and one that never does.\<close>

definition slow_call :: db_call where
  "slow_call = \<lparr>max_retry_count = 1, attempt_error = (\<lambda>n. if n = 0 then Some (StorageError ''locked'') else None)\<rparr>"

definition dead_call :: db_call where
  "dead_call = \<lparr>max_retry_count = 1, attempt_error = (\<lambda>n. Some (StorageError ''locked''))\<rparr>"

lemma example_calls: "db_call_ok slow_call" "\<not> db_call_ok dead_call"
  by (simp_all add: db_call_ok_def slow_call_def dead_call_def)


theorem deposit_ids_stable_witness:
  "let db = foldl deposit_call empty_db [(slow_call, 7), (slow_call, 9), (slow_call, 7)] in
   get_deposit_id slow_call db 9 = Ok (Some 1) \<and>
   1 < length (tbl_deposits db) \<and> (\<forall>d'. get_deposit_id slow_call db d' = Ok (Some 1) \<longrightarrow> d' = 9) \<and>
   get_deposit_id slow_call (foldl deposit_call db [(slow_call, 10)]) 9 = Ok (Some 1)"
proof -
  let ?db = "foldl deposit_call empty_db [(slow_call, 7), (slow_call, 9), (slow_call, 7)]"
  have e: "tbl_deposits empty_db = []"
    by (simp add: empty_db_def)
  have "tbl_deposits ?db = [(7, 0), (9, 1)]"
    by (simp add: deposit_call_def add_deposit_txid_def Let_def example_calls e insert_or_ignore_def sql_select_def)
  then have g: "get_deposit_id slow_call ?db 9 = Ok (Some 1)"
    by (simp add: get_deposit_id_def example_calls sql_select_def)
  show ?thesis
    unfolding Let_def using g deposit_ids_stable [OF e refl example_calls(1) g, of "[(slow_call, 10)]"] by blast
qed

end
