(* ===== verification/Persistence.thy ===== *)
theory Persistence
  imports Database Contract_State
begin

text \<open>
  What the duty tracker keeps on disk: the contracts (\<open>duty-tracker/src/contract_persister.rs\<close>) and the
  stake chains (\<open>duty-tracker/src/stake_chain_persister.rs\<close>). A row of the contracts table holds the
  deposit transaction, the operator table and the machine state in serialised form; the serialisers
  are parameters, \<open>None\<close> standing for an error. The table has two unique columns, the id of the
  deposit transaction and the deposit index, so \<open>INSERT OR REPLACE\<close> removes the rows that agree with
  the new one in either.
\<close>

section \<open>Contracts\<close>

record persist_env =
  ser_deposit_tx :: "covenant_tx \<Rightarrow> bytes option"
  de_deposit_tx :: "bytes \<Rightarrow> covenant_tx option"
  ser_operator_table :: "operator_table \<Rightarrow> bytes option"
  de_operator_table :: "bytes \<Rightarrow> operator_table option"
  ser_state :: "machine_state \<Rightarrow> string option"
  de_state :: "string \<Rightarrow> machine_state option"

record contract_row =
  row_deposit_txid :: txid
  row_deposit_idx :: u32
  row_deposit_tx :: bytes
  row_operator_table :: bytes
  row_state :: string

text \<open>The only error of the persister carries the message of its cause.\<close>

datatype contract_persist_err = PersistUnexpected string

fun persist_err_of :: "db_error \<Rightarrow> contract_persist_err" where
  "persist_err_of (StorageError m) = PersistUnexpected m"
| "persist_err_of (DbUnexpected m) = PersistUnexpected m"

fun db_err_of :: "contract_persist_err \<Rightarrow> db_error" where
  "db_err_of (PersistUnexpected m) = DbUnexpected m"

fun map_outcome_err :: "('e \<Rightarrow> 'f) \<Rightarrow> ('e, 'a) outcome \<Rightarrow> ('f, 'a) outcome" where
  "map_outcome_err f (Ok a) = Ok a"
| "map_outcome_err f (Err e) = Err (f e)"
| "map_outcome_err f Panic = Panic"

lemma map_outcome_err_Ok_iff [simp]: "map_outcome_err f x = Ok a \<longleftrightarrow> x = Ok a"
  by (cases x) auto

definition serialize_contract ::
    "persist_env \<Rightarrow> txid \<Rightarrow> u32 \<Rightarrow> covenant_tx \<Rightarrow> operator_table \<Rightarrow> machine_state \<Rightarrow>
     (contract_persist_err, contract_row) outcome" where
  "serialize_contract env deposit_txid deposit_idx deposit_tx table state =
     bind_outcome (ok_or (PersistUnexpected ''deposit_tx'') (ser_deposit_tx env deposit_tx)) (\<lambda>tx.
     bind_outcome (ok_or (PersistUnexpected ''operator_table'') (ser_operator_table env table)) (\<lambda>t.
     bind_outcome (ok_or (PersistUnexpected ''state'') (ser_state env state)) (\<lambda>s.
       Ok \<lparr>row_deposit_txid = deposit_txid, row_deposit_idx = deposit_idx, row_deposit_tx = tx,
           row_operator_table = t, row_state = s\<rparr>)))"

definition rows_conflict :: "contract_row \<Rightarrow> contract_row \<Rightarrow> bool" where
  "rows_conflict a b \<longleftrightarrow> row_deposit_txid a = row_deposit_txid b \<or> row_deposit_idx a = row_deposit_idx b"

definition replace_row :: "contract_row \<Rightarrow> contract_row list \<Rightarrow> contract_row list" where
  "replace_row new rows = filter (\<lambda>old. \<not> rows_conflict old new) rows @ [new]"

text \<open>
  A call of the persister: an attempt that the database does not fail has the outcome \<open>r\<close>, for a
  transaction the new table, which is kept when the call succeeds.
\<close>

definition persist_attempt :: "db_call \<Rightarrow> (db_error, 'a) outcome \<Rightarrow> nat \<Rightarrow> (db_error, 'a) outcome" where
  "persist_attempt c r n = (case attempt_error c n of None \<Rightarrow> r | Some e \<Rightarrow> Err e)"

definition persist_call :: "db_call \<Rightarrow> (db_error, 'a) outcome \<Rightarrow> (contract_persist_err, 'a) outcome" where
  "persist_call c r =
     map_outcome_err persist_err_of (fst (execute_with_retries (max_retry_count c) (persist_attempt c r)))"

definition persist_tx ::
    "contract_row list \<Rightarrow> (contract_persist_err, contract_row list) outcome \<Rightarrow>
     contract_row list \<times> (contract_persist_err, unit) outcome" where
  "persist_tx rows r =
     (case r of Ok rows' \<Rightarrow> (rows', Ok ()) | Err e \<Rightarrow> (rows, Err e) | Panic \<Rightarrow> (rows, Panic))"

definition persister_init ::
    "csm_env \<Rightarrow> persist_env \<Rightarrow> db_call \<Rightarrow> contract_row list \<Rightarrow> contract_cfg \<Rightarrow> machine_state \<Rightarrow>
     contract_row list \<times> (contract_persist_err, unit) outcome" where
  "persister_init cenv env c rows cfg state =
     persist_tx rows
       (bind_outcome (serialize_contract env (cfg_deposit_txid cenv cfg) (cfg_deposit_idx cfg)
           (cfg_deposit_tx cfg) (cfg_operator_table cfg) state) (\<lambda>row.
        persist_call c
          (if list_ex (rows_conflict row) rows then Err (StorageError ''unique constraint'')
           else Ok (rows @ [row]))))"

definition persister_commit ::
    "persist_env \<Rightarrow> db_call \<Rightarrow> contract_row list \<Rightarrow> txid \<Rightarrow> u32 \<Rightarrow> covenant_tx \<Rightarrow> operator_table \<Rightarrow> machine_state \<Rightarrow>
     contract_row list \<times> (contract_persist_err, unit) outcome" where
  "persister_commit env c rows deposit_txid deposit_idx deposit_tx table state =
     persist_tx rows
       (bind_outcome (serialize_contract env deposit_txid deposit_idx deposit_tx table state) (\<lambda>row.
        persist_call c (Ok (replace_row row rows))))"

definition serialize_entry ::
    "persist_env \<Rightarrow> txid \<times> contract_sm \<Rightarrow> (contract_persist_err, contract_row) outcome" where
  "serialize_entry env e =
     (let cfg = csm_cfg (snd e) in
      serialize_contract env (fst e) (cfg_deposit_idx cfg) (cfg_deposit_tx cfg) (cfg_operator_table cfg)
        (csm_state (snd e)))"

definition persister_commit_all ::
    "persist_env \<Rightarrow> db_call \<Rightarrow> contract_row list \<Rightarrow> (txid, contract_sm) btree_map \<Rightarrow>
     contract_row list \<times> (contract_persist_err, unit) outcome" where
  "persister_commit_all env c rows active_contracts =
     persist_tx rows
       (bind_outcome (traverse (serialize_entry env) (bt_entries active_contracts)) (\<lambda>data.
        if data = [] then Ok rows
        else persist_call c (Ok (foldl (\<lambda>t row. replace_row row t) rows data))))"

text \<open>The parameters that are not stored and come from the configuration of the node.\<close>

record load_params =
  lp_connector_params :: connector_params
  lp_graph_params :: peg_out_graph_params
  lp_stake_chain_params :: stake_chain_params

definition parse_row ::
    "persist_env \<Rightarrow> load_params \<Rightarrow> contract_row \<Rightarrow> (contract_persist_err, contract_cfg \<times> machine_state) outcome" where
  "parse_row env lp row =
     bind_outcome (ok_or (PersistUnexpected ''deposit_tx'') (de_deposit_tx env (row_deposit_tx row))) (\<lambda>tx.
     bind_outcome (ok_or (PersistUnexpected ''operator_table'') (de_operator_table env (row_operator_table row))) (\<lambda>t.
     bind_outcome (ok_or (PersistUnexpected ''state'') (de_state env (row_state row))) (\<lambda>s.
       Ok (\<lparr>cfg_operator_table = t, cfg_connector_params = lp_connector_params lp,
            cfg_graph_params = lp_graph_params lp, cfg_stake_chain_params = lp_stake_chain_params lp,
            cfg_deposit_idx = row_deposit_idx row, cfg_deposit_tx = tx\<rparr>, s))))"

definition persister_load ::
    "persist_env \<Rightarrow> db_call \<Rightarrow> load_params \<Rightarrow> contract_row list \<Rightarrow> txid \<Rightarrow>
     (contract_persist_err, contract_cfg \<times> machine_state) outcome" where
  "persister_load env c lp rows deposit_txid =
     persist_call c
       (bind_outcome (ok_or (StorageError ''row not found'')
          (find (\<lambda>row. row_deposit_txid row = deposit_txid) rows)) (\<lambda>row.
        map_outcome_err db_err_of (parse_row env lp row)))"

definition persister_load_all ::
    "persist_env \<Rightarrow> db_call \<Rightarrow> load_params \<Rightarrow> contract_row list \<Rightarrow>
     (contract_persist_err, (contract_cfg \<times> machine_state) list) outcome" where
  "persister_load_all env c lp rows =
     persist_call c (map_outcome_err db_err_of (traverse (parse_row env lp) rows))"

section \<open>Stake chains\<close>

definition commit_prestake ::
    "db_call \<Rightarrow> sqlite_db \<Rightarrow> operator_idx \<Rightarrow> out_point \<Rightarrow> sqlite_db \<times> (db_error, unit) outcome" where
  "commit_prestake c db operator_id prestake = set_pre_stake c db operator_id prestake"

definition stake_rows ::
    "(operator_idx, stake_chain_inputs) btree_map \<Rightarrow> (operator_idx \<times> u32 \<times> stake_tx_data) list" where
  "stake_rows inputs_of =
     concat (map (\<lambda>(operator_id, inputs). map (\<lambda>(i, d). (operator_id, i, d)) (bt_entries (stake_inputs inputs)))
       (bt_entries inputs_of))"

definition commit_stake_data ::
    "db_call \<Rightarrow> sqlite_db \<Rightarrow> operator_table \<Rightarrow> (p2p_key, stake_chain_inputs) btree_map \<Rightarrow>
     sqlite_db \<times> (db_error, unit) outcome" where
  "commit_stake_data c db table state =
     (case convert_map_p2p_to_idx table state of
        Ok inputs_of \<Rightarrow> add_all_stake_data c db (stake_rows inputs_of)
      | _ \<Rightarrow> (db, Panic))"

fun load_stake_chains ::
    "db_call \<Rightarrow> sqlite_db \<Rightarrow> operator_table \<Rightarrow> operator_idx list \<Rightarrow> (p2p_key, stake_chain_inputs) btree_map \<Rightarrow>
     (db_error, (p2p_key, stake_chain_inputs) btree_map) outcome" where
  "load_stake_chains c db table [] loaded = Ok loaded"
| "load_stake_chains c db table (op # ops) loaded =
     bind_outcome (get_all_stake_data c db op) (\<lambda>inputs.
     bind_outcome (get_pre_stake c db op) (\<lambda>pre_stake.
     load_stake_chains c db table ops
       (case (pre_stake, idx_to_p2p_key table op) of
          (Some outpoint, Some key) \<Rightarrow>
            bt_insert key \<lparr>stake_inputs = inputs, pre_stake_outpoint = outpoint\<rparr> loaded
        | _ \<Rightarrow> loaded)))"

definition stake_persister_load ::
    "db_call \<Rightarrow> sqlite_db \<Rightarrow> operator_table \<Rightarrow> (db_error, (p2p_key, stake_chain_inputs) btree_map) outcome" where
  "stake_persister_load c db table = load_stake_chains c db table (operator_idxs table) bt_empty"

section \<open>Contracts survive a restart\<close>

text \<open>The serialisers read back what they wrote.\<close>

definition persist_env_ok :: "persist_env \<Rightarrow> bool" where
  "persist_env_ok env \<longleftrightarrow>
     (\<forall>x b. ser_deposit_tx env x = Some b \<longrightarrow> de_deposit_tx env b = Some x) \<and>
     (\<forall>x b. ser_operator_table env x = Some b \<longrightarrow> de_operator_table env b = Some x) \<and>
     (\<forall>x b. ser_state env x = Some b \<longrightarrow> de_state env b = Some x)"

text \<open>What a contract turns into on disk, and what is read back.\<close>

definition load_params_of :: "contract_cfg \<Rightarrow> load_params" where
  "load_params_of cfg =
     \<lparr>lp_connector_params = cfg_connector_params cfg, lp_graph_params = cfg_graph_params cfg,
      lp_stake_chain_params = cfg_stake_chain_params cfg\<rparr>"

lemma serialize_contract_Ok:
  assumes "serialize_contract env txid idx tx table state = Ok row"
  shows "row_deposit_txid row = txid" "row_deposit_idx row = idx"
    "ser_deposit_tx env tx = Some (row_deposit_tx row)"
    "ser_operator_table env table = Some (row_operator_table row)"
    "ser_state env state = Some (row_state row)"
  using assms by (auto simp: serialize_contract_def bind_outcome_Ok_iff ok_or_def split: option.splits)

lemma parse_serialized:
  assumes "persist_env_ok env" and "serialize_entry env (txid, sm) = Ok row"
    and "load_params_of (csm_cfg sm) = lp"
  shows "parse_row env lp row = Ok (csm_cfg sm, csm_state sm)"
proof -
  have ser: "serialize_contract env txid (cfg_deposit_idx (csm_cfg sm)) (cfg_deposit_tx (csm_cfg sm))
      (cfg_operator_table (csm_cfg sm)) (csm_state sm) = Ok row"
    using assms(2) by (simp add: serialize_entry_def Let_def)
  note f = serialize_contract_Ok [OF ser]
  have de: "de_deposit_tx env (row_deposit_tx row) = Some (cfg_deposit_tx (csm_cfg sm))"
    "de_operator_table env (row_operator_table row) = Some (cfg_operator_table (csm_cfg sm))"
    "de_state env (row_state row) = Some (csm_state sm)"
    using f(3-5) assms(1) by (auto simp: persist_env_ok_def)
  then show ?thesis
    using f(2) assms(3) by (cases "csm_cfg sm") (auto simp: parse_row_def ok_or_def load_params_of_def)
qed

text \<open>
  Writing rows that do not conflict with each other leaves exactly these rows and the old ones that
  conflict with none of them.
\<close>

definition no_conflicts :: "contract_row list \<Rightarrow> bool" where
  "no_conflicts rows \<longleftrightarrow> distinct (map row_deposit_txid rows) \<and> distinct (map row_deposit_idx rows)"

lemma rows_conflict_sym: "rows_conflict a b = rows_conflict b a"
  by (auto simp: rows_conflict_def)

lemma replace_rows:
  assumes "no_conflicts rows"
  shows "foldl (\<lambda>t row. replace_row row t) old rows =
         filter (\<lambda>o'. \<not> list_ex (rows_conflict o') rows) old @ rows"
  using assms
proof (induction rows arbitrary: old)
  case (Cons row rows)
  have nc: "\<not> list_ex (rows_conflict row) rows" "no_conflicts rows"
    using Cons.prems by (auto simp: no_conflicts_def rows_conflict_def list_ex_iff)
  have "foldl (\<lambda>t row. replace_row row t) old (row # rows) =
      filter (\<lambda>o'. \<not> list_ex (rows_conflict o') rows) (replace_row row old) @ rows"
    using Cons.IH [OF nc(2)] by simp
  also have "\<dots> = filter (\<lambda>o'. \<not> list_ex (rows_conflict o') (row # rows)) old @ row # rows"
    using nc(1) by (simp add: replace_row_def filter_filter)
  finally show ?case .
qed simp

lemma persist_call_ok:
  assumes "db_call_ok c"
  shows "persist_call c (Ok a) = Ok a"
proof -
  have "persist_attempt c (Ok a) = attempt c a"
    by (auto simp: persist_attempt_def attempt_def)
  then show ?thesis
    using attempts_succeed [OF assms, of a] by (simp add: persist_call_def)
qed

lemma persist_call_Ok_D:
  assumes "persist_call c (Ok a) = Ok b"
  shows "b = a"
proof -
  have "persist_attempt c (Ok a) = attempt c a"
    by (auto simp: persist_attempt_def attempt_def)
  then have "fst (execute_with_retries (max_retry_count c) (attempt c a)) = Ok b"
    using assms by (cases "fst (execute_with_retries (max_retry_count c) (attempt c a))") (auto simp: persist_call_def)
  then show ?thesis
    using attempts_succeed [of c a] attempts_fail [of c a] by (cases "db_call_ok c") auto
qed

text \<open>The contracts that can be written without one replacing another, and read back as they are.\<close>

definition storable :: "load_params \<Rightarrow> (txid, contract_sm) btree_map \<Rightarrow> bool" where
  "storable lp active \<longleftrightarrow>
     distinct (map (\<lambda>sm. cfg_deposit_idx (csm_cfg sm)) (bt_values active)) \<and>
     (\<forall>sm \<in> set (bt_values active). load_params_of (csm_cfg sm) = lp)"

definition row_of_active :: "(txid, contract_sm) btree_map \<Rightarrow> contract_row \<Rightarrow> bool" where
  "row_of_active active row \<longleftrightarrow>
     list_ex (\<lambda>sm. cfg_deposit_idx (csm_cfg sm) = row_deposit_idx row) (bt_values active)"

lemma serialized_keys:
  assumes "traverse (serialize_entry env) es = Ok data"
  shows "map row_deposit_txid data = map fst es"
    and "map row_deposit_idx data = map (\<lambda>sm. cfg_deposit_idx (csm_cfg sm)) (map snd es)"
proof -
  have "list_all2 (\<lambda>e row. serialize_entry env e = Ok row) es data"
    using assms by (simp add: traverse_Ok_iff)
  then show "map row_deposit_txid data = map fst es"
    "map row_deposit_idx data = map (\<lambda>sm. cfg_deposit_idx (csm_cfg sm)) (map snd es)"
    by (induction rule: list_all2_induct)
      (auto simp: serialize_entry_def Let_def dest: serialize_contract_Ok)
qed

lemma serialized_parse:
  assumes "persist_env_ok env" and "traverse (serialize_entry env) es = Ok data"
    and "\<forall>e \<in> set es. load_params_of (csm_cfg (snd e)) = lp"
  shows "traverse (parse_row env lp) data = Ok (map (\<lambda>e. (csm_cfg (snd e), csm_state (snd e))) es)"
proof -
  have "list_all2 (\<lambda>e row. serialize_entry env e = Ok row) es data"
    using assms(2) by (simp add: traverse_Ok_iff)
  then have "list_all2 (\<lambda>row r. parse_row env lp row = Ok r) data
      (map (\<lambda>e. (csm_cfg (snd e), csm_state (snd e))) es)"
    using assms(3)
  proof (induction rule: list_all2_induct)
    case (Cons e es row data)
    then show ?case
      using parse_serialized [OF assms(1), of "fst e" "snd e" row lp] by simp
  qed simp
  then show ?thesis
    by (simp add: traverse_Ok_iff)
qed

lemma commit_all_rows:
  assumes "storable lp active" and "\<forall>row \<in> set rows. row_of_active active row"
    and "persister_commit_all env c rows active = (rows', Ok ())"
  shows "traverse (serialize_entry env) (bt_entries active) = Ok rows'"
proof -
  obtain data where data: "traverse (serialize_entry env) (bt_entries active) = Ok data"
    and rest: "(if data = [] then Ok rows else persist_call c (Ok (foldl (\<lambda>t row. replace_row row t) rows data))) = Ok rows'"
    using assms(3) by (auto simp: persister_commit_all_def persist_tx_def bind_outcome_Ok_iff split: outcome.splits)
  note keys = serialized_keys [OF data]
  have vals: "map snd (bt_entries active) = bt_values active"
    by (simp add: bt_values_def)
  have nc: "no_conflicts data"
    using keys assms(1) by (simp add: no_conflicts_def storable_def vals flip: bt_keys_def)
  have "list_ex (rows_conflict o') data" if "o' \<in> set rows" for o'
  proof -
    have "row_deposit_idx o' \<in> set (map row_deposit_idx data)"
      using assms(2) that unfolding keys(2) vals by (force simp: row_of_active_def list_ex_iff)
    then show ?thesis by (auto simp: list_ex_iff rows_conflict_def)
  qed
  then have none: "filter (\<lambda>o'. \<not> list_ex (rows_conflict o') data) rows = []"
    by (simp add: filter_empty_conv)
  have "rows' = data"
  proof (cases "data = []")
    case True
    then show ?thesis using rest none by simp
  next
    case False
    then have "rows' = foldl (\<lambda>t row. replace_row row t) rows data"
      using rest persist_call_Ok_D by fastforce
    then show ?thesis
      unfolding replace_rows [OF nc] none by simp
  qed
  with data show ?thesis by simp
qed

text \<open>Writing all the contracts and reading the table back gives their configurations and states.\<close>

lemma commit_all_load_all:
  assumes "persist_env_ok env" and "db_call_ok c'" and "storable lp active"
    and "\<forall>row \<in> set rows. row_of_active active row"
    and "persister_commit_all env c rows active = (rows', Ok ())"
  shows "persister_load_all env c' lp rows' = Ok (map (\<lambda>sm. (csm_cfg sm, csm_state sm)) (bt_values active))"
proof -
  have "traverse (parse_row env lp) rows' =
      Ok (map (\<lambda>e. (csm_cfg (snd e), csm_state (snd e))) (bt_entries active))"
    using assms(3) by (intro serialized_parse [OF assms(1) commit_all_rows [OF assms(3-5)]])
      (auto simp: storable_def bt_values_def)
  then show ?thesis
    using assms(2) by (simp add: persister_load_all_def persist_call_ok bt_values_def comp_def)
qed

lemma commit_all_keeps_active:
  assumes "storable lp active" and "\<forall>row \<in> set rows. row_of_active active row"
    and "persister_commit_all env c rows active = (rows', Ok ())"
  shows "\<forall>row \<in> set rows'. row_of_active active row"
proof -
  have "map row_deposit_idx rows' = map (\<lambda>sm. cfg_deposit_idx (csm_cfg sm)) (bt_values active)"
    using serialized_keys(2) [OF commit_all_rows [OF assms]] by (simp add: bt_values_def)
  then have "row_deposit_idx row \<in> (\<lambda>sm. cfg_deposit_idx (csm_cfg sm)) ` set (bt_values active)"
    if "row \<in> set rows'" for row
    using that by (metis list.set_map imageI)
  then show ?thesis
    by (fastforce simp: row_of_active_def list_ex_iff)
qed

text \<open>
  A commit under an id other than that of the deposit hides the contract: the index is unique, so the
  row of the contract is replaced, and a look-up by the deposit id fails from then on. The manager
  commits the graph signatures of a contract under the id of the claim.
\<close>

lemma persist_call_Err: "\<exists>e'. persist_call c (Err e) = Err e'"
proof -
  have "\<exists>e'. persist_attempt c (Err e) j = (Err e' :: (db_error, 'a) outcome)" for j
    by (auto simp: persist_attempt_def split: option.split)
  then obtain e' where "execute_with_retries (max_retry_count c) (persist_attempt c (Err e)) =
      (Err e' :: (db_error, 'a) outcome, max_retry_count c + 1)"
    using db_retry_loop_all_fail [of 0 "max_retry_count c" "persist_attempt c (Err e)"]
    by (auto simp: execute_with_retries_def)
  then show ?thesis
    by (simp add: persist_call_def)
qed

lemma commit_under_other_id_hides:
  assumes "persister_commit env c rows other idx tx table state = (rows', Ok ())" and "other \<noteq> deposit_txid"
    and "\<forall>row \<in> set rows. row_deposit_txid row = deposit_txid \<longrightarrow> row_deposit_idx row = idx"
  shows "\<exists>e. persister_load env c' lp rows' deposit_txid = Err e"
proof -
  obtain row where row: "serialize_contract env other idx tx table state = Ok row"
    "persist_call c (Ok (replace_row row rows)) = Ok rows'"
    using assms(1) by (auto simp: persister_commit_def persist_tx_def bind_outcome_Ok_iff split: outcome.splits)
  have "find (\<lambda>row. row_deposit_txid row = deposit_txid) rows' = None"
    using assms(2,3) serialize_contract_Ok(1,2) [OF row(1)] persist_call_Ok_D [OF row(2)]
    by (auto simp: find_None_iff replace_row_def rows_conflict_def)
  then show ?thesis
    using persist_call_Err by (simp add: persister_load_def ok_or_def)
qed

section \<open>Stake chains survive a restart\<close>

text \<open>
  The tables agree with the stake chains in memory: the pre-stakes are those of the chains, and the
  stake data that is stored is part of them.
\<close>

definition stake_disk_ok :: "operator_table \<Rightarrow> (p2p_key, stake_chain_inputs) btree_map \<Rightarrow> sqlite_db \<Rightarrow> bool" where
  "stake_disk_ok table state db \<longleftrightarrow>
     list_all (\<lambda>key. p2p_key_to_idx table key \<noteq> None) (bt_keys state) \<and>
     list_all (\<lambda>op. sql_select (tbl_operator_pre_stake_data db) op =
         Option.bind (idx_to_p2p_key table op) (\<lambda>key. map_option pre_stake_outpoint (bt_get state key)))
       (operator_idxs table) \<and>
     distinct (map fst (tbl_operator_stake_data db)) \<and>
     list_all (\<lambda>((op, i), d). Option.bind (idx_to_p2p_key table op) (\<lambda>key.
         Option.bind (bt_get state key) (\<lambda>inputs. bt_get (stake_inputs inputs) i)) = Some d)
       (tbl_operator_stake_data db)"

definition loaded_entry ::
    "operator_table \<Rightarrow> sqlite_db \<Rightarrow> operator_idx \<Rightarrow> (p2p_key \<times> stake_chain_inputs) option" where
  "loaded_entry table db op =
     (case (sql_select (tbl_operator_pre_stake_data db) op, idx_to_p2p_key table op) of
        (Some outpoint, Some key) \<Rightarrow>
          Some (key, \<lparr>stake_inputs = bt_collect (map (\<lambda>((_, i), d). (i, d))
             (filter (\<lambda>r. fst (fst r) = op) (tbl_operator_stake_data db))), pre_stake_outpoint = outpoint\<rparr>)
      | _ \<Rightarrow> None)"

lemma load_stake_chains_get:
  assumes "db_call_ok c"
    and "\<And>op key v. op \<in> set ops \<Longrightarrow> loaded_entry table db op = Some (key, v) \<Longrightarrow> bt_get state key = Some v"
  shows "\<exists>m. load_stake_chains c db table ops loaded = Ok m \<and>
    (\<forall>key. bt_get m key =
       (if \<exists>op \<in> set ops. \<exists>v. loaded_entry table db op = Some (key, v) then bt_get state key else bt_get loaded key))"
  using assms(2)
proof (induction ops arbitrary: loaded)
  case (Cons op ops)
  define l where "l = (case loaded_entry table db op of None \<Rightarrow> loaded | Some (k, v) \<Rightarrow> bt_insert k v loaded)"
  have step: "load_stake_chains c db table (op # ops) loaded = load_stake_chains c db table ops l"
    using assms(1)
    by (simp add: l_def loaded_entry_def get_all_stake_data_def get_pre_stake_def split: option.splits)
  obtain m where m: "load_stake_chains c db table ops l = Ok m"
    "\<forall>key. bt_get m key = (if \<exists>op \<in> set ops. \<exists>v. loaded_entry table db op = Some (key, v)
       then bt_get state key else bt_get l key)"
    using Cons.IH [of l] Cons.prems by auto
  have "bt_get l key = (if \<exists>v. loaded_entry table db op = Some (key, v) then bt_get state key else bt_get loaded key)" for key
    using Cons.prems [of op] by (auto simp: l_def split: option.splits)
  then show ?case
    using m step by auto
qed simp

lemma stake_rows_set:
  "(op, i, d) \<in> set (stake_rows m) \<longleftrightarrow> (\<exists>inputs. bt_get m op = Some inputs \<and> bt_get (stake_inputs inputs) i = Some d)"
  by (force simp: stake_rows_def bt_get_Some_iff)

lemma foldl_ignore_distinct:
  "distinct (map fst t) \<Longrightarrow> distinct (map fst (foldl (\<lambda>t (k, v). insert_or_ignore k v t) t rows))"
proof (induction rows arbitrary: t)
  case (Cons r rows)
  have "distinct (map fst (insert_or_ignore (fst r) (snd r) t))"
    using Cons.prems by (auto simp: insert_or_ignore_def sql_select_def map_of_eq_None_iff)
  then show ?case
    using Cons.IH by (cases r) simp
qed simp

lemma collected_stake_data:
  assumes "distinct (map fst t)"
  shows "bt_get (bt_collect (map (\<lambda>((_, i), d). (i, d)) (filter (\<lambda>r. fst (fst r) = op) t))) i = sql_select t (op, i)"
proof -
  let ?l = "map (\<lambda>((_, i), d). (i, d)) (filter (\<lambda>r. fst (fst r) = op) t)"
  have dist: "distinct (map fst ?l)"
    using assms by (induction t) (force simp: comp_def)+
  have "bt_get (bt_collect ?l) i = Some d \<longleftrightarrow> sql_select t (op, i) = Some d" for d
    using dist assms by (force simp: bt_get_collect_distinct sql_select_def)
  then show ?thesis
    by (rule option_eqI)
qed

lemma select_foldl_ignore:
  "sql_select (foldl (\<lambda>t (k, v). insert_or_ignore k v t) t rows) k =
     (case sql_select t k of None \<Rightarrow> map_of rows k | Some v \<Rightarrow> Some v)"
proof (induction rows arbitrary: t)
  case (Cons r rows)
  then show ?case
    by (cases r) (auto simp: sql_select_insert_or_ignore split: option.splits)
qed (simp split: option.split)

lemma map_of_stake_rows:
  "map_of (map (\<lambda>(op, i, d). ((op, i), d)) (stake_rows m)) (op, i) =
     Option.bind (bt_get m op) (\<lambda>inputs. bt_get (stake_inputs inputs) i)" (is "map_of ?l _ = ?r")
proof -
  have mem: "((op, i), d) \<in> set ?l \<longleftrightarrow> ?r = Some d" for d
    using stake_rows_set [of op i d m] by (force simp: bind_eq_Some_conv)
  show ?thesis
  proof (cases ?r)
    case None
    then show ?thesis
      using mem map_of_SomeD [of ?l "(op, i)"] by (metis not_Some_eq)
  next
    case (Some d)
    then obtain d' where "map_of ?l (op, i) = Some d'"
      using mem weak_map_of_SomeI by metis
    with Some show ?thesis
      using mem map_of_SomeD by (metis option.inject)
  qed
qed

lemma convert_stake_chains:
  assumes wf: "operator_table_wf table" and known: "list_all (\<lambda>key. p2p_key_to_idx table key \<noteq> None) (bt_keys state)"
  shows "\<exists>m. convert_map_p2p_to_idx table state = Ok m \<and>
    (\<forall>op. bt_get m op = Option.bind (idx_to_p2p_key table op) (bt_get state))"
proof -
  have "convert_map (p2p_key_to_idx table) state \<noteq> Err b" for b
    using known by (auto simp: convert_map_Err_iff find_Some_iff list_all_iff)
  then obtain m where m: "convert_map (p2p_key_to_idx table) state = Ok m"
    using convert_map_not_Panic by (metis outcome.exhaust)
  have "bt_get m op = Some v \<longleftrightarrow> (\<exists>k. p2p_key_to_idx table k = Some op \<and> bt_get state k = Some v)" for op v
    by (rule convert_map_get [OF m]) (rule p2p_idx.fwd_inj [OF wf])
  then have "bt_get m op = Some v \<longleftrightarrow> Option.bind (idx_to_p2p_key table op) (bt_get state) = Some v" for op v
    using p2p_idx.inverse [OF wf] by (auto simp: bind_eq_Some_conv)
  then show ?thesis
    using m by (intro exI [of _ m]) (auto simp: convert_map_p2p_to_idx_def intro: option_eqI)
qed

lemma commit_stake_data_tables:
  assumes "operator_table_wf table" and "db_call_ok c" and "stake_disk_ok table state db"
  shows "\<exists>t. commit_stake_data c db table state = (db\<lparr>tbl_operator_stake_data := t\<rparr>, Ok ()) \<and>
    distinct (map fst t) \<and>
    (\<forall>op i. sql_select t (op, i) = Option.bind (Option.bind (idx_to_p2p_key table op) (bt_get state))
       (\<lambda>inputs. bt_get (stake_inputs inputs) i))"
proof -
  have known: "list_all (\<lambda>key. p2p_key_to_idx table key \<noteq> None) (bt_keys state)"
    and dist: "distinct (map fst (tbl_operator_stake_data db))"
    and rows: "\<And>op i d. ((op, i), d) \<in> set (tbl_operator_stake_data db) \<Longrightarrow>
        Option.bind (idx_to_p2p_key table op) (\<lambda>key.
         Option.bind (bt_get state key) (\<lambda>inputs. bt_get (stake_inputs inputs) i)) = Some d"
    using assms(3) by (auto simp: stake_disk_ok_def list_all_iff)
  obtain m where m: "convert_map_p2p_to_idx table state = Ok m"
    "\<And>op. bt_get m op = Option.bind (idx_to_p2p_key table op) (bt_get state)"
    using convert_stake_chains [OF assms(1) known] by blast
  define t where "t = foldl (\<lambda>t (k, v). insert_or_ignore k v t) (tbl_operator_stake_data db)
      (map (\<lambda>(op, i, d). ((op, i), d)) (stake_rows m))"
  have "sql_select t (op, i) = Option.bind (bt_get m op) (\<lambda>inputs. bt_get (stake_inputs inputs) i)" for op i
  proof (cases "sql_select (tbl_operator_stake_data db) (op, i)")
    case None
    then show ?thesis
      by (simp add: t_def select_foldl_ignore map_of_stake_rows)
  next
    case (Some d)
    then have "Option.bind (bt_get m op) (\<lambda>inputs. bt_get (stake_inputs inputs) i) = Some d"
      using rows [of op i d] m(2) by (simp add: sql_select_def map_of_SomeD)
    with Some show ?thesis
      by (simp add: t_def select_foldl_ignore)
  qed
  then show ?thesis
    using assms(2) m foldl_ignore_distinct [OF dist]
    by (intro exI [of _ t]) (simp add: commit_stake_data_def add_all_stake_data_def t_def)
qed

lemma loaded_entry_committed:
  assumes "stake_disk_ok table state db" and "op \<in> set (operator_idxs table)" and "distinct (map fst t)"
    and "\<forall>op i. sql_select t (op, i) = Option.bind (Option.bind (idx_to_p2p_key table op) (bt_get state))
       (\<lambda>inputs. bt_get (stake_inputs inputs) i)"
  shows "loaded_entry table (db\<lparr>tbl_operator_stake_data := t\<rparr>) op =
    Option.bind (idx_to_p2p_key table op) (\<lambda>key. map_option (Pair key) (bt_get state key))"
proof (cases "Option.bind (idx_to_p2p_key table op) (bt_get state)")
  case None
  then show ?thesis
    using assms(1,2) by (cases "idx_to_p2p_key table op")
      (auto simp: stake_disk_ok_def list_all_iff loaded_entry_def split: option.split)
next
  case (Some inputs)
  then obtain key where key: "idx_to_p2p_key table op = Some key" "bt_get state key = Some inputs"
    by (auto simp: bind_eq_Some_conv)
  have "bt_collect (map (\<lambda>((_, i), d). (i, d)) (filter (\<lambda>r. fst (fst r) = op) t)) = stake_inputs inputs"
    using assms(3,4) key by (intro bt.get_ext) (simp add: collected_stake_data)
  moreover have "sql_select (tbl_operator_pre_stake_data db) op = Some (pre_stake_outpoint inputs)"
    using assms(1,2) key by (simp add: stake_disk_ok_def list_all_iff)
  ultimately show ?thesis
    using key by (simp add: loaded_entry_def)
qed

text \<open>
  The stake chains survive a restart: when the tables hold the pre-stakes of the chains in memory
  and stake data that is part of them, committing the stake data and loading the tables gives the
  chains in memory back.
\<close>
lemma stake_chains_survive_restart:
  assumes "operator_table_wf table" and "db_call_ok c" and "db_call_ok c'" and "stake_disk_ok table state db"
  shows "snd (commit_stake_data c db table state) = Ok () \<and>
         stake_persister_load c' (fst (commit_stake_data c db table state)) table = Ok state"
proof -
  obtain t where t: "commit_stake_data c db table state = (db\<lparr>tbl_operator_stake_data := t\<rparr>, Ok ())"
    "distinct (map fst t)"
    "\<forall>op i. sql_select t (op, i) = Option.bind (Option.bind (idx_to_p2p_key table op) (bt_get state))
       (\<lambda>inputs. bt_get (stake_inputs inputs) i)"
    using commit_stake_data_tables [OF assms(1,2,4)] by blast
  let ?db = "db\<lparr>tbl_operator_stake_data := t\<rparr>"
  have entry: "loaded_entry table ?db op =
      Option.bind (idx_to_p2p_key table op) (\<lambda>key. map_option (Pair key) (bt_get state key))"
    if "op \<in> set (operator_idxs table)" for op
    by (rule loaded_entry_committed [OF assms(4) that t(2,3)])
  have "bt_get state key = Some v"
    if "op \<in> set (operator_idxs table)" "loaded_entry table ?db op = Some (key, v)" for op key v
    using that(2) unfolding entry [OF that(1)] by (auto simp: bind_eq_Some_conv)
  then obtain m where m: "load_stake_chains c' ?db table (operator_idxs table) bt_empty = Ok m"
    "\<And>key. bt_get m key = (if \<exists>op \<in> set (operator_idxs table). \<exists>v. loaded_entry table ?db op = Some (key, v)
       then bt_get state key else None)"
    using load_stake_chains_get [OF assms(3), of "operator_idxs table" table ?db state bt_empty] by auto
  have "\<exists>op \<in> set (operator_idxs table). \<exists>v. loaded_entry table ?db op = Some (key, v)"
    if "bt_get state key = Some v" for key v
  proof -
    have "key \<in> set (bt_keys state)"
      using that by (simp add: bt_keys_get)
    then obtain op where "p2p_key_to_idx table key = Some op"
      using assms(4) by (fastforce simp: stake_disk_ok_def list_all_iff)
    then have key: "idx_to_p2p_key table op = Some key"
      using p2p_idx.inverse [OF assms(1)] by blast
    then have "op \<in> set (operator_idxs table)"
      by (auto simp: idx_to_p2p_key_def operator_idxs_def bt_keys_get)
    then show ?thesis
      using entry [of op] key that by auto
  qed
  then have "bt_get m key = bt_get state key" for key
    unfolding m(2) by (cases "bt_get state key") auto
  then have "m = state"
    by (rule bt.get_ext)
  then show ?thesis
    using m(1) t(1) by (simp add: stake_persister_load_def)
qed

end
