(* ===== verification/Contract_Manager.thy ===== *)
theory Contract_Manager
  imports Persistence Contract_SM Btc_Notify
begin

text \<open>
  The contract manager (\<open>duty-tracker/src/contract_manager.rs\<close>): the state it keeps, and how it turns
  blocks and gossip messages into events of the contract machines and the stake chains, with the
  writes to disk between them. The checkpoint of the side system (its envelope, its signature, the
  chain state inside) is decoded by other crates and comes in through parameters; so does the height
  that a block carries. A handler returns the manager it leaves, also when it fails, since the code
  updates the state in place.
\<close>

named_theorems mgr_defs \<open>definitions of the contract manager\<close>

section \<open>State\<close>

text \<open>\<open>Scope\<close> and \<open>SessionId\<close> are 32 bytes that the manager reads as a transaction id.\<close>

datatype gossip_msg =
    MsgStakeChainExchange xonly_key txid u32 "256 word"
  | MsgDepositSetup txid u32 sha256_hash txid u32 xonly_key p2p_wots_public_keys
  | MsgMusig2Nonces txid "pub_nonce list"
  | MsgMusig2Signatures txid "partial_signature list"

datatype get_message_request =
    ReqStakeChainExchange "256 word" (req_operator: p2p_key)
  | ReqDepositSetup txid (req_operator: p2p_key)
  | ReqMusig2Nonces txid (req_operator: p2p_key)
  | ReqMusig2Signatures txid (req_operator: p2p_key)

datatype manager_err =
    MgrPersistErr contract_persist_err
  | MgrTransitionErr transition_err
  | MgrStakeChainErr stake_chain_err
  | InvalidP2PMessage gossip_msg
  | InvalidP2PRequest get_message_request
  | BitcoinCoreRPCErr string
  | MgrDbErr db_error
  | MgrFatalErr string

record checkpoint =
  cp_chainstate :: bytes
  cp_l1_end_height :: u64

record signed_checkpoint =
  sc_checkpoint :: checkpoint
  sc_signature :: bytes

record manager_env =
  mgr_csm :: csm_env
  mgr_persist :: persist_env
  block_bip34_height :: "block \<Rightarrow> u64 option"
  rollup_params_valid :: bool
  taproot_leaf_script :: "bytes list \<Rightarrow> script_buf option"
  envelope_payloads :: "script_buf \<Rightarrow> bytes list option"
  decode_signed_checkpoint :: "bytes \<Rightarrow> signed_checkpoint option"
  verify_checkpoint_sig :: "signed_checkpoint \<Rightarrow> bool"
  decode_chainstate :: "bytes \<Rightarrow> (txid \<times> deposit_entry) list option"

record execution_config =
  ec_operator_table :: operator_table
  ec_connector_params :: connector_params
  ec_graph_params :: peg_out_graph_params
  ec_stake_chain_params :: stake_chain_params
  ec_address_length :: u8

record execution_state =
  active_contracts :: "(txid, contract_sm) btree_map"
  claim_index :: "(txid, txid) btree_map"
  mgr_stake_chains :: stake_chain_sm
  es_operator_table :: operator_table

text \<open>The manager with the two stores behind its persisters.\<close>

record contract_manager = execution_state +
  contract_rows :: "contract_row list"
  stake_db :: sqlite_db

type_synonym 'a mgr_result = "contract_manager \<times> (manager_err, 'a) outcome"

definition and_then :: "'s \<times> ('e, 'a) outcome \<Rightarrow> ('s \<Rightarrow> 'a \<Rightarrow> 's \<times> ('e, 'b) outcome) \<Rightarrow> 's \<times> ('e, 'b) outcome" where
  "and_then r f = (case snd r of Ok a \<Rightarrow> f (fst r) a | Err e \<Rightarrow> (fst r, Err e) | Panic \<Rightarrow> (fst r, Panic))"

text \<open>\<open>contract.process_contract_event(..)?\<close> on the contract stored under a key.\<close>

definition dispatch_event ::
    "manager_env \<Rightarrow> contract_manager \<Rightarrow> txid \<Rightarrow> contract_sm \<Rightarrow> contract_event \<Rightarrow> operator_duty list mgr_result" where
  "dispatch_event env m key sm ev =
     (let r = process_contract_event (mgr_csm env) sm ev in
      (m\<lparr>active_contracts := bt_insert key (fst r) (active_contracts m)\<rparr>, map_outcome_err MgrTransitionErr (snd r)))"

text \<open>Addition of \<open>u32\<close>: it panics or wraps, by the build.\<close>

definition add_u32 :: "csm_env \<Rightarrow> u32 \<Rightarrow> u32 \<Rightarrow> ('e, u32) outcome" where
  "add_u32 env a b = (if debug_assertions env \<and> unat a + unat b \<ge> 2 ^ 32 then Panic else Ok (a + b))"

section \<open>Assignments\<close>

definition parse_strata_checkpoint :: "manager_env \<Rightarrow> transaction \<Rightarrow> ('e, checkpoint option) outcome" where
  "parse_strata_checkpoint env tx =
     (if \<not> rollup_params_valid env then Panic else
      bind_outcome (expect (list_get (tx_input tx) 0)) (\<lambda>i.
        Ok (Option.bind (taproot_leaf_script env (witness i)) (\<lambda>script.
            Option.bind (envelope_payloads env script) (\<lambda>inscriptions.
            Option.bind (list_get inscriptions 0) (\<lambda>payload.
            Option.bind (decode_signed_checkpoint env payload) (\<lambda>signed.
              if verify_checkpoint_sig env signed then Some (sc_checkpoint signed) else None)))))))"

fun is_dispatched :: "deposit_state \<Rightarrow> bool" where
  "is_dispatched (Dispatched _) = True"
| "is_dispatched NotDispatched = False"

fun assign_entries ::
    "manager_env \<Rightarrow> execution_config \<Rightarrow> checkpoint \<Rightarrow> (txid \<times> deposit_entry) list \<Rightarrow> contract_manager \<Rightarrow>
     operator_duty list \<Rightarrow> operator_duty list mgr_result" where
  "assign_entries env cfg cp [] m duties = (m, Ok duties)"
| "assign_entries env cfg cp ((deposit_txid, entry) # entries) m duties =
     (case bt_get (active_contracts m) deposit_txid of
        None \<Rightarrow> (m, Panic)
      | Some sm \<Rightarrow>
          or_return m (pov_p2p_key (ec_operator_table cfg)) (\<lambda>pov_key.
          case sm_stake_tx (bridge (mgr_csm env)) (mgr_stake_chains m) pov_key (entry_idx entry) of
            Ok (Some stake) \<Rightarrow>
              or_return m (add_u64 (mgr_csm env) (cp_l1_end_height cp) 1) (\<lambda>l1_start_height.
              and_then (dispatch_event env m deposit_txid sm (Assignment entry stake l1_start_height)) (\<lambda>m new_duties.
                assign_entries env cfg cp entries m (duties @ new_duties)))
          | Panic \<Rightarrow> (m, Panic)
          | _ \<Rightarrow> assign_entries env cfg cp entries m duties))"

definition process_assignments ::
    "manager_env \<Rightarrow> execution_config \<Rightarrow> contract_manager \<Rightarrow> transaction \<Rightarrow> operator_duty list mgr_result" where
  "process_assignments env cfg m tx =
     or_return m (parse_strata_checkpoint env tx) (\<lambda>parsed.
       case parsed of None \<Rightarrow> (m, Ok [])
       | Some cp \<Rightarrow>
         (case decode_chainstate env (cp_chainstate cp) of
            None \<Rightarrow> (m, Ok [])
          | Some deposits \<Rightarrow>
              assign_entries env cfg cp (filter (\<lambda>e. is_dispatched (entry_deposit_state (snd e))) deposits) m []))"

section \<open>Blocks\<close>

text \<open>One past the largest deposit index, 0 without contracts.\<close>

definition deposit_idx_offset :: "csm_env \<Rightarrow> contract_manager \<Rightarrow> (manager_err, u32) outcome" where
  "deposit_idx_offset env m =
     (let idxs = map (\<lambda>sm. cfg_deposit_idx (csm_cfg sm)) (bt_values (active_contracts m)) in
      if idxs = [] then Ok 0 else add_u32 env (foldr max idxs 0) 1)"

text \<open>The contract and the duty of a deposit request; \<open>None\<close> for a transaction that is not routed here.\<close>

datatype request_outcome = NotARequest | RequestSkipped | RequestAccepted contract_sm operator_duty

definition process_deposit_request ::
    "manager_env \<Rightarrow> execution_config \<Rightarrow> contract_manager \<Rightarrow> u64 \<Rightarrow> p2p_key \<Rightarrow> u32 \<Rightarrow> transaction \<Rightarrow>
     (manager_err, request_outcome) outcome" where
  "process_deposit_request env cfg m height pov_key deposit_idx tx =
     (let cenv = mgr_csm env; params = ec_graph_params cfg; table = ec_operator_table cfg in
      bind_outcome (tx_build_context (bridge cenv) table) (\<lambda>ctx.
      case deposit_request_info (bridge cenv) tx (ec_address_length cfg) params ctx deposit_idx of
        Ok (Some data) \<Rightarrow>
          (case deposit_tx_new (bridge cenv) data ctx params (ec_address_length cfg) of
             Ok deposit_tx \<Rightarrow>
               if bt_get (active_contracts m) (ct_txid (graph_lib (bridge cenv)) deposit_tx) \<noteq> None
               then Ok RequestSkipped
               else
                 bind_outcome (expect (bt_get (stake_chains (mgr_stake_chains m)) pov_key)) (\<lambda>inputs.
                 let ccfg = \<lparr>cfg_operator_table = table, cfg_connector_params = ec_connector_params cfg,
                             cfg_graph_params = params, cfg_stake_chain_params = ec_stake_chain_params cfg,
                             cfg_deposit_idx = deposit_idx, cfg_deposit_tx = deposit_tx\<rparr> in
                 bind_outcome (add_u64 cenv height (ucast (refund_delay params))) (\<lambda>abort_at.
                 bind_outcome (contract_sm_new ccfg height abort_at) (\<lambda>sm.
                   Ok (RequestAccepted sm (PublishDepositSetup (cfg_deposit_txid cenv ccfg) deposit_idx inputs)))))
           | Err _ \<Rightarrow> Ok RequestSkipped
           | Panic \<Rightarrow> Panic)
      | Ok None \<Rightarrow> Ok NotARequest
      | Err _ \<Rightarrow> Ok NotARequest
      | Panic \<Rightarrow> Panic))"

text \<open>\<open>for (_, contract) in active_contracts.iter_mut()\<close> with an early return at the first error.\<close>

fun each_contract ::
    "(contract_sm \<Rightarrow> contract_sm \<times> (manager_err, operator_duty list) outcome) \<Rightarrow> txid list \<Rightarrow>
     (txid, contract_sm) btree_map \<Rightarrow> operator_duty list \<Rightarrow>
     (txid, contract_sm) btree_map \<times> (manager_err, operator_duty list) outcome" where
  "each_contract f [] active duties = (active, Ok duties)"
| "each_contract f (key # keys) active duties =
     (case bt_get active key of
        None \<Rightarrow> each_contract f keys active duties
      | Some sm \<Rightarrow>
          and_then (let r = f sm in (bt_insert key (fst r) active, snd r)) (\<lambda>active new_duties.
            each_contract f keys active (duties @ new_duties)))"

definition for_contracts ::
    "(contract_sm \<Rightarrow> contract_sm \<times> (manager_err, operator_duty list) outcome) \<Rightarrow> contract_manager \<Rightarrow>
     operator_duty list mgr_result" where
  "for_contracts f m =
     (let r = each_contract f (bt_keys (active_contracts m)) (active_contracts m) [] in
      (m\<lparr>active_contracts := fst r\<rparr>, snd r))"

definition confirm_graph_tx ::
    "manager_env \<Rightarrow> u64 \<Rightarrow> transaction \<Rightarrow> contract_sm \<Rightarrow> contract_sm \<times> (manager_err, operator_duty list) outcome" where
  "confirm_graph_tx env height tx sm =
     (if height \<le> the_height sm then (sm, Ok [])
      else or_return sm (transaction_filter (mgr_csm env) sm tx) (\<lambda>relevant.
        if relevant then
          (let r = process_contract_event (mgr_csm env) sm (PegOutGraphConfirmation tx height) in
           (fst r, map_outcome_err MgrTransitionErr (snd r)))
        else (sm, Ok [])))"

definition announce_block ::
    "manager_env \<Rightarrow> u64 \<Rightarrow> contract_sm \<Rightarrow> contract_sm \<times> (manager_err, operator_duty list) outcome" where
  "announce_block env height sm =
     (let r = process_contract_event (mgr_csm env) sm (Block height) in
      (fst r, map_outcome_err MgrTransitionErr (snd r)))"

text \<open>The confirmation of a deposit: an error is logged and the block goes on.\<close>

definition confirm_deposit ::
    "manager_env \<Rightarrow> contract_manager \<Rightarrow> u64 \<Rightarrow> txid \<Rightarrow> contract_sm \<Rightarrow> transaction \<Rightarrow> operator_duty list mgr_result" where
  "confirm_deposit env m height txid sm tx =
     (if height \<le> the_height sm then (m, Ok [])
      else
        let r = dispatch_event env m txid sm (DepositConfirmation tx) in
        case snd r of Ok new_duties \<Rightarrow> r | Err _ \<Rightarrow> (fst r, Ok []) | Panic \<Rightarrow> r)"

text \<open>
  A transaction that carries no assignment is a deposit request, or a deposit, or goes to the contracts
  that wait for it.
\<close>

definition route_block_tx ::
    "manager_env \<Rightarrow> u64 \<Rightarrow> transaction \<Rightarrow> contract_manager \<Rightarrow> contract_sm list \<Rightarrow> operator_duty list \<Rightarrow>
     request_outcome \<Rightarrow> (contract_sm list \<times> operator_duty list) mgr_result" where
  "route_block_tx env height tx m new_contracts duties request =
     (case request of
        RequestAccepted sm duty \<Rightarrow> (m, Ok (new_contracts @ [sm], duties @ [duty]))
      | RequestSkipped \<Rightarrow> (m, Ok (new_contracts, duties))
      | NotARequest \<Rightarrow>
          let txid = env_compute_txid (btc (bridge (mgr_csm env))) tx in
          and_then
            (case bt_get (active_contracts m) txid of
               Some sm \<Rightarrow> confirm_deposit env m height txid sm tx
             | None \<Rightarrow> for_contracts (confirm_graph_tx env height tx) m)
            (\<lambda>m new_duties. (m, Ok (new_contracts, duties @ new_duties))))"

definition process_block_tx ::
    "manager_env \<Rightarrow> execution_config \<Rightarrow> u64 \<Rightarrow> p2p_key \<Rightarrow> u32 \<Rightarrow> transaction \<Rightarrow> contract_manager \<Rightarrow>
     contract_sm list \<Rightarrow> operator_duty list \<Rightarrow> (contract_sm list \<times> operator_duty list) mgr_result" where
  "process_block_tx env cfg height pov_key offset tx m new_contracts duties =
     and_then (process_assignments env cfg m tx) (\<lambda>m assignment_duties.
     if assignment_duties \<noteq> [] then (m, Ok (new_contracts, duties @ assignment_duties)) else
     or_return m (add_u32 (mgr_csm env) offset (of_nat (length new_contracts))) (\<lambda>deposit_idx.
     or_return m (process_deposit_request env cfg m height pov_key deposit_idx tx)
       (route_block_tx env height tx m new_contracts duties)))"

fun process_block_txs ::
    "manager_env \<Rightarrow> execution_config \<Rightarrow> u64 \<Rightarrow> p2p_key \<Rightarrow> u32 \<Rightarrow> transaction list \<Rightarrow> contract_manager \<Rightarrow>
     contract_sm list \<Rightarrow> operator_duty list \<Rightarrow> (contract_sm list \<times> operator_duty list) mgr_result" where
  "process_block_txs env cfg height pov_key offset [] m new_contracts duties = (m, Ok (new_contracts, duties))"
| "process_block_txs env cfg height pov_key offset (tx # txs) m new_contracts duties =
     and_then (process_block_tx env cfg height pov_key offset tx m new_contracts duties) (\<lambda>m (new_contracts, duties).
       process_block_txs env cfg height pov_key offset txs m new_contracts duties)"

definition insert_contracts :: "csm_env \<Rightarrow> contract_sm list \<Rightarrow> (txid, contract_sm) btree_map \<Rightarrow> (txid, contract_sm) btree_map" where
  "insert_contracts env new active =
     foldl (\<lambda>active sm. bt_insert (cfg_deposit_txid env (csm_cfg sm)) sm active) active new"

definition commit_contracts :: "manager_env \<Rightarrow> db_call \<Rightarrow> contract_manager \<Rightarrow> unit mgr_result" where
  "commit_contracts env c m =
     (let r = persister_commit_all (mgr_persist env) c (contract_rows m) (active_contracts m) in
      (m\<lparr>contract_rows := fst r\<rparr>, map_outcome_err MgrPersistErr (snd r)))"

definition process_block ::
    "manager_env \<Rightarrow> execution_config \<Rightarrow> db_call \<Rightarrow> contract_manager \<Rightarrow> block \<Rightarrow> operator_duty list mgr_result" where
  "process_block env cfg c m blk =
     (let height = (case block_bip34_height env blk of Some h \<Rightarrow> h | None \<Rightarrow> 0) in
      or_return m (pov_p2p_key (ec_operator_table cfg)) (\<lambda>pov_key.
      or_return m (deposit_idx_offset (mgr_csm env) m) (\<lambda>offset.
      and_then (process_block_txs env cfg height pov_key offset (txdata blk) m [] []) (\<lambda>m (new_contracts, duties).
      and_then (for_contracts (announce_block env height) m) (\<lambda>m block_duties.
      let m = m\<lparr>active_contracts := insert_contracts (mgr_csm env) new_contracts (active_contracts m)\<rparr> in
      and_then (commit_contracts env c m) (\<lambda>m _. (m, Ok (duties @ block_duties))))))))"

section \<open>Gossip\<close>

text \<open>\<open>find(|(_, contract)| contract.deposit_request_txid() == txid)\<close>.\<close>

fun find_by_request :: "txid \<Rightarrow> (txid \<times> contract_sm) list \<Rightarrow> ('e, (txid \<times> contract_sm) option) outcome" where
  "find_by_request txid [] = Ok None"
| "find_by_request txid ((key, sm) # rest) =
     bind_outcome (cfg_deposit_request_txid (csm_cfg sm)) (\<lambda>request_txid.
       if request_txid = txid then Ok (Some (key, sm)) else find_by_request txid rest)"

definition find_by_claim :: "contract_manager \<Rightarrow> txid \<Rightarrow> (txid \<times> contract_sm) option" where
  "find_by_claim m txid =
     Option.bind (bt_get (claim_index m) txid) (\<lambda>key. map_option (Pair key) (bt_get (active_contracts m) key))"

text \<open>Commits one contract, under the given id.\<close>

definition commit_contract :: "manager_env \<Rightarrow> db_call \<Rightarrow> contract_manager \<Rightarrow> txid \<Rightarrow> contract_sm \<Rightarrow> unit mgr_result" where
  "commit_contract env c m txid sm =
     (let cfg = csm_cfg sm;
          r = persister_commit (mgr_persist env) c (contract_rows m) txid (cfg_deposit_idx cfg)
                (cfg_deposit_tx cfg) (cfg_operator_table cfg) (csm_state sm) in
      (m\<lparr>contract_rows := fst r\<rparr>, map_outcome_err MgrPersistErr (snd r)))"

fun duty_claim :: "operator_duty \<Rightarrow> txid option" where
  "duty_claim (PublishGraphNonces claim _ _ _) = Some claim"
| "duty_claim _ = None"

definition index_claims :: "txid \<Rightarrow> operator_duty list \<Rightarrow> (txid, txid) btree_map \<Rightarrow> (txid, txid) btree_map" where
  "index_claims deposit_txid duties index =
     foldl (\<lambda>index claim. bt_insert claim deposit_txid index) index (List.map_filter duty_claim duties)"

definition process_exchange_msg :: "db_call \<Rightarrow> contract_manager \<Rightarrow> p2p_key \<Rightarrow> operator_idx \<Rightarrow> out_point \<Rightarrow> operator_duty list mgr_result" where
  "process_exchange_msg c m key sender_id pre_stake =
     (let m = m\<lparr>mgr_stake_chains := process_exchange (mgr_stake_chains m) key pre_stake\<rparr>;
          r = commit_prestake c (stake_db m) sender_id pre_stake in
      and_then (m\<lparr>stake_db := fst r\<rparr>, map_outcome_err MgrDbErr (snd r)) (\<lambda>m _. (m, Ok [])))"

definition process_setup_msg ::
    "manager_env \<Rightarrow> execution_config \<Rightarrow> db_call \<Rightarrow> db_call \<Rightarrow> contract_manager \<Rightarrow> p2p_key \<Rightarrow> txid \<Rightarrow> deposit_setup \<Rightarrow>
     operator_duty list mgr_result" where
  "process_setup_msg env cfg c c' m key deposit_txid setup =
     (case bt_get (active_contracts m) deposit_txid of
        None \<Rightarrow> (m, Ok [])
      | Some sm \<Rightarrow>
          let r = process_setup (bridge (mgr_csm env)) (mgr_stake_chains m) key setup in
          and_then (m\<lparr>mgr_stake_chains := fst r\<rparr>, map_outcome_err MgrStakeChainErr (snd r)) (\<lambda>m stake_txid.
          case stake_txid of None \<Rightarrow> (m, Ok [])
          | Some _ \<Rightarrow>
            let r = commit_stake_data c (stake_db m) (ec_operator_table cfg) (stake_chains (mgr_stake_chains m));
                deposit_idx = cfg_deposit_idx (csm_cfg sm) in
            and_then (m\<lparr>stake_db := fst r\<rparr>, map_outcome_err MgrDbErr (snd r)) (\<lambda>m _.
            or_return m (map_outcome_err MgrStakeChainErr
              (bind_outcome (sm_stake_tx (bridge (mgr_csm env)) (mgr_stake_chains m) key deposit_idx)
                 (ok_or (StakeTxNotFound key deposit_idx)))) (\<lambda>stake.
            or_return m (map_outcome_err
              (\<lambda>e. InvalidP2PMessage (MsgDepositSetup deposit_txid (setup_index setup) (setup_hash setup)
                 (op_txid (funding_outpoint setup)) (op_vout (funding_outpoint setup)) (setup_operator_pk setup) (snd e)))
              (wots_try_from (setup_wots_pks setup))) (\<lambda>wots_keys.
            and_then (dispatch_event env m deposit_txid sm (DepositSetup key (setup_operator_pk setup) (setup_hash setup)
                (stake_tx_kind_txid (graph_lib (bridge (mgr_csm env))) stake) wots_keys)) (\<lambda>m duties.
            let m = m\<lparr>claim_index := index_claims deposit_txid duties (claim_index m)\<rparr> in
            if duties = [] then (m, Ok [])
            else case bt_get (active_contracts m) deposit_txid of
                None \<Rightarrow> (m, Ok duties)
              | Some sm \<Rightarrow> and_then (commit_contract env c' m deposit_txid sm) (\<lambda>m _. (m, Ok duties))))))))"

definition process_nonces_msg ::
    "manager_env \<Rightarrow> contract_manager \<Rightarrow> p2p_key \<Rightarrow> txid \<Rightarrow> pub_nonce list \<Rightarrow> operator_duty list mgr_result" where
  "process_nonces_msg env m key txid nonces =
     (case find_by_claim m txid of
        Some (deposit_txid, sm) \<Rightarrow> dispatch_event env m deposit_txid sm (GraphNonces key txid nonces)
      | None \<Rightarrow>
          or_return m (find_by_request txid (bt_entries (active_contracts m))) (\<lambda>found.
          case found of
            None \<Rightarrow> (m, Ok [])
          | Some (deposit_txid, sm) \<Rightarrow>
              if nonces = [] then (m, Err (InvalidP2PMessage (MsgMusig2Nonces txid nonces)))
              else if butlast nonces \<noteq> [] then (m, Err (InvalidP2PMessage (MsgMusig2Nonces txid (butlast nonces))))
              else dispatch_event env m deposit_txid sm (RootNonce key (last nonces))))"

definition process_sigs_msg ::
    "manager_env \<Rightarrow> db_call \<Rightarrow> contract_manager \<Rightarrow> p2p_key \<Rightarrow> txid \<Rightarrow> partial_signature list \<Rightarrow> operator_duty list mgr_result" where
  "process_sigs_msg env c m key txid sigs =
     (case find_by_claim m txid of
        Some (deposit_txid, sm) \<Rightarrow>
          and_then (dispatch_event env m deposit_txid sm (GraphSigs key txid sigs)) (\<lambda>m duties.
          if duties = [] then (m, Ok [])
          else case bt_get (active_contracts m) deposit_txid of
              None \<Rightarrow> (m, Ok duties)
            | Some sm \<Rightarrow> and_then (commit_contract env c m txid sm) (\<lambda>m _. (m, Ok duties)))
      | None \<Rightarrow>
          or_return m (find_by_request txid (bt_entries (active_contracts m))) (\<lambda>found.
          case found of
            None \<Rightarrow> (m, Ok [])
          | Some (deposit_txid, sm) \<Rightarrow>
              (case sigs of
                 [sig] \<Rightarrow> dispatch_event env m deposit_txid sm (RootSig key sig)
               | _ \<Rightarrow> (m, Err (InvalidP2PMessage (MsgMusig2Signatures txid sigs))))))"

fun process_unsigned_gossip_msg ::
    "manager_env \<Rightarrow> execution_config \<Rightarrow> db_call \<Rightarrow> db_call \<Rightarrow> contract_manager \<Rightarrow> gossip_msg \<Rightarrow> p2p_key \<Rightarrow>
     operator_idx \<Rightarrow> operator_duty list mgr_result" where
  "process_unsigned_gossip_msg env cfg c c' m (MsgStakeChainExchange operator_pk pre_txid pre_vout chain_id) key sender_id =
     process_exchange_msg c m key sender_id \<lparr>op_txid = pre_txid, op_vout = pre_vout\<rparr>"
| "process_unsigned_gossip_msg env cfg c c' m (MsgDepositSetup deposit_txid idx hash fund_txid fund_vout operator_pk wots_pks) key sender_id =
     process_setup_msg env cfg c c' m key deposit_txid
       \<lparr>setup_index = idx, setup_hash = hash, funding_outpoint = \<lparr>op_txid = fund_txid, op_vout = fund_vout\<rparr>,
        setup_operator_pk = operator_pk, setup_wots_pks = wots_pks\<rparr>"
| "process_unsigned_gossip_msg env cfg c c' m (MsgMusig2Nonces session nonces) key sender_id =
     process_nonces_msg env m key session nonces"
| "process_unsigned_gossip_msg env cfg c c' m (MsgMusig2Signatures session sigs) key sender_id =
     process_sigs_msg env c m key session sigs"

definition process_p2p_message ::
    "manager_env \<Rightarrow> execution_config \<Rightarrow> db_call \<Rightarrow> db_call \<Rightarrow> contract_manager \<Rightarrow> p2p_key \<Rightarrow> gossip_msg \<Rightarrow>
     operator_duty list mgr_result" where
  "process_p2p_message env cfg c c' m key msg =
     or_return m (expect (p2p_key_to_idx (ec_operator_table cfg) key)) (\<lambda>sender_id.
       process_unsigned_gossip_msg env cfg c c' m msg key sender_id)"

end
