(* ===== verification/Manager_Requests.thy ===== *)
theory Manager_Requests
  imports Contract_Manager
begin

text \<open>
  What the contract manager asks of its peers and answers to them: \<open>process_p2p_request\<close> and its
  helpers, and \<open>nag\<close>, the list of requests for the messages that a deposit still needs
  (\<open>duty-tracker/src/contract_manager.rs\<close>). Neither changes the manager.
\<close>

section \<open>Answers\<close>

definition process_deposit_setup_request ::
    "execution_config \<Rightarrow> contract_manager \<Rightarrow> txid \<Rightarrow> (manager_err, operator_duty option) outcome" where
  "process_deposit_setup_request cfg m deposit_txid =
     bind_outcome (pov_p2p_key (ec_operator_table cfg)) (\<lambda>pov_key.
     bind_outcome (expect (bt_get (stake_chains (mgr_stake_chains m)) pov_key)) (\<lambda>inputs.
     case bt_get (active_contracts m) deposit_txid of
       Some sm \<Rightarrow> Ok (Some (PublishDepositSetup deposit_txid (cfg_deposit_idx (csm_cfg sm)) inputs))
     | None \<Rightarrow> Err (InvalidP2PRequest (ReqDepositSetup deposit_txid pov_key))))"

text \<open>The graph of the cache, or built; the cache is not written.\<close>

definition graph_for_request :: "csm_env \<Rightarrow> contract_sm \<Rightarrow> peg_out_graph_input \<Rightarrow> ('e, peg_out_graph) outcome" where
  "graph_for_request env sm inp =
     (case bt_get (csm_pog sm) (op_txid (stake_outpoint inp)) of
        Some g \<Rightarrow> Ok g
      | None \<Rightarrow> build_graph env (csm_cfg sm) inp)"

definition process_graph_nonces_request ::
    "csm_env \<Rightarrow> txid \<Rightarrow> contract_sm \<Rightarrow> ('e, operator_duty option) outcome" where
  "process_graph_nonces_request env claim sm =
     (case the_state sm of
        Requested r \<Rightarrow>
          (case claim_to_operator (the_state sm) claim of
             None \<Rightarrow> Ok None
           | Some graph_owner \<Rightarrow>
               bind_outcome (expect (bt_get (peg_out_graph_inputs r) graph_owner)) (\<lambda>inp.
               bind_outcome (graph_for_request env sm inp) (\<lambda>g.
               bind_outcome (expect_ok (musig_witnesses g)) (\<lambda>witnesses.
               bind_outcome (pov_p2p_key (cfg_operator_table (csm_cfg sm))) (\<lambda>pov_key.
                 Ok (Some (PublishGraphNonces claim (musig_inpoints (graph_lib (bridge env)) g) witnesses
                   (Option.bind (bt_get (graph_nonces r) claim) (\<lambda>s. bt_get s pov_key)))))))))
      | _ \<Rightarrow> Ok None)"

definition process_root_nonces_request ::
    "csm_env \<Rightarrow> txid \<Rightarrow> contract_sm \<Rightarrow> ('e, operator_duty option) outcome" where
  "process_root_nonces_request env request_txid sm =
     (case the_state sm of
        Requested r \<Rightarrow>
          let table = cfg_operator_table (csm_cfg sm) in
          if bt_len (req_graph_sigs r) \<noteq> cardinality table then Ok None
          else
            bind_outcome (expect (list_get (ct_witnesses (cfg_deposit_tx (csm_cfg sm))) 0)) (\<lambda>w.
            bind_outcome (pov_p2p_key table) (\<lambda>pov_key.
              Ok (Some (PublishRootNonce request_txid w (bt_get (root_nonces r) pov_key)))))
      | _ \<Rightarrow> Ok None)"

definition process_graph_signatures_request ::
    "csm_env \<Rightarrow> execution_config \<Rightarrow> txid \<Rightarrow> contract_sm \<Rightarrow> ('e, operator_duty option) outcome" where
  "process_graph_signatures_request env cfg claim sm =
     (case the_state sm of
        Requested r \<Rightarrow>
          bind_outcome (pov_p2p_key (ec_operator_table cfg)) (\<lambda>pov_key.
          case claim_to_operator (the_state sm) claim of
             None \<Rightarrow> Ok None
           | Some graph_owner \<Rightarrow>
               bind_outcome (expect (bt_get (peg_out_graph_inputs r) graph_owner)) (\<lambda>inp.
               bind_outcome (graph_for_request env sm inp) (\<lambda>g.
               bind_outcome (expect_ok (musig_sighashes (graph_lib (bridge env)) g)) (\<lambda>hashes.
               bind_outcome (expect_ok (musig_witnesses g)) (\<lambda>witnesses.
               case bt_get (agg_nonces r) claim of
                 None \<Rightarrow> Ok None
               | Some aggs \<Rightarrow>
                   Ok (Some (PublishGraphSignatures claim aggs (musig_inpoints (graph_lib (bridge env)) g) hashes witnesses
                     (Option.bind (bt_get (graph_partials r) claim) (\<lambda>s. bt_get s pov_key)))))))))
      | _ \<Rightarrow> Ok None)"

definition process_root_signatures_request ::
    "csm_env \<Rightarrow> txid \<Rightarrow> contract_sm \<Rightarrow> ('e, operator_duty option) outcome" where
  "process_root_signatures_request env request_txid sm =
     (case the_state sm of
        Requested r \<Rightarrow>
          let cfg = csm_cfg sm; table = cfg_operator_table cfg in
          bind_outcome (pov_p2p_key table) (\<lambda>pov_key.
          bind_outcome (deposit_sighash env cfg) (\<lambda>hash.
          bind_outcome (expect (list_get (ct_witnesses (cfg_deposit_tx cfg)) 0)) (\<lambda>w.
          bind_outcome (expect_ok (convert_map_p2p_to_btc table (root_nonces r))) (\<lambda>nonces.
            Ok (Some (PublishRootSignature request_txid (agg_nonce_sum (bridge env) (bt_values nonces)) hash w
              (bt_get (root_partials r) pov_key)))))))
      | _ \<Rightarrow> Ok None)"

text \<open>The two session requests share their routing: by claim first, by deposit request otherwise.\<close>

definition route_session ::
    "contract_manager \<Rightarrow> txid \<Rightarrow> (contract_sm \<Rightarrow> (manager_err, operator_duty option) outcome) \<Rightarrow>
     (contract_sm \<Rightarrow> (manager_err, operator_duty option) outcome) \<Rightarrow> (manager_err, operator_duty option) outcome" where
  "route_session m session on_graph on_root =
     (case find_by_claim m session of
        Some (_, sm) \<Rightarrow> on_graph sm
      | None \<Rightarrow>
          bind_outcome (find_by_request session (bt_entries (active_contracts m))) (\<lambda>found.
          case found of Some (_, sm) \<Rightarrow> on_root sm | None \<Rightarrow> Ok None))"

definition process_musig2_nonces_exchange_request where
  "process_musig2_nonces_exchange_request env m session =
     route_session m session (process_graph_nonces_request env session) (process_root_nonces_request env session)"

definition process_musig2_signatures_exchange_request where
  "process_musig2_signatures_exchange_request env cfg m session =
     route_session m session (process_graph_signatures_request env cfg session)
       (process_root_signatures_request env session)"

fun process_p2p_request ::
    "manager_env \<Rightarrow> execution_config \<Rightarrow> contract_manager \<Rightarrow> get_message_request \<Rightarrow>
     (manager_err, operator_duty option) outcome" where
  "process_p2p_request env cfg m (ReqStakeChainExchange _ _) = Ok (Some PublishStakeChainExchange)"
| "process_p2p_request env cfg m (ReqDepositSetup scope _) = process_deposit_setup_request cfg m scope"
| "process_p2p_request env cfg m (ReqMusig2Nonces session _) =
     process_musig2_nonces_exchange_request (mgr_csm env) m session"
| "process_p2p_request env cfg m (ReqMusig2Signatures session _) =
     process_musig2_signatures_exchange_request (mgr_csm env) cfg m session"

section \<open>Nags\<close>

text \<open>\<open>want.difference(&have)\<close>, in key order.\<close>

definition missing_keys :: "p2p_key list \<Rightarrow> p2p_key list \<Rightarrow> p2p_key list" where
  "missing_keys want have_keys = filter (\<lambda>key. key \<notin> set have_keys) want"

definition session_keys :: "(txid, (p2p_key, 'v) btree_map) btree_map \<Rightarrow> txid \<Rightarrow> p2p_key list" where
  "session_keys sessions claim = (case bt_get sessions claim of Some s \<Rightarrow> bt_keys s | None \<Rightarrow> [])"

text \<open>The stages of a contract: the requests of the first stage that misses something.\<close>

fun first_nonempty :: "'a list list \<Rightarrow> 'a list" where
  "first_nonempty [] = []"
| "first_nonempty (xs # xss) = (if xs \<noteq> [] then xs else first_nonempty xss)"

definition stake_holders :: "operator_table \<Rightarrow> stake_chain_sm \<Rightarrow> u32 \<Rightarrow> p2p_key list" where
  "stake_holders table scs idx = filter (\<lambda>key. sm_stake_txid scs key idx \<noteq> None) (p2p_keys table)"

definition requested_stages :: "p2p_key list \<Rightarrow> txid \<Rightarrow> requested_data \<Rightarrow> get_message_request list list" where
  "requested_stages want txid r =
     [map (ReqDepositSetup txid) (missing_keys want (bt_keys (peg_out_graph_inputs r))),
      concat (map (\<lambda>claim. map (ReqMusig2Nonces claim) (missing_keys want (session_keys (graph_nonces r) claim)))
        (bt_values (req_claim_txids r))),
      concat (map (\<lambda>claim. map (ReqMusig2Signatures claim) (missing_keys want (session_keys (graph_partials r) claim)))
        (bt_values (req_claim_txids r))),
      map (ReqMusig2Nonces (req_deposit_request_txid r)) (missing_keys want (bt_keys (root_nonces r))),
      map (ReqMusig2Signatures (req_deposit_request_txid r)) (missing_keys want (bt_keys (root_partials r)))]"

definition nag_contract :: "p2p_key list \<Rightarrow> operator_table \<Rightarrow> stake_chain_sm \<Rightarrow> txid \<Rightarrow> contract_sm \<Rightarrow> get_message_request list" where
  "nag_contract want table scs txid sm =
     first_nonempty
       (map (ReqDepositSetup txid) (missing_keys want (stake_holders table scs (cfg_deposit_idx (csm_cfg sm)))) #
        (case the_state sm of Requested r \<Rightarrow> requested_stages want txid r | _ \<Rightarrow> []))"

definition nag :: "execution_config \<Rightarrow> contract_manager \<Rightarrow> get_message_request list" where
  "nag cfg m =
     (let want = p2p_keys (ec_operator_table cfg) in
      map (ReqStakeChainExchange 0) (missing_keys want (bt_keys (stake_chains (mgr_stake_chains m)))) @
      concat (map (\<lambda>(txid, sm). nag_contract want (ec_operator_table cfg) (mgr_stake_chains m) txid sm)
        (bt_entries (active_contracts m))))"

section \<open>What the nags ask for\<close>

text \<open>Whether the message that a request asks for has been received.\<close>

fun received :: "contract_manager \<Rightarrow> get_message_request \<Rightarrow> bool" where
  "received m (ReqStakeChainExchange _ key) \<longleftrightarrow> bt_get (stake_chains (mgr_stake_chains m)) key \<noteq> None"
| "received m (ReqDepositSetup txid key) \<longleftrightarrow>
     list_all (\<lambda>(t, sm). t = txid \<longrightarrow> sm_stake_txid (mgr_stake_chains m) key (cfg_deposit_idx (csm_cfg sm)) \<noteq> None \<and>
       (case the_state sm of Requested r \<Rightarrow> bt_get (peg_out_graph_inputs r) key \<noteq> None | _ \<Rightarrow> True))
       (bt_entries (active_contracts m))"
| "received m (ReqMusig2Nonces session key) \<longleftrightarrow>
     list_all (\<lambda>sm. case the_state sm of
         Requested r \<Rightarrow>
           (session \<in> set (bt_values (req_claim_txids r)) \<longrightarrow> key \<in> set (session_keys (graph_nonces r) session)) \<and>
           (session = req_deposit_request_txid r \<longrightarrow> bt_get (root_nonces r) key \<noteq> None)
       | _ \<Rightarrow> True) (bt_values (active_contracts m))"
| "received m (ReqMusig2Signatures session key) \<longleftrightarrow>
     list_all (\<lambda>sm. case the_state sm of
         Requested r \<Rightarrow>
           (session \<in> set (bt_values (req_claim_txids r)) \<longrightarrow> key \<in> set (session_keys (graph_partials r) session)) \<and>
           (session = req_deposit_request_txid r \<longrightarrow> bt_get (root_partials r) key \<noteq> None)
       | _ \<Rightarrow> True) (bt_values (active_contracts m))"

lemma missing_keys_set: "set (missing_keys want have_keys) = {key \<in> set want. key \<notin> set have_keys}"
  by (auto simp: missing_keys_def)

lemma missing_keys_Nil: "missing_keys want have_keys = [] \<longleftrightarrow> set want \<subseteq> set have_keys"
  by (auto simp: missing_keys_def filter_empty_conv)

lemma first_nonempty_in: "x \<in> set (first_nonempty xss) \<Longrightarrow> \<exists>xs \<in> set xss. x \<in> set xs"
  by (induction xss) (auto split: if_splits)

lemma first_nonempty_Nil: "first_nonempty xss = [] \<longleftrightarrow> (\<forall>xs \<in> set xss. xs = [])"
  by (induction xss) auto

lemma received_session:
  assumes "sm \<in> set (bt_values (active_contracts m))" and "the_state sm = Requested r"
  shows "received m (ReqMusig2Nonces session key) \<Longrightarrow>
      (session \<in> set (bt_values (req_claim_txids r)) \<longrightarrow> key \<in> set (session_keys (graph_nonces r) session)) \<and>
      (session = req_deposit_request_txid r \<longrightarrow> bt_get (root_nonces r) key \<noteq> None)"
    and "received m (ReqMusig2Signatures session key) \<Longrightarrow>
      (session \<in> set (bt_values (req_claim_txids r)) \<longrightarrow> key \<in> set (session_keys (graph_partials r) session)) \<and>
      (session = req_deposit_request_txid r \<longrightarrow> bt_get (root_partials r) key \<noteq> None)"
  using assms by (fastforce simp: list_all_iff)+

lemma received_setup:
  assumes "(txid, sm) \<in> set (bt_entries (active_contracts m))" and "received m (ReqDepositSetup txid key)"
  shows "sm_stake_txid (mgr_stake_chains m) key (cfg_deposit_idx (csm_cfg sm)) \<noteq> None"
    and "the_state sm = Requested r \<Longrightarrow> bt_get (peg_out_graph_inputs r) key \<noteq> None"
  using assms by (fastforce simp: list_all_iff)+

lemma nag_contract_missing:
  assumes "(txid, sm) \<in> set (bt_entries (active_contracts m))"
    and "req \<in> set (nag_contract (p2p_keys table) table (mgr_stake_chains m) txid sm)"
  shows "req_operator req \<in> set (p2p_keys table) \<and> \<not> received m req"
proof -
  have val: "sm \<in> set (bt_values (active_contracts m))"
    using assms(1) by (force simp: bt_values_def)
  obtain reqs where reqs: "req \<in> set reqs"
    "reqs \<in> set (map (ReqDepositSetup txid) (missing_keys (p2p_keys table)
         (stake_holders table (mgr_stake_chains m) (cfg_deposit_idx (csm_cfg sm)))) #
        (case the_state sm of Requested r \<Rightarrow> requested_stages (p2p_keys table) txid r | _ \<Rightarrow> []))"
    using first_nonempty_in [OF assms(2) [unfolded nag_contract_def]] by blast
  show ?thesis
  proof (cases "\<exists>r. the_state sm = Requested r \<and> reqs \<in> set (requested_stages (p2p_keys table) txid r)")
    case True
    then obtain r where r: "the_state sm = Requested r" "reqs \<in> set (requested_stages (p2p_keys table) txid r)"
      by blast
    show ?thesis
      using r(2) reqs(1)
      by (auto simp: requested_stages_def missing_keys_set bt_keys_get simp del: received.simps
          dest!: received_setup(2) [OF assms(1) _ r(1)] received_session [OF val r(1)])
  next
    case False
    then have "req \<in> set (map (ReqDepositSetup txid) (missing_keys (p2p_keys table)
         (stake_holders table (mgr_stake_chains m) (cfg_deposit_idx (csm_cfg sm)))))"
      using reqs by (auto split: contract_state.splits)
    then show ?thesis
      by (auto simp: missing_keys_set stake_holders_def simp del: received.simps
          dest!: received_setup(1) [OF assms(1)])
  qed
qed

text \<open>What a contract needs before the node has nothing left to ask.\<close>

definition contract_supplied :: "operator_table \<Rightarrow> stake_chain_sm \<Rightarrow> contract_sm \<Rightarrow> bool" where
  "contract_supplied table scs sm \<longleftrightarrow>
     list_all (\<lambda>key. sm_stake_txid scs key (cfg_deposit_idx (csm_cfg sm)) \<noteq> None) (p2p_keys table) \<and>
     (case the_state sm of
        Requested r \<Rightarrow>
          list_all (\<lambda>key. bt_get (peg_out_graph_inputs r) key \<noteq> None \<and> bt_get (root_nonces r) key \<noteq> None \<and>
            bt_get (root_partials r) key \<noteq> None \<and>
            list_all (\<lambda>claim. key \<in> set (session_keys (graph_nonces r) claim) \<and>
              key \<in> set (session_keys (graph_partials r) claim)) (bt_values (req_claim_txids r))) (p2p_keys table)
      | _ \<Rightarrow> True)"

lemma nag_contract_Nil:
  "nag_contract (p2p_keys table) table scs txid sm = [] \<longleftrightarrow> contract_supplied table scs sm"
proof -
  have "(\<forall>xs \<in> set (requested_stages (p2p_keys table) txid r). xs = []) \<longleftrightarrow>
      list_all (\<lambda>key. bt_get (peg_out_graph_inputs r) key \<noteq> None \<and> bt_get (root_nonces r) key \<noteq> None \<and>
        bt_get (root_partials r) key \<noteq> None \<and>
        list_all (\<lambda>claim. key \<in> set (session_keys (graph_nonces r) claim) \<and>
          key \<in> set (session_keys (graph_partials r) claim)) (bt_values (req_claim_txids r))) (p2p_keys table)" for r
    by (simp add: requested_stages_def missing_keys_Nil list_all_iff subset_iff bt_keys_get) blast
  moreover have "map (ReqDepositSetup txid) (missing_keys (p2p_keys table)
      (stake_holders table scs (cfg_deposit_idx (csm_cfg sm)))) = [] \<longleftrightarrow>
      list_all (\<lambda>key. sm_stake_txid scs key (cfg_deposit_idx (csm_cfg sm)) \<noteq> None) (p2p_keys table)"
    by (auto simp: missing_keys_Nil stake_holders_def list_all_iff)
  ultimately show ?thesis
    by (cases "the_state sm") (simp_all add: nag_contract_def first_nonempty_Nil contract_supplied_def)
qed

text \<open>
  (C15) The nags are exact. Every request goes to an operator of the table and asks for a message that
  has not been received; and there is no request left exactly when the stake chain of every operator
  is known and every contract has the stake transactions, graph inputs, nonces and signatures of
  everybody.
\<close>
theorem nag_exact:
  "(\<forall>req \<in> set (nag cfg m). req_operator req \<in> set (p2p_keys (ec_operator_table cfg)) \<and> \<not> received m req) \<and>
   (nag cfg m = [] \<longleftrightarrow>
      list_all (\<lambda>key. bt_get (stake_chains (mgr_stake_chains m)) key \<noteq> None) (p2p_keys (ec_operator_table cfg)) \<and>
      list_all (contract_supplied (ec_operator_table cfg) (mgr_stake_chains m)) (bt_values (active_contracts m)))"
proof (intro conjI ballI)
  fix req assume req: "req \<in> set (nag cfg m)"
  show "req_operator req \<in> set (p2p_keys (ec_operator_table cfg))" and "\<not> received m req"
    using req nag_contract_missing [of _ _ m req "ec_operator_table cfg"]
    by (auto simp: nag_def Let_def missing_keys_set bt_keys_get)
next
  have "(\<forall>e \<in> set (bt_entries (active_contracts m)).
      contract_supplied (ec_operator_table cfg) (mgr_stake_chains m) (snd e)) \<longleftrightarrow>
    list_all (contract_supplied (ec_operator_table cfg) (mgr_stake_chains m)) (bt_values (active_contracts m))"
    by (simp add: bt_values_def list_all_iff)
  then show "nag cfg m = [] \<longleftrightarrow>
      list_all (\<lambda>key. bt_get (stake_chains (mgr_stake_chains m)) key \<noteq> None) (p2p_keys (ec_operator_table cfg)) \<and>
      list_all (contract_supplied (ec_operator_table cfg) (mgr_stake_chains m)) (bt_values (active_contracts m))"
    by (auto simp: nag_def Let_def missing_keys_Nil list_all_iff subset_iff bt_keys_get case_prod_unfold nag_contract_Nil)
qed

text \<open>A message of the node's own that is missing is asked for as well.\<close>

lemma nag_includes_self:
  assumes "pov_p2p_key (ec_operator_table cfg) = Ok pov_key" and "pov_key \<in> set (p2p_keys (ec_operator_table cfg))"
    and "bt_get (stake_chains (mgr_stake_chains m)) pov_key = None"
  shows "ReqStakeChainExchange 0 pov_key \<in> set (nag cfg m)"
  using assms(2,3) by (simp add: nag_def Let_def missing_keys_set bt_keys_get)

section \<open>Signatures on request\<close>

text \<open>
  (C38) A peer that asks for the signature of the deposit transaction is answered whatever the number of
  nonces received so far: the duty carries the aggregate of the nonces at hand. The handler of nonce
  messages, in contrast, gives out no signing duty before the last nonce. A node that is asked early
  therefore signs under an aggregate nonce that differs from the final one.
\<close>
theorem root_signature_request_unguarded:
  assumes "the_state sm = Requested r"
    and "pov_p2p_key (cfg_operator_table (csm_cfg sm)) = (Ok pov_key :: (manager_err, _) outcome)"
    and "deposit_sighash env (csm_cfg sm) = (Ok hash :: (manager_err, _) outcome)"
    and "list_get (ct_witnesses (cfg_deposit_tx (csm_cfg sm))) 0 = Some w"
    and "convert_map_p2p_to_btc (cfg_operator_table (csm_cfg sm)) (root_nonces r) = Ok nonces"
    and "bt_get (root_nonces r) signer = None"
    and "bt_len (root_nonces r) + 1 < cardinality (cfg_operator_table (csm_cfg sm))"
  shows "process_root_signatures_request env request_txid sm =
      (Ok (Some (PublishRootSignature request_txid (agg_nonce_sum (bridge env) (bt_values nonces)) hash w
        (bt_get (root_partials r) pov_key))) :: (manager_err, _) outcome) \<and>
    snd (process_root_nonce env sm signer nonce) = Ok None"
  using assms
  by (simp add: process_root_signatures_request_def process_root_nonce_def Let_def bt.len_insert)

end
