(* ===== verification/Manager_Runs.thy ===== *)
theory Manager_Runs
  imports Manager_Requests Contract_Runs Stake_Runs
begin

text \<open>
  The contract manager over time (\<open>duty-tracker/src/contract_manager.rs\<close>, \<open>shutdown.rs\<close>): start from
  disk with the blocks missed while the node was down, the event loop, the extraction and the writing
  of the state at shutdown. The lemmas follow the deposit indices and the rows on disk through any
  sequence of events, which gives that a restart finds the contracts as they were.
\<close>

section \<open>Start\<close>

definition config_params :: "execution_config \<Rightarrow> load_params" where
  "config_params cfg =
     \<lparr>lp_connector_params = ec_connector_params cfg, lp_graph_params = ec_graph_params cfg,
      lp_stake_chain_params = ec_stake_chain_params cfg\<rparr>"

definition restore_contracts :: "csm_env \<Rightarrow> (contract_cfg \<times> machine_state) list \<Rightarrow> (txid, contract_sm) btree_map" where
  "restore_contracts env loaded =
     bt_collect (map (\<lambda>(cfg, s). (cfg_deposit_txid env cfg, contract_sm_restore cfg s)) loaded)"

definition load_contracts ::
    "manager_env \<Rightarrow> execution_config \<Rightarrow> db_call \<Rightarrow> contract_row list \<Rightarrow>
     (contract_persist_err, (txid, contract_sm) btree_map) outcome" where
  "load_contracts env cfg c rows =
     map_outcome_ok (restore_contracts (mgr_csm env)) (persister_load_all (mgr_persist env) c (config_params cfg) rows)"

definition claim_index_of :: "(txid, contract_sm) btree_map \<Rightarrow> (txid, txid) btree_map" where
  "claim_index_of active =
     bt_collect (concat (map (\<lambda>(deposit_txid, sm). map (\<lambda>claim. (claim, deposit_txid)) (state_claim_txids (the_state sm)))
       (bt_entries active)))"

datatype start_err = StartPersistErr contract_persist_err | StartDbErr db_error | StartStakeErr builder_error

definition manager_start ::
    "manager_env \<Rightarrow> execution_config \<Rightarrow> db_call \<Rightarrow> db_call \<Rightarrow> bool \<Rightarrow> contract_row list \<Rightarrow> sqlite_db \<Rightarrow>
     (start_err, contract_manager) outcome" where
  "manager_start env cfg c c' funding_script_valid rows db =
     bind_outcome (map_outcome_err StartPersistErr (load_contracts env cfg c rows)) (\<lambda>active.
     if \<not> funding_script_valid then Panic else
     bind_outcome (map_outcome_err StartDbErr (stake_persister_load c' db (ec_operator_table cfg))) (\<lambda>saved.
     bind_outcome (map_outcome_err StartStakeErr
       (stake_chain_sm_restore (bridge (mgr_csm env)) (ec_operator_table cfg) (ec_stake_chain_params cfg) saved)) (\<lambda>scs.
       Ok \<lparr>active_contracts = active, claim_index = claim_index_of active, mgr_stake_chains = scs,
           es_operator_table = ec_operator_table cfg, contract_rows = rows, stake_db = db\<rparr>)))"

text \<open>The lowest height that a contract has seen, the current height without contracts.\<close>

definition start_cursor :: "contract_manager \<Rightarrow> u64 \<Rightarrow> u64" where
  "start_cursor m current =
     (case map the_height (bt_values (active_contracts m)) of [] \<Rightarrow> current | h # hs \<Rightarrow> foldr min hs h)"

lemma u64_succ_above:
  assumes "cursor < (current :: u64)"
  shows "unat (cursor + 1) = unat cursor + 1"
proof -
  have "unat cursor + unat (1 :: u64) < 2 ^ LENGTH(64)"
    using assms unsigned_less [of current, where ?'a = nat] by (simp add: word_less_nat_alt)
  then show ?thesis
    by (simp add: unat_plus_if')
qed

text \<open>
  The blocks up to the current height, fetched over RPC; a block that cannot be fetched ends the
  start, one that cannot be processed panics. The calls to the database are numbered by the height.
\<close>

function rpc_sync ::
    "manager_env \<Rightarrow> execution_config \<Rightarrow> (u64 \<Rightarrow> db_call) \<Rightarrow> (u64 \<Rightarrow> string + block) \<Rightarrow> u64 \<Rightarrow> u64 \<Rightarrow> contract_manager \<Rightarrow>
     operator_duty list \<Rightarrow> operator_duty list mgr_result" where
  "rpc_sync env cfg calls get_block current cursor m duties =
     (if cursor < current then
        let next_height = cursor + 1 in
        case get_block next_height of
          Inl e \<Rightarrow> (m, Err (BitcoinCoreRPCErr e))
        | Inr blk \<Rightarrow>
            (let r = process_block env cfg (calls next_height) m blk in
             case snd r of
               Ok new_duties \<Rightarrow> rpc_sync env cfg calls get_block current next_height (fst r) (duties @ new_duties)
             | _ \<Rightarrow> (fst r, Panic))
      else (m, Ok duties))"
  by pat_completeness auto

termination
  by (relation "measure (\<lambda>(env, cfg, calls, get_block, current, cursor, m, duties). unat current - unat cursor)")
    (auto simp: u64_succ_above word_less_nat_alt)

declare rpc_sync.simps [simp del]

section \<open>The event loop\<close>

text \<open>
  What an iteration of the loop reacts to: the node's own messages and requests, which come back over
  the two ouroboros channels (closed when their senders are gone), the shutdown signal, blocks, peers
  and the timer of the nags. Database calls come with the event that makes them.
\<close>

datatype loop_event =
    OuroborosMsg gossip_msg db_call db_call
  | OuroborosReq get_message_request
  | OuroborosClosed string
  | ShutdownSignal
  | BlockNotice block_event db_call
  | PeerMessage p2p_key gossip_msg db_call db_call
  | PeerRequest get_message_request
  | PeerError
  | NagTick

datatype p2p_command = PublishMessage gossip_msg | RequestMessage get_message_request

datatype loop_result =
    LoopContinue "operator_duty list" "p2p_command list" "get_message_request list"
  | LoopExit manager_err
  | LoopShutdown execution_state
  | LoopPanic

text \<open>A handler whose error is only logged.\<close>

definition tolerate :: "'a mgr_result \<Rightarrow> ('a \<Rightarrow> loop_result) \<Rightarrow> contract_manager \<times> loop_result" where
  "tolerate r f =
     (fst r, case snd r of Ok a \<Rightarrow> f a | Err _ \<Rightarrow> LoopContinue [] [] [] | Panic \<Rightarrow> LoopPanic)"

definition answer_request ::
    "manager_env \<Rightarrow> execution_config \<Rightarrow> contract_manager \<Rightarrow> get_message_request \<Rightarrow> contract_manager \<times> loop_result" where
  "answer_request env cfg m req =
     tolerate (m, process_p2p_request env cfg m req)
       (\<lambda>duty. LoopContinue (case duty of Some d \<Rightarrow> [d] | None \<Rightarrow> []) [] [])"

fun loop_step :: "manager_env \<Rightarrow> execution_config \<Rightarrow> contract_manager \<Rightarrow> loop_event \<Rightarrow> contract_manager \<times> loop_result" where
  "loop_step env cfg m (OuroborosMsg msg c c') =
     tolerate
       (or_return m (pov_p2p_key (ec_operator_table cfg)) (\<lambda>pov_key.
          process_unsigned_gossip_msg env cfg c c' m msg pov_key (pov (ec_operator_table cfg))))
       (\<lambda>duties. LoopContinue duties [PublishMessage msg] [])"
| "loop_step env cfg m (OuroborosReq req) =
     (case (pov_p2p_key (ec_operator_table cfg) :: (manager_err, _) outcome) of
        Ok pov_key \<Rightarrow>
          if req_operator req = pov_key then answer_request env cfg m req
          else (m, LoopContinue [] [RequestMessage req] [])
      | _ \<Rightarrow> (m, LoopPanic))"
| "loop_step env cfg m (OuroborosClosed reason) = (m, LoopExit (MgrFatalErr reason))"
| "loop_step env cfg m ShutdownSignal =
     (m\<lparr>active_contracts := bt_empty, claim_index := bt_empty,
        mgr_stake_chains := stake_chain_sm_new (ec_operator_table cfg) (ec_stake_chain_params cfg)\<rparr>,
      LoopShutdown \<lparr>active_contracts = active_contracts m, claim_index = claim_index m,
        mgr_stake_chains = mgr_stake_chains m, es_operator_table = ec_operator_table cfg\<rparr>)"
| "loop_step env cfg m (BlockNotice ev c) =
     (if blk_status ev \<noteq> BlockBuried then (m, LoopContinue [] [] [])
      else if block_bip34_height env (ev_block ev) = None then (m, LoopPanic)
      else
        let r = process_block env cfg c m (ev_block ev) in
        (fst r, case snd r of Ok duties \<Rightarrow> LoopContinue duties [] [] | Err e \<Rightarrow> LoopExit e | Panic \<Rightarrow> LoopPanic))"
| "loop_step env cfg m (PeerMessage key msg c c') =
     tolerate (process_p2p_message env cfg c c' m key msg) (\<lambda>duties. LoopContinue duties [] [])"
| "loop_step env cfg m (PeerRequest req) = answer_request env cfg m req"
| "loop_step env cfg m PeerError = (m, LoopContinue [] [] [])"
| "loop_step env cfg m NagTick = (m, LoopContinue [] [] (nag cfg m))"

section \<open>Shutdown\<close>

text \<open>
  What interferes with the writing of the state: the guard's signal at each of the points that look at
  it, and the timers. A timer that fires drops the write, before or after its transaction committed.
\<close>

datatype write_timing = InTime | TimedOut bool

record shutdown_signals =
  stop_before :: bool
  stop_contracts :: bool
  stop_between :: bool
  stop_stakes :: bool
  contract_timing :: write_timing
  stake_timing :: write_timing

datatype shutdown_err = ShutdownPersistErr contract_persist_err | ShutdownDbErr db_error | ShutdownTimeout string

definition timed :: "write_timing \<Rightarrow> string \<Rightarrow> 's \<Rightarrow> 's \<times> (shutdown_err, unit) outcome \<Rightarrow> 's \<times> (shutdown_err, unit) outcome" where
  "timed t label s r =
     (case t of InTime \<Rightarrow> r | TimedOut committed \<Rightarrow> (if committed then fst r else s, Err (ShutdownTimeout label)))"

definition persist_contract_state ::
    "persist_env \<Rightarrow> db_call \<Rightarrow> bool \<Rightarrow> contract_row list \<Rightarrow> execution_state \<Rightarrow> contract_row list \<times> (shutdown_err, unit) outcome" where
  "persist_contract_state env c stop rows st =
     (if stop then (rows, Ok ())
      else let r = persister_commit_all env c rows (active_contracts st) in
        (fst r, map_outcome_err ShutdownPersistErr (snd r)))"

definition persist_stake_chain_state ::
    "db_call \<Rightarrow> bool \<Rightarrow> sqlite_db \<Rightarrow> execution_state \<Rightarrow> sqlite_db \<times> (shutdown_err, unit) outcome" where
  "persist_stake_chain_state c stop db st =
     (if stop then (db, Ok ())
      else let r = commit_stake_data c db (es_operator_table st) (stake_chains (mgr_stake_chains st)) in
        (fst r, map_outcome_err ShutdownDbErr (snd r)))"

definition persist_state_before_shutdown ::
    "persist_env \<Rightarrow> db_call \<Rightarrow> db_call \<Rightarrow> shutdown_signals \<Rightarrow> contract_row list \<Rightarrow> sqlite_db \<Rightarrow> execution_state \<Rightarrow>
     (contract_row list \<times> sqlite_db) \<times> (shutdown_err, unit) outcome" where
  "persist_state_before_shutdown env c c' sig rows db st =
     (if stop_before sig then ((rows, db), Ok ())
      else
        let r = timed (contract_timing sig) ''timeout persisting contract state'' rows (persist_contract_state env c (stop_contracts sig) rows st) in
        case snd r of
          Ok _ \<Rightarrow>
            if stop_between sig then ((fst r, db), Ok ())
            else
              let r' = timed (stake_timing sig) ''timeout persisting stake chain state'' db (persist_stake_chain_state c' (stop_stakes sig) db st) in
              ((fst r, fst r'), snd r')
        | Err e \<Rightarrow> ((fst r, db), Err e)
        | Panic \<Rightarrow> ((fst r, db), Panic))"

section \<open>What the handlers leave alone\<close>

declare process_contract_event.simps [simp del]

lemma and_then_fst:
  assumes "P (fst r)" and "\<And>s a. P s \<Longrightarrow> snd r = Ok a \<Longrightarrow> P (fst (f s a))"
  shows "P (fst (and_then r f))"
  using assms by (auto simp: and_then_def split: outcome.split)

lemma and_then_fst_from:
  assumes "Q (fst r)" and "\<And>s. Q s \<Longrightarrow> P s" and "\<And>s a. Q s \<Longrightarrow> P (fst (f s a))"
  shows "P (fst (and_then r f))"
  using assms by (auto simp: and_then_def split: outcome.split)

lemma or_return_fst:
  assumes "P s" and "\<And>a. x = Ok a \<Longrightarrow> P (fst (f a))"
  shows "P (fst (or_return s x f))"
  using assms by (cases x) auto

lemma and_then_Ok_iff: "and_then r f = (s, Ok b) \<longleftrightarrow> (\<exists>s' a. r = (s', Ok a) \<and> f s' a = (s, Ok b))"
  by (cases r) (auto simp: and_then_def split: outcome.splits)

lemma or_return_Ok_iff: "or_return s x f = (s', Ok b) \<longleftrightarrow> (\<exists>a. x = Ok a \<and> f a = (s', Ok b))"
  by (cases x) auto

text \<open>The configurations of the contracts, and the frame of the handlers that keep them.\<close>

definition contract_cfgs :: "contract_manager \<Rightarrow> (txid, contract_cfg) btree_map" where
  "contract_cfgs m = bt_map_values csm_cfg (active_contracts m)"

definition mgr_frame :: "contract_manager \<Rightarrow> contract_manager \<Rightarrow> bool" where
  "mgr_frame m m' \<longleftrightarrow> contract_cfgs m' = contract_cfgs m \<and> contract_rows m' = contract_rows m"

lemma mgr_frame_refl [simp, intro]: "mgr_frame m m"
  by (simp add: mgr_frame_def)

lemma event_keeps_cfg [simp]: "csm_cfg (fst (process_contract_event env sm ev)) = csm_cfg sm"
  using csm_step_cfg [of env sm ev] by (simp add: csm_step_def)

lemma insert_keeps_cfgs:
  assumes "bt_get active key = Some sm" and "csm_cfg sm' = csm_cfg sm"
  shows "bt_map_values csm_cfg (bt_insert key sm' active) = bt_map_values csm_cfg active"
  using assms by (intro bt.get_ext) auto

lemma dispatch_frame:
  assumes "mgr_frame m0 m" and "bt_get (active_contracts m) key = Some sm"
  shows "mgr_frame m0 (fst (dispatch_event env m key sm ev))"
  using assms insert_keeps_cfgs [OF assms(2), of "fst (process_contract_event (mgr_csm env) sm ev)"]
  by (simp add: mgr_frame_def contract_cfgs_def dispatch_event_def Let_def)

lemma assign_entries_frame:
  "mgr_frame m0 m \<Longrightarrow> mgr_frame m0 (fst (assign_entries env cfg cp entries m duties))"
proof (induction entries arbitrary: m duties)
  case (Cons e entries)
  obtain deposit_txid entry where e: "e = (deposit_txid, entry)"
    by (cases e)
  show ?case
  proof (cases "bt_get (active_contracts m) deposit_txid")
    case None
    then show ?thesis using Cons.prems e by simp
  next
    case (Some sm)
    have step: "mgr_frame m0 (fst (and_then (dispatch_event env m deposit_txid sm ev) (\<lambda>m new_duties.
        assign_entries env cfg cp entries m (duties @ new_duties))))" for ev
      by (rule and_then_fst [where P = "mgr_frame m0"]) (rule dispatch_frame [OF Cons.prems Some], rule Cons.IH)
    show ?thesis
      unfolding e assign_entries.simps Some option.case
      using Cons step
      by (intro or_return_fst [where P = "mgr_frame m0"])
        (auto intro!: or_return_fst [where P = "mgr_frame m0"] split: outcome.split option.split)
  qed
qed simp

lemma process_assignments_frame: "mgr_frame m (fst (process_assignments env cfg m tx))"
  unfolding process_assignments_def
  by (rule or_return_fst [where P = "mgr_frame m"]) (auto intro: assign_entries_frame split: option.split)

lemma each_contract_cfgs:
  assumes "\<And>sm. csm_cfg (fst (f sm)) = csm_cfg sm"
  shows "bt_map_values csm_cfg active = cfgs \<Longrightarrow>
    bt_map_values csm_cfg (fst (each_contract f keys active duties)) = cfgs"
proof (induction keys arbitrary: active duties)
  case (Cons key keys)
  show ?case
  proof (cases "bt_get active key")
    case None
    then show ?thesis using Cons by simp
  next
    case (Some sm)
    have "bt_map_values csm_cfg (bt_insert key (fst (f sm)) active) = cfgs"
      using insert_keeps_cfgs [OF Some assms] Cons.prems by simp
    then show ?thesis
      unfolding each_contract.simps Some option.case Let_def
      by (intro and_then_fst [where P = "\<lambda>active. bt_map_values csm_cfg active = cfgs"] Cons.IH) simp_all
  qed
qed simp

lemma for_contracts_frame:
  assumes "\<And>sm. csm_cfg (fst (f sm)) = csm_cfg sm" and "mgr_frame m0 m"
  shows "mgr_frame m0 (fst (for_contracts f m))"
  using assms(2) each_contract_cfgs [of f "active_contracts m", OF assms(1) refl]
  by (simp add: for_contracts_def Let_def mgr_frame_def contract_cfgs_def)

lemma confirm_graph_tx_cfg: "csm_cfg (fst (confirm_graph_tx env height tx sm)) = csm_cfg sm"
  unfolding confirm_graph_tx_def
  by (auto simp: Let_def intro!: or_return_fst [where P = "\<lambda>sm'. csm_cfg sm' = csm_cfg sm"])

lemma announce_block_cfg: "csm_cfg (fst (announce_block env height sm)) = csm_cfg sm"
  by (simp add: announce_block_def Let_def)

lemma confirm_deposit_frame:
  assumes "mgr_frame m0 m" and "bt_get (active_contracts m) key = Some sm"
  shows "mgr_frame m0 (fst (confirm_deposit env m height key sm tx))"
  using assms(1) dispatch_frame [OF assms, of env "DepositConfirmation tx"]
  by (auto simp: confirm_deposit_def Let_def split: outcome.split)

lemma route_block_tx_frame:
  assumes "mgr_frame m0 m"
  shows "mgr_frame m0 (fst (route_block_tx env height tx m new duties request))"
proof -
  let ?txid = "env_compute_txid (btc (bridge (mgr_csm env))) tx"
  have "mgr_frame m0 (fst (case bt_get (active_contracts m) ?txid of
      Some sm \<Rightarrow> confirm_deposit env m height ?txid sm tx
    | None \<Rightarrow> for_contracts (confirm_graph_tx env height tx) m))"
    using confirm_deposit_frame [OF assms] for_contracts_frame [OF confirm_graph_tx_cfg assms]
    by (auto split: option.split)
  then have "mgr_frame m0 (fst (and_then (case bt_get (active_contracts m) ?txid of
      Some sm \<Rightarrow> confirm_deposit env m height ?txid sm tx
    | None \<Rightarrow> for_contracts (confirm_graph_tx env height tx) m) (\<lambda>m new_duties. (m, Ok (new, duties @ new_duties)))))"
    by (rule and_then_fst [where P = "mgr_frame m0"]) simp
  with assms show ?thesis
    by (simp add: route_block_tx_def Let_def split: request_outcome.split)
qed

lemma process_block_tx_frame:
  assumes "mgr_frame m0 m"
  shows "mgr_frame m0 (fst (process_block_tx env cfg height pov_key offset tx m new duties))"
  unfolding process_block_tx_def
proof (rule and_then_fst [where P = "mgr_frame m0"])
  show "mgr_frame m0 (fst (process_assignments env cfg m tx))"
    using assms process_assignments_frame [of m env cfg tx] by (simp add: mgr_frame_def)
qed (auto intro!: or_return_fst [where P = "mgr_frame m0"] route_block_tx_frame)

section \<open>New contracts\<close>

definition new_contract_ok :: "manager_env \<Rightarrow> execution_config \<Rightarrow> contract_manager \<Rightarrow> u32 \<Rightarrow> contract_sm \<Rightarrow> bool" where
  "new_contract_ok env cfg m idx sm \<longleftrightarrow>
     cfg_deposit_idx (csm_cfg sm) = idx \<and> load_params_of (csm_cfg sm) = config_params cfg \<and>
     bt_get (contract_cfgs m) (cfg_deposit_txid (mgr_csm env) (csm_cfg sm)) = None"

definition new_contracts_ok ::
    "manager_env \<Rightarrow> execution_config \<Rightarrow> contract_manager \<Rightarrow> u32 \<Rightarrow> contract_sm list \<Rightarrow> bool" where
  "new_contracts_ok env cfg m offset new \<longleftrightarrow>
     (\<forall>i < length new. new_contract_ok env cfg m (offset + of_nat i) (new ! i))"

lemma new_contracts_ok_frame: "mgr_frame m0 m \<Longrightarrow> new_contract_ok env cfg m = new_contract_ok env cfg m0"
  by (intro ext) (simp add: new_contract_ok_def mgr_frame_def)

lemma request_accepted:
  assumes "process_deposit_request env cfg m height pov_key idx tx = Ok (RequestAccepted sm duty)"
  shows "new_contract_ok env cfg m idx sm"
proof -
  let ?benv = "bridge (mgr_csm env)"
  let ?cfg = "\<lambda>deposit_tx. \<lparr>cfg_operator_table = ec_operator_table cfg, cfg_connector_params = ec_connector_params cfg,
       cfg_graph_params = ec_graph_params cfg, cfg_stake_chain_params = ec_stake_chain_params cfg,
       cfg_deposit_idx = idx, cfg_deposit_tx = deposit_tx\<rparr>"
  obtain ctx where 1: "(case deposit_request_info ?benv tx (ec_address_length cfg) (ec_graph_params cfg) ctx idx of
      Ok (Some data) \<Rightarrow>
        (case deposit_tx_new ?benv data ctx (ec_graph_params cfg) (ec_address_length cfg) of
           Ok deposit_tx \<Rightarrow>
             if bt_get (active_contracts m) (ct_txid (graph_lib ?benv) deposit_tx) \<noteq> None then Ok RequestSkipped
             else
               bind_outcome (expect (bt_get (stake_chains (mgr_stake_chains m)) pov_key)) (\<lambda>inputs.
               bind_outcome (add_u64 (mgr_csm env) height (ucast (refund_delay (ec_graph_params cfg)))) (\<lambda>abort_at.
               bind_outcome (contract_sm_new (?cfg deposit_tx) height abort_at) (\<lambda>sm.
                 Ok (RequestAccepted sm (PublishDepositSetup (cfg_deposit_txid (mgr_csm env) (?cfg deposit_tx)) idx inputs)))))
         | Err _ \<Rightarrow> Ok RequestSkipped
         | Panic \<Rightarrow> Panic)
    | Ok None \<Rightarrow> Ok NotARequest | Err _ \<Rightarrow> Ok NotARequest | Panic \<Rightarrow> Panic) = (Ok (RequestAccepted sm duty) :: (manager_err, _) outcome)"
    using assms unfolding process_deposit_request_def Let_def bind_outcome_Ok_iff [of "tx_build_context _ _"] by blast
  obtain data where 2: "deposit_request_info ?benv tx (ec_address_length cfg) (ec_graph_params cfg) ctx idx = Ok (Some data)"
    using 1 by (cases "deposit_request_info ?benv tx (ec_address_length cfg) (ec_graph_params cfg) ctx idx")
      (simp_all split: option.splits)
  obtain deposit_tx where 3: "deposit_tx_new ?benv data ctx (ec_graph_params cfg) (ec_address_length cfg) = Ok deposit_tx"
    using 1 2 by (cases "deposit_tx_new ?benv data ctx (ec_graph_params cfg) (ec_address_length cfg)") simp_all
  have fresh: "bt_get (active_contracts m) (ct_txid (graph_lib ?benv) deposit_tx) = None"
    using 1 2 3 by (cases "bt_get (active_contracts m) (ct_txid (graph_lib ?benv) deposit_tx)") simp_all
  obtain abort_at where sm: "contract_sm_new (?cfg deposit_tx) height abort_at = (Ok sm :: (manager_err, _) outcome)"
    using 1 2 3 fresh by (auto simp: bind_outcome_Ok_iff)
  have "csm_cfg sm = \<lparr>cfg_operator_table = ec_operator_table cfg, cfg_connector_params = ec_connector_params cfg,
       cfg_graph_params = ec_graph_params cfg, cfg_stake_chain_params = ec_stake_chain_params cfg,
       cfg_deposit_idx = idx, cfg_deposit_tx = deposit_tx\<rparr>"
    using sm by (auto simp: contract_sm_new_def bind_outcome_Ok_iff)
  then show ?thesis
    using fresh
    by (simp add: new_contract_ok_def load_params_of_def config_params_def contract_cfgs_def cfg_deposit_txid_def)
qed

lemma new_contracts_ok_snoc:
  "new_contracts_ok env cfg m offset new \<Longrightarrow> new_contract_ok env cfg m (offset + of_nat (length new)) sm \<Longrightarrow>
   new_contracts_ok env cfg m offset (new @ [sm])"
  by (auto simp: new_contracts_ok_def nth_append less_Suc_eq)

lemma process_block_tx_new:
  assumes "mgr_frame m0 m" and "new_contracts_ok env cfg m0 offset new"
    and "process_block_tx env cfg height pov_key offset tx m new duties = (m', Ok (new', duties'))"
  shows "new_contracts_ok env cfg m0 offset new' \<and> length new' \<le> length new + 1"
proof -
  obtain m1 ad where m1: "process_assignments env cfg m tx = (m1, Ok ad)"
    and rest: "(if ad \<noteq> [] then (m1, Ok (new, duties @ ad)) else
     or_return m1 (add_u32 (mgr_csm env) offset (of_nat (length new))) (\<lambda>deposit_idx.
     or_return m1 (process_deposit_request env cfg m1 height pov_key deposit_idx tx)
       (route_block_tx env height tx m1 new duties))) = (m', Ok (new', duties'))"
    using assms(3) unfolding process_block_tx_def and_then_Ok_iff by blast
  have fr: "mgr_frame m0 m1"
    using process_assignments_frame [of m env cfg tx] m1 assms(1) by (simp add: mgr_frame_def)
  show ?thesis
  proof (cases "new' = new")
    case False
    then obtain idx request where idx: "add_u32 (mgr_csm env) offset (of_nat (length new)) = (Ok idx :: (manager_err, _) outcome)"
      and request: "process_deposit_request env cfg m1 height pov_key idx tx = Ok request"
      and final: "route_block_tx env height tx m1 new duties request = (m', Ok (new', duties'))"
      using rest by (auto simp: or_return_Ok_iff split: if_splits)
    then obtain sm duty where req: "request = RequestAccepted sm duty" and new: "new' = new @ [sm]"
      using False by (cases request) (auto simp: route_block_tx_def and_then_Ok_iff Let_def)
    have "new_contract_ok env cfg m0 (offset + of_nat (length new)) sm"
      using request_accepted [OF request [unfolded req]] idx new_contracts_ok_frame [OF fr, of env cfg]
      by (auto simp: add_u32_def split: if_splits)
    then show ?thesis
      using new_contracts_ok_snoc [OF assms(2)] new by simp
  qed (use assms(2) in simp)
qed

lemma process_block_txs_new:
  assumes "mgr_frame m0 m" and "new_contracts_ok env cfg m0 offset new"
  shows "mgr_frame m0 (fst (process_block_txs env cfg height pov_key offset txs m new duties)) \<and>
    (\<forall>new' duties'. snd (process_block_txs env cfg height pov_key offset txs m new duties) = Ok (new', duties') \<longrightarrow>
       new_contracts_ok env cfg m0 offset new' \<and> length new' \<le> length new + length txs)"
  using assms
proof (induction txs arbitrary: m new duties)
  case (Cons tx txs)
  obtain m1 r where r: "process_block_tx env cfg height pov_key offset tx m new duties = (m1, r)"
    by fastforce
  have fr: "mgr_frame m0 m1"
    using process_block_tx_frame [OF Cons.prems(1), of env cfg height pov_key offset tx new duties] r by simp
  show ?case
  proof (cases r)
    case (Ok p)
    obtain new1 duties1 where p: "p = (new1, duties1)"
      by (cases p)
    have ok: "new_contracts_ok env cfg m0 offset new1 \<and> length new1 \<le> length new + 1"
      using process_block_tx_new [OF Cons.prems] r Ok p by blast
    then show ?thesis
      using Cons.IH [OF fr, of new1 duties1] by (fastforce simp: r Ok p and_then_def)
  qed (use fr in \<open>simp_all add: r and_then_def\<close>)
qed simp

section \<open>Deposit indices and rows\<close>

text \<open>
  The invariant of the contracts in memory, in terms of their configurations: every contract is stored
  under the id of its deposit transaction and has the parameters of the node, no two have the same
  deposit index, and the indices are below a bound that counts the transactions seen. The rows on disk
  belong to contracts in memory.
\<close>

definition cfgs_ok :: "manager_env \<Rightarrow> execution_config \<Rightarrow> nat \<Rightarrow> (txid, contract_cfg) btree_map \<Rightarrow> bool" where
  "cfgs_ok env cfg bound cfgs \<longleftrightarrow>
     (\<forall>key c. bt_get cfgs key = Some c \<longrightarrow>
        cfg_deposit_txid (mgr_csm env) c = key \<and> load_params_of c = config_params cfg \<and> unat (cfg_deposit_idx c) < bound) \<and>
     (\<forall>key c key' c'. bt_get cfgs key = Some c \<longrightarrow> bt_get cfgs key' = Some c' \<longrightarrow>
        cfg_deposit_idx c = cfg_deposit_idx c' \<longrightarrow> key = key')"

definition rows_ok :: "(txid, contract_cfg) btree_map \<Rightarrow> contract_row list \<Rightarrow> bool" where
  "rows_ok cfgs rows \<longleftrightarrow>
     (\<forall>row \<in> set rows. \<exists>key c. bt_get cfgs key = Some c \<and> cfg_deposit_idx c = row_deposit_idx row)"

definition mgr_inv :: "manager_env \<Rightarrow> execution_config \<Rightarrow> nat \<Rightarrow> contract_manager \<Rightarrow> bool" where
  "mgr_inv env cfg bound m \<longleftrightarrow> cfgs_ok env cfg bound (contract_cfgs m) \<and> rows_ok (contract_cfgs m) (contract_rows m)"

lemma mgr_inv_frame: "mgr_frame m m' \<Longrightarrow> mgr_inv env cfg bound m \<Longrightarrow> mgr_inv env cfg bound m'"
  by (simp add: mgr_inv_def mgr_frame_def)

lemma cfgs_ok_mono: "cfgs_ok env cfg bound cfgs \<Longrightarrow> bound \<le> bound' \<Longrightarrow> cfgs_ok env cfg bound' cfgs"
  unfolding cfgs_ok_def by (meson order_less_le_trans)

lemma rows_ok_active: "rows_ok (contract_cfgs m) rows \<longleftrightarrow> (\<forall>row \<in> set rows. row_of_active (active_contracts m) row)"
proof -
  have "(\<exists>key c. bt_get (contract_cfgs m) key = Some c \<and> cfg_deposit_idx c = i) \<longleftrightarrow>
      (\<exists>sm \<in> set (bt_values (active_contracts m)). cfg_deposit_idx (csm_cfg sm) = i)" for i
    by (auto simp: contract_cfgs_def bt_set_values)
  then show ?thesis
    by (simp add: rows_ok_def row_of_active_def list_ex_iff)
qed

lemma cfgs_ok_storable:
  assumes "cfgs_ok env cfg bound (contract_cfgs m)"
  shows "storable (config_params cfg) (active_contracts m)"
proof -
  let ?a = "active_contracts m"
  have get: "bt_get (contract_cfgs m) key = Some c \<longleftrightarrow> (\<exists>sm. bt_get ?a key = Some sm \<and> csm_cfg sm = c)" for key c
    by (auto simp: contract_cfgs_def)
  have "inj_on (\<lambda>key. cfg_deposit_idx (csm_cfg (the (bt_get ?a key)))) (set (bt_keys ?a))"
    using assms unfolding cfgs_ok_def get by (auto intro!: inj_onI simp: bt_keys_get)
  then have "distinct (map (\<lambda>key. cfg_deposit_idx (csm_cfg (the (bt_get ?a key)))) (bt_keys ?a))"
    by (simp add: distinct_map)
  moreover have "load_params_of (csm_cfg sm) = config_params cfg" if "bt_get ?a key = Some sm" for key sm
    using assms that unfolding cfgs_ok_def get by blast
  ultimately show ?thesis
    unfolding storable_def by (auto simp: bt_values_map_keys comp_def bt_keys_get)
qed

lemma offset_above:
  assumes "cfgs_ok env cfg bound (contract_cfgs m)" and "bound < 2 ^ 32"
    and "deposit_idx_offset cenv m = Ok offset"
  shows "cfgs_ok env cfg (unat offset) (contract_cfgs m) \<and> unat offset \<le> bound"
proof -
  let ?idxs = "map (\<lambda>sm. cfg_deposit_idx (csm_cfg sm)) (bt_values (active_contracts m))"
  have in_idxs: "cfg_deposit_idx c \<in> set ?idxs" if "bt_get (contract_cfgs m) key = Some c" for key c
    using that by (auto simp: contract_cfgs_def bt_set_values)
  have idx_bound: "unat i < bound" if "i \<in> set ?idxs" for i
    using that assms(1) by (auto simp: cfgs_ok_def contract_cfgs_def bt_set_values)
  have le: "i \<le> foldr max xs 0" if "i \<in> set xs" for i and xs :: "u32 list"
    using that by (induction xs) (auto simp: le_max_iff_disj)
  have mem: "foldr max xs 0 \<in> insert 0 (set xs)" for xs :: "u32 list"
    by (induction xs) (auto simp: max_def)
  show ?thesis
  proof (cases "?idxs = []")
    case True
    then have "bt_get (contract_cfgs m) key = None" for key
      using in_idxs [of key] by (cases "bt_get (contract_cfgs m) key") auto
    then show ?thesis
      using assms(3) True by (simp add: deposit_idx_offset_def cfgs_ok_def)
  next
    case False
    then have off: "offset = foldr max ?idxs 0 + 1"
      using assms(3) by (auto simp: deposit_idx_offset_def Let_def add_u32_def split: if_splits)
    obtain i where "i \<in> set ?idxs"
      using False by (cases ?idxs) auto
    then have "unat (foldr max ?idxs 0) < bound"
      using mem [of ?idxs] idx_bound le_less_trans [of 0 "unat i" bound] by fastforce
    then have unat: "unat offset = unat (foldr max ?idxs 0) + 1" and "unat offset \<le> bound"
      using assms(2) unfolding off by (auto simp: unat_plus_if')
    have "unat (cfg_deposit_idx c) < unat offset" if "bt_get (contract_cfgs m) key = Some c" for key c
      using le [OF in_idxs [OF that]] unat by (simp add: word_le_nat_alt)
    then show ?thesis
      using assms(1) \<open>unat offset \<le> bound\<close> unfolding cfgs_ok_def by blast
  qed
qed

lemma insert_cfg_ok:
  assumes "cfgs_ok env cfg bound cfgs" and "unat (cfg_deposit_idx c) = bound"
    and "load_params_of c = config_params cfg"
  shows "cfgs_ok env cfg (bound + 1) (bt_insert (cfg_deposit_txid (mgr_csm env) c) c cfgs)"
proof -
  have other: "cfg_deposit_idx c' \<noteq> cfg_deposit_idx c" if "bt_get cfgs key = Some c'" for key c'
    using assms(1,2) that unfolding cfgs_ok_def by (metis less_irrefl)
  have old: "cfg_deposit_txid (mgr_csm env) c' = key \<and> load_params_of c' = config_params cfg \<and>
      unat (cfg_deposit_idx c') < bound" if "bt_get cfgs key = Some c'" for key c'
    using assms(1) that unfolding cfgs_ok_def by blast
  have inj: "key = key'" if "bt_get cfgs key = Some c1" "bt_get cfgs key' = Some c2"
    "cfg_deposit_idx c1 = cfg_deposit_idx c2" for key key' c1 c2
    using assms(1) that unfolding cfgs_ok_def by blast
  show ?thesis
    unfolding cfgs_ok_def
  proof (intro conjI allI impI, goal_cases)
    case (4 key c1 key' c2)
    then show ?case
      using other [of key c1] other [of key' c2] inj [of key c1 key' c2] by (auto split: if_splits)
  qed (use old assms(2,3) in \<open>auto simp: less_Suc_eq split: if_splits\<close>)
qed

lemma insert_contracts_cfgs:
  "bt_map_values csm_cfg (insert_contracts env new active) =
   foldl (\<lambda>cfgs c. bt_insert (cfg_deposit_txid env c) c cfgs) (bt_map_values csm_cfg active) (map csm_cfg new)"
proof (induction new arbitrary: active)
  case (Cons sm new)
  have "bt_map_values csm_cfg (bt_insert k sm active) = bt_insert k (csm_cfg sm) (bt_map_values csm_cfg active)" for k
    by (rule bt.get_ext) simp
  then show ?case
    using Cons.IH by (simp add: insert_contracts_def)
qed (simp add: insert_contracts_def)

lemma insert_cfgs_ok:
  assumes "cfgs_ok env cfg (unat offset) cfgs" and "unat offset + length cs < 2 ^ 32"
    and "\<forall>i < length cs. cfg_deposit_idx (cs ! i) = offset + of_nat i \<and> load_params_of (cs ! i) = config_params cfg"
  shows "cfgs_ok env cfg (unat offset + length cs) (foldl (\<lambda>cfgs c. bt_insert (cfg_deposit_txid (mgr_csm env) c) c cfgs) cfgs cs)"
  using assms
proof (induction cs rule: rev_induct)
  case (snoc c cs)
  have "cfgs_ok env cfg (unat offset + length cs) (foldl (\<lambda>cfgs c. bt_insert (cfg_deposit_txid (mgr_csm env) c) c cfgs) cfgs cs)"
  proof (rule snoc.IH)
    show "\<forall>i < length cs. cfg_deposit_idx (cs ! i) = offset + of_nat i \<and> load_params_of (cs ! i) = config_params cfg"
    proof (intro allI impI)
      fix i assume "i < length cs"
      then show "cfg_deposit_idx (cs ! i) = offset + of_nat i \<and> load_params_of (cs ! i) = config_params cfg"
        using snoc.prems(3) [rule_format, of i] by (simp add: nth_append)
    qed
  qed (use snoc.prems in simp_all)
  moreover have idx: "cfg_deposit_idx c = offset + of_nat (length cs)" and "load_params_of c = config_params cfg"
    using snoc.prems(3) [rule_format, of "length cs"] by simp_all
  moreover have "unat (offset + of_nat (length cs)) = unat offset + length cs"
  proof -
    have "unat (of_nat (length cs) :: u32) = length cs"
      using snoc.prems(2) by (simp add: unsigned_of_nat take_bit_nat_eq_self)
    then show ?thesis
      using snoc.prems(2) by (simp add: unat_plus_if')
  qed
  ultimately show ?case
    using insert_cfg_ok [of env cfg "unat offset + length cs" _ c] by simp
qed simp

lemma insert_cfgs_rows:
  assumes "rows_ok cfgs rows" and "\<forall>c \<in> set cs. bt_get cfgs (cfg_deposit_txid env c) = None"
  shows "rows_ok (foldl (\<lambda>cfgs c. bt_insert (cfg_deposit_txid env c) c cfgs) cfgs cs) rows"
proof -
  have "bt_get (foldl (\<lambda>cfgs c. bt_insert (cfg_deposit_txid env c) c cfgs) cfgs' cs) key = bt_get cfgs' key"
    if "key \<notin> cfg_deposit_txid env ` set cs" for key cfgs'
    using that by (induction cs arbitrary: cfgs') auto
  moreover have "key \<notin> cfg_deposit_txid env ` set cs" if "bt_get cfgs key = Some c" for key c
    using assms(2) that by auto
  ultimately show ?thesis
    using assms(1) unfolding rows_ok_def by (metis (no_types, lifting))
qed

lemma commit_contracts_inv:
  assumes "mgr_inv env cfg bound m"
  shows "mgr_inv env cfg bound (fst (commit_contracts env c m))"
proof (cases "snd (persister_commit_all (mgr_persist env) c (contract_rows m) (active_contracts m))")
  case (Ok u)
  obtain rows where rows: "persister_commit_all (mgr_persist env) c (contract_rows m) (active_contracts m) = (rows, Ok ())"
    using Ok by (metis prod.collapse unit.exhaust)
  have "rows_ok (contract_cfgs m) rows"
    using commit_all_keeps_active [OF cfgs_ok_storable _ rows] assms unfolding mgr_inv_def rows_ok_active by blast
  then show ?thesis
    using assms by (simp add: commit_contracts_def rows mgr_inv_def contract_cfgs_def)
qed (use assms in \<open>auto simp: commit_contracts_def persister_commit_all_def persist_tx_def mgr_inv_def contract_cfgs_def
      split: outcome.splits\<close>)

lemma insert_new_inv:
  assumes inv: "mgr_inv env cfg bound m" and room: "bound + n < 2 ^ 32"
    and offset: "deposit_idx_offset (mgr_csm env) m = Ok offset"
    and new: "new_contracts_ok env cfg m offset new" "length new \<le> n" and frame: "mgr_frame m m'"
  shows "mgr_inv env cfg (bound + n) (m'\<lparr>active_contracts := insert_contracts (mgr_csm env) new (active_contracts m')\<rparr>)"
proof -
  let ?ins = "foldl (\<lambda>cfgs c. bt_insert (cfg_deposit_txid (mgr_csm env) c) c cfgs) (contract_cfgs m) (map csm_cfg new)"
  have off: "cfgs_ok env cfg (unat offset) (contract_cfgs m)" "unat offset \<le> bound"
    using offset_above [OF _ _ offset, of env cfg bound] inv room by (auto simp: mgr_inv_def)
  have "cfgs_ok env cfg (unat offset + length (map csm_cfg new)) ?ins"
    using off new room by (intro insert_cfgs_ok) (auto simp: new_contracts_ok_def new_contract_ok_def)
  then have "cfgs_ok env cfg (bound + n) ?ins"
    using off(2) new(2) by (elim cfgs_ok_mono) simp
  moreover have "rows_ok ?ins (contract_rows m)"
    using inv new(1) by (intro insert_cfgs_rows)
      (auto simp: mgr_inv_def new_contracts_ok_def new_contract_ok_def in_set_conv_nth)
  ultimately show ?thesis
    using frame by (simp add: mgr_inv_def mgr_frame_def contract_cfgs_def insert_contracts_cfgs)
qed

lemma mgr_inv_weaken: "mgr_frame m m' \<Longrightarrow> mgr_inv env cfg bound m \<Longrightarrow> mgr_inv env cfg (bound + n) m'"
  using cfgs_ok_mono [of env cfg bound "contract_cfgs m'" "bound + n"] mgr_inv_frame [of m m' env cfg bound]
  by (auto simp: mgr_inv_def)

lemma process_block_inv:
  assumes inv: "mgr_inv env cfg bound m" and room: "bound + length (txdata blk) < 2 ^ 32"
  shows "mgr_inv env cfg (bound + length (txdata blk)) (fst (process_block env cfg c m blk))"
proof -
  let ?n = "length (txdata blk)"
  let ?P = "mgr_inv env cfg (bound + ?n)"
  let ?height = "case block_bip34_height env blk of Some h \<Rightarrow> h | None \<Rightarrow> 0"
  have "?P (fst (and_then (process_block_txs env cfg ?height pov_key offset (txdata blk) m [] []) (\<lambda>m (new_contracts, duties).
      and_then (for_contracts (announce_block env ?height) m) (\<lambda>m block_duties.
      and_then (commit_contracts env c (m\<lparr>active_contracts := insert_contracts (mgr_csm env) new_contracts (active_contracts m)\<rparr>))
        (\<lambda>m _. (m, Ok (duties @ block_duties)))))))" (is "?P (fst (and_then ?txs ?rest))")
    if offset: "deposit_idx_offset (mgr_csm env) m = Ok offset" for pov_key offset
  proof (cases "snd ?txs")
    case (Ok p)
    obtain new duties where p: "p = (new, duties)"
      by (cases p)
    have "new_contracts_ok env cfg m offset []"
      by (simp add: new_contracts_ok_def)
    from process_block_txs_new [OF mgr_frame_refl this]
    have txs: "mgr_frame m (fst ?txs)" "new_contracts_ok env cfg m offset new" "length new \<le> ?n"
      using Ok p by fastforce+
    have "mgr_frame m (fst (for_contracts (announce_block env ?height) (fst ?txs)))" (is "mgr_frame m ?m")
      by (rule for_contracts_frame [OF announce_block_cfg txs(1)])
    then have "?P (?m\<lparr>active_contracts := insert_contracts (mgr_csm env) new (active_contracts ?m)\<rparr>)" "?P ?m"
      by (rule insert_new_inv [OF inv room offset txs(2,3)], rule mgr_inv_weaken [OF _ inv])
    then show ?thesis
      using commit_contracts_inv [of env cfg "bound + ?n"]
      by (simp add: and_then_def Ok p split: outcome.split)
  next
    case (Err e)
    then show ?thesis
      using process_block_txs_new [OF mgr_frame_refl, of env cfg m offset "[]"] mgr_inv_weaken [OF _ inv]
      by (simp add: and_then_def new_contracts_ok_def)
  next
    case Panic
    then show ?thesis
      using process_block_txs_new [OF mgr_frame_refl, of env cfg m offset "[]"] mgr_inv_weaken [OF _ inv]
      by (simp add: and_then_def new_contracts_ok_def)
  qed
  then show ?thesis
    unfolding process_block_def Let_def
    by (intro or_return_fst [where P = ?P] mgr_inv_weaken [OF mgr_frame_refl inv])
qed

section \<open>Runs\<close>

lemma commit_contract_inv:
  assumes "mgr_inv env cfg bound m" and "bt_get (active_contracts m) key = Some sm"
  shows "mgr_inv env cfg bound (fst (commit_contract env c m txid sm))"
proof -
  let ?r = "persister_commit (mgr_persist env) c (contract_rows m) txid (cfg_deposit_idx (csm_cfg sm))
      (cfg_deposit_tx (csm_cfg sm)) (cfg_operator_table (csm_cfg sm)) (csm_state sm)"
  have "rows_ok (contract_cfgs m) (fst ?r)"
  proof (cases "snd ?r")
    case (Ok u)
    then obtain row rows where row: "serialize_contract (mgr_persist env) txid (cfg_deposit_idx (csm_cfg sm))
        (cfg_deposit_tx (csm_cfg sm)) (cfg_operator_table (csm_cfg sm)) (csm_state sm) = Ok row"
      and rows: "persist_call c (Ok (replace_row row (contract_rows m))) = Ok rows" "fst ?r = rows"
      by (auto simp: persister_commit_def persist_tx_def bind_outcome_Ok_iff split: outcome.splits)
    have "row_deposit_idx row = cfg_deposit_idx (csm_cfg sm)"
      using serialize_contract_Ok(2) [OF row] .
    moreover have "bt_get (contract_cfgs m) key = Some (csm_cfg sm)"
      using assms(2) by (simp add: contract_cfgs_def)
    ultimately show ?thesis
      using assms(1) persist_call_Ok_D [OF rows(1)] rows(2)
      by (auto simp: mgr_inv_def rows_ok_def replace_row_def)
  qed (use assms(1) in \<open>auto simp: persister_commit_def persist_tx_def mgr_inv_def split: outcome.splits\<close>)
  then show ?thesis
    using assms(1) by (simp add: commit_contract_def Let_def mgr_inv_def contract_cfgs_def)
qed

lemma dispatch_inv:
  assumes "mgr_inv env cfg bound m" and "bt_get (active_contracts m) key = Some sm"
  shows "mgr_inv env cfg bound (fst (dispatch_event env m key sm ev))"
  using mgr_inv_frame [OF dispatch_frame [OF mgr_frame_refl assms(2)] assms(1)] .

lemma mgr_inv_other_fields:
  "mgr_inv env cfg bound m \<Longrightarrow> contract_cfgs m' = contract_cfgs m \<Longrightarrow> contract_rows m' = contract_rows m \<Longrightarrow> mgr_inv env cfg bound m'"
  by (simp add: mgr_inv_def)

lemma find_by_request_in:
  "find_by_request txid es = Ok (Some (key, sm)) \<Longrightarrow> (key, sm) \<in> set es"
  by (induction txid es rule: find_by_request.induct) (auto simp: bind_outcome_Ok_iff split: if_splits)

lemma find_by_claim_in: "find_by_claim m txid = Some (key, sm) \<Longrightarrow> bt_get (active_contracts m) key = Some sm"
  by (auto simp: find_by_claim_def bind_eq_Some_conv)

lemma exchange_msg_inv:
  "mgr_inv env cfg bound m \<Longrightarrow> mgr_inv env cfg bound (fst (process_exchange_msg c m key sender_id pre_stake))"
  unfolding process_exchange_msg_def Let_def
  by (rule and_then_fst [where P = "mgr_inv env cfg bound"])
    (auto elim!: mgr_inv_other_fields simp: contract_cfgs_def)

lemma nonces_msg_inv:
  assumes "mgr_inv env cfg bound m"
  shows "mgr_inv env cfg bound (fst (process_nonces_msg env m key txid nonces))"
proof (cases "find_by_claim m txid")
  case (Some p)
  then show ?thesis
    using dispatch_inv [OF assms find_by_claim_in] by (cases p) (simp add: process_nonces_msg_def)
next
  case None
  have root: "mgr_inv env cfg bound (fst (dispatch_event env m k sm ev))"
    if "find_by_request txid (bt_entries (active_contracts m)) = (Ok (Some (k, sm)) :: (manager_err, _) outcome)" for k sm ev
    using dispatch_inv [OF assms] find_by_request_in [OF that] by (simp add: bt_get_Some_iff)
  then show ?thesis
    unfolding process_nonces_msg_def None option.case
    by (intro or_return_fst [where P = "mgr_inv env cfg bound"]) (auto simp: assms split: option.split)
qed

lemma sigs_msg_inv:
  assumes "mgr_inv env cfg bound m"
  shows "mgr_inv env cfg bound (fst (process_sigs_msg env c m key txid sigs))"
proof (cases "find_by_claim m txid")
  case (Some p)
  obtain k sm where p: "p = (k, sm)"
    by (cases p)
  have "mgr_inv env cfg bound (fst (dispatch_event env m k sm ev))" for ev
    using dispatch_inv [OF assms find_by_claim_in] Some p by simp
  then show ?thesis
    unfolding process_sigs_msg_def Some p option.case prod.case
    by (intro and_then_fst [where P = "mgr_inv env cfg bound"])
      (auto intro!: and_then_fst [where P = "mgr_inv env cfg bound"] commit_contract_inv split: option.split)
next
  case None
  have root: "mgr_inv env cfg bound (fst (dispatch_event env m k sm ev))"
    if "find_by_request txid (bt_entries (active_contracts m)) = (Ok (Some (k, sm)) :: (manager_err, _) outcome)" for k sm ev
    using dispatch_inv [OF assms] find_by_request_in [OF that] by (simp add: bt_get_Some_iff)
  then show ?thesis
    unfolding process_sigs_msg_def None option.case
    by (intro or_return_fst [where P = "mgr_inv env cfg bound"]) (auto simp: assms split: option.split list.split)
qed

lemma setup_msg_inv:
  assumes "mgr_inv env cfg bound m"
  shows "mgr_inv env cfg bound (fst (process_setup_msg env cfg c c' m key deposit_txid setup))"
proof (cases "bt_get (active_contracts m) deposit_txid")
  case None
  then show ?thesis using assms by (simp add: process_setup_msg_def)
next
  case (Some sm)
  let ?P = "mgr_inv env cfg bound"
  let ?Q = "\<lambda>m'. ?P m' \<and> active_contracts m' = active_contracts m"
  let ?tail = "\<lambda>m duties. let m = m\<lparr>claim_index := index_claims deposit_txid duties (claim_index m)\<rparr> in
      if duties = [] then (m, Ok [])
      else case bt_get (active_contracts m) deposit_txid of
          None \<Rightarrow> (m, Ok duties)
        | Some sm \<Rightarrow> and_then (commit_contract env c' m deposit_txid sm) (\<lambda>m _. (m, Ok duties))"
  have tail: "?P (fst (?tail m' duties))" if "?P m'" for m' duties
  proof -
    let ?m = "m'\<lparr>claim_index := index_claims deposit_txid duties (claim_index m')\<rparr>"
    have "?P ?m"
      by (rule mgr_inv_other_fields [OF that]) (simp_all add: contract_cfgs_def)
    then show ?thesis
      unfolding Let_def
      by (auto intro!: and_then_fst [where P = ?P] commit_contract_inv split: option.split)
  qed
  have event: "?P (fst (and_then (dispatch_event env m' deposit_txid sm ev) ?tail))" if "?Q m'" for m' ev
    using that Some by (intro and_then_fst [where P = ?P] dispatch_inv tail) simp_all
  have stakes: "?Q (m'\<lparr>mgr_stake_chains := x\<rparr>)" "?Q (m'\<lparr>stake_db := y\<rparr>)" if "?Q m'" for m' x y
    using that mgr_inv_other_fields [of env cfg bound m'] by (simp_all add: contract_cfgs_def)
  show ?thesis
    unfolding process_setup_msg_def Some option.case Let_def [of "process_setup _ _ _ _"]
      Let_def [of "commit_stake_data _ _ _ _"] Let_def [of "cfg_deposit_idx _"]
    using stakes assms
    by (intro and_then_fst_from [where P = ?P and Q = ?Q])
      (auto intro!: and_then_fst_from [where P = ?P and Q = ?Q] or_return_fst [where P = ?P] event split: option.split)
qed

lemma gossip_inv:
  assumes "mgr_inv env cfg bound m"
  shows "mgr_inv env cfg bound (fst (process_unsigned_gossip_msg env cfg c c' m msg key sender_id))"
  using exchange_msg_inv [OF assms] setup_msg_inv [OF assms] nonces_msg_inv [OF assms] sigs_msg_inv [OF assms]
  by (cases msg) simp_all

fun event_txs :: "loop_event \<Rightarrow> nat" where
  "event_txs (BlockNotice ev _) = length (txdata (ev_block ev))"
| "event_txs _ = 0"

definition loop_run :: "manager_env \<Rightarrow> execution_config \<Rightarrow> contract_manager \<Rightarrow> loop_event list \<Rightarrow> contract_manager" where
  "loop_run env cfg m evs = foldl (\<lambda>m ev. fst (loop_step env cfg m ev)) m evs"

lemma loop_step_inv:
  assumes "mgr_inv env cfg bound m" and "bound + event_txs ev < 2 ^ 32" and "ev \<noteq> ShutdownSignal"
  shows "mgr_inv env cfg (bound + event_txs ev) (fst (loop_step env cfg m ev))"
proof (cases ev)
  case (BlockNotice be c)
  then show ?thesis
    using assms(2) process_block_inv [OF assms(1), of "ev_block be" c] mgr_inv_weaken [OF mgr_frame_refl assms(1)]
    by (simp add: Let_def)
next
  case (OuroborosMsg msg c c')
  then show ?thesis
    using assms(1) gossip_inv [OF assms(1)]
    by (auto simp: tolerate_def intro!: or_return_fst [where P = "mgr_inv env cfg bound"])
next
  case (PeerMessage key msg c c')
  then show ?thesis
    using assms(1) gossip_inv [OF assms(1)]
    by (auto simp: tolerate_def process_p2p_message_def intro!: or_return_fst [where P = "mgr_inv env cfg bound"])
qed (use assms in \<open>auto simp: tolerate_def answer_request_def split: outcome.split\<close>)

lemma loop_run_inv:
  assumes "mgr_inv env cfg bound m" and "bound + sum_list (map event_txs evs) < 2 ^ 32" and "ShutdownSignal \<notin> set evs"
  shows "mgr_inv env cfg (bound + sum_list (map event_txs evs)) (loop_run env cfg m evs)"
  using assms
proof (induction evs arbitrary: m bound)
  case (Cons ev evs)
  have "mgr_inv env cfg (bound + event_txs ev) (fst (loop_step env cfg m ev))"
    using Cons.prems by (intro loop_step_inv) auto
  then show ?case
    using Cons.IH [of "bound + event_txs ev" "fst (loop_step env cfg m ev)"] Cons.prems(2,3)
    by (simp add: loop_run_def add.assoc)
qed (simp add: loop_run_def)

definition fresh_manager :: "contract_manager \<Rightarrow> bool" where
  "fresh_manager m \<longleftrightarrow> bt_entries (active_contracts m) = [] \<and> contract_rows m = []"

lemma fresh_inv: "fresh_manager m \<Longrightarrow> mgr_inv env cfg 0 m"
proof -
  assume fresh: "fresh_manager m"
  then have "active_contracts m = bt_empty"
    by (simp add: fresh_manager_def bt_eq_iff)
  then show ?thesis
    using fresh by (simp add: mgr_inv_def cfgs_ok_def rows_ok_def contract_cfgs_def fresh_manager_def)
qed

lemma run_inv:
  assumes "fresh_manager m0" and "sum_list (map event_txs evs) < 2 ^ 32" and "ShutdownSignal \<notin> set evs"
  shows "mgr_inv env cfg (sum_list (map event_txs evs)) (loop_run env cfg m0 evs)"
  using loop_run_inv [OF fresh_inv [OF assms(1)], of evs] assms(2,3) by simp

text \<open>
  (C7) Deposits are kept apart. Whatever events a fresh manager has gone through, as long as its blocks
  had fewer than \<open>2 ^ 32\<close> transactions in total, every contract is stored under the id of its own
  deposit transaction with the parameters of the node, and two contracts never share a deposit index.
\<close>
theorem deposit_indices_unique:
  assumes "fresh_manager m0" and "sum_list (map event_txs evs) < 2 ^ 32" and "ShutdownSignal \<notin> set evs"
    and "m = loop_run env cfg m0 evs"
    and "bt_get (active_contracts m) key = Some sm" and "bt_get (active_contracts m) key' = Some sm'"
  shows "cfg_deposit_txid (mgr_csm env) (csm_cfg sm) = key \<and> load_params_of (csm_cfg sm) = config_params cfg \<and>
    (cfg_deposit_idx (csm_cfg sm) = cfg_deposit_idx (csm_cfg sm') \<longrightarrow> key = key' \<and> sm = sm')"
proof -
  have ok: "cfgs_ok env cfg (sum_list (map event_txs evs)) (contract_cfgs m)"
    using run_inv [OF assms(1-3)] assms(4) by (simp add: mgr_inv_def)
  have get: "bt_get (contract_cfgs m) key = Some (csm_cfg sm)" "bt_get (contract_cfgs m) key' = Some (csm_cfg sm')"
    using assms(5,6) by (simp_all add: contract_cfgs_def)
  have "cfg_deposit_txid (mgr_csm env) (csm_cfg sm) = key \<and> load_params_of (csm_cfg sm) = config_params cfg"
    using ok get(1) unfolding cfgs_ok_def by blast
  moreover have "cfg_deposit_idx (csm_cfg sm) = cfg_deposit_idx (csm_cfg sm') \<Longrightarrow> key = key'"
    using ok get unfolding cfgs_ok_def by blast
  ultimately show ?thesis
    using assms(5,6) by auto
qed

lemma collect_map_values: "bt_collect (map (\<lambda>(k, v). (k, f v)) (bt_entries m)) = bt_map_values f m"
proof (rule bt.get_ext)
  fix k
  have "distinct (map fst (map (\<lambda>(k, v). (k, f v)) (bt_entries m)))"
    using bt_keys_distinct [of m] by (simp add: bt_keys_def comp_def case_prod_unfold)
  then have "bt_get (bt_collect (map (\<lambda>(k, v). (k, f v)) (bt_entries m))) k = Some w \<longleftrightarrow> bt_get (bt_map_values f m) k = Some w" for w
    by (auto simp: bt_get_collect_distinct bt_get_Some_iff)
  then show "bt_get (bt_collect (map (\<lambda>(k, v). (k, f v)) (bt_entries m))) k = bt_get (bt_map_values f m) k"
    by (rule option_eqI)
qed

lemma restore_saved:
  assumes "cfgs_ok env cfg bound (contract_cfgs m)"
  shows "restore_contracts (mgr_csm env) (map (\<lambda>sm. (csm_cfg sm, csm_state sm)) (bt_values (active_contracts m))) =
    bt_map_values clear_pog_cache (active_contracts m)"
proof -
  have "cfg_deposit_txid (mgr_csm env) (csm_cfg sm) = key" if "(key, sm) \<in> set (bt_entries (active_contracts m))" for key sm
  proof -
    have "bt_get (contract_cfgs m) key = Some (csm_cfg sm)"
      using that by (auto simp: contract_cfgs_def simp flip: bt_get_Some_iff)
    then show ?thesis
      using assms unfolding cfgs_ok_def by blast
  qed
  then have "map (\<lambda>sm. (cfg_deposit_txid (mgr_csm env) (csm_cfg sm), contract_sm_restore (csm_cfg sm) (csm_state sm)))
      (bt_values (active_contracts m)) = map (\<lambda>(key, sm). (key, clear_pog_cache sm)) (bt_entries (active_contracts m))"
    by (auto simp: bt_values_def contract_sm_restore_def clear_pog_cache_def)
  then show ?thesis
    by (simp add: restore_contracts_def comp_def collect_map_values)
qed

lemma saved_contracts_load:
  assumes "persist_env_ok (mgr_persist env)" and "db_call_ok c'" and "mgr_inv env cfg bound m"
    and "persister_commit_all (mgr_persist env) c (contract_rows m) (active_contracts m) = (rows, Ok ())"
  shows "load_contracts env cfg c' rows = Ok (bt_map_values clear_pog_cache (active_contracts m))"
proof -
  have inv: "cfgs_ok env cfg bound (contract_cfgs m)" "\<forall>row \<in> set (contract_rows m). row_of_active (active_contracts m) row"
    using assms(3) by (simp_all add: mgr_inv_def rows_ok_active)
  show ?thesis
    using commit_all_load_all [OF assms(1,2) cfgs_ok_storable [OF inv(1)] inv(2) assms(4)] restore_saved [OF inv(1)]
    by (simp add: load_contracts_def)
qed

lemma commit_contracts_Ok:
  "commit_contracts env c m = (m', Ok u) \<Longrightarrow>
   persister_commit_all (mgr_persist env) c (contract_rows m) (active_contracts m) = (contract_rows m', Ok ()) \<and>
   active_contracts m' = active_contracts m"
  by (cases "persister_commit_all (mgr_persist env) c (contract_rows m) (active_contracts m)"; cases "snd (persister_commit_all (mgr_persist env) c (contract_rows m) (active_contracts m))")
    (auto simp: commit_contracts_def)

lemma process_block_commits:
  assumes inv: "mgr_inv env cfg bound m" and room: "bound + length (txdata blk) < 2 ^ 32"
    and ok: "process_block env cfg c m blk = (m', Ok duties)"
  shows "\<exists>m2. mgr_inv env cfg (bound + length (txdata blk)) m2 \<and>
    persister_commit_all (mgr_persist env) c (contract_rows m2) (active_contracts m2) = (contract_rows m', Ok ()) \<and>
    active_contracts m' = active_contracts m2"
proof -
  let ?height = "case block_bip34_height env blk of Some h \<Rightarrow> h | None \<Rightarrow> 0"
  obtain pov_key offset m1 new ds m2 bs u where offset: "deposit_idx_offset (mgr_csm env) m = Ok offset"
    and m1: "process_block_txs env cfg ?height pov_key offset (txdata blk) m [] [] = (m1, Ok (new, ds))"
    and m2: "for_contracts (announce_block env ?height) m1 = (m2, Ok bs)"
    and commit: "commit_contracts env c (m2\<lparr>active_contracts := insert_contracts (mgr_csm env) new (active_contracts m2)\<rparr>) = (m', Ok u)"
    using ok unfolding process_block_def Let_def or_return_Ok_iff and_then_Ok_iff
    by (auto simp: and_then_Ok_iff)
  have "new_contracts_ok env cfg m offset []"
    by (simp add: new_contracts_ok_def)
  from process_block_txs_new [OF mgr_frame_refl this, of ?height pov_key "txdata blk" "[]"]
  have txs: "mgr_frame m m1" "new_contracts_ok env cfg m offset new" "length new \<le> length (txdata blk)"
    using m1 by auto
  have "mgr_frame m m2"
    using for_contracts_frame [where f = "announce_block env ?height", OF announce_block_cfg txs(1)] m2 by simp
  then have "mgr_inv env cfg (bound + length (txdata blk))
      (m2\<lparr>active_contracts := insert_contracts (mgr_csm env) new (active_contracts m2)\<rparr>)"
    by (rule insert_new_inv [OF inv room offset txs(2,3)])
  with commit_contracts_Ok [OF commit] show ?thesis
    by blast
qed

text \<open>
  (C5) Contracts survive a crash. After any sequence of events, when a block has been processed the
  database holds every contract: a node that starts from it has the same contracts in the same
  states, with the caches of graphs empty.
\<close>
theorem contracts_survive_restart:
  assumes "fresh_manager m0" and "sum_list (map event_txs evs) + length (txdata blk) < 2 ^ 32"
    and "ShutdownSignal \<notin> set evs" and "m = loop_run env cfg m0 evs"
    and "process_block env cfg c m blk = (m', Ok duties)"
    and "persist_env_ok (mgr_persist env)" and "db_call_ok c'"
  shows "load_contracts env cfg c' (contract_rows m') = Ok (bt_map_values clear_pog_cache (active_contracts m'))"
proof -
  have "mgr_inv env cfg (sum_list (map event_txs evs)) m"
    using run_inv [OF assms(1) _ assms(3)] assms(2,4) by simp
  then obtain m2 where "mgr_inv env cfg (sum_list (map event_txs evs) + length (txdata blk)) m2"
    "persister_commit_all (mgr_persist env) c (contract_rows m2) (active_contracts m2) = (contract_rows m', Ok ())"
    "active_contracts m' = active_contracts m2"
    using process_block_commits [OF _ assms(2,5)] by blast
  then show ?thesis
    using saved_contracts_load [OF assms(6,7)] by simp
qed


end
