(* ===== verification/Manager_Examples.thy ===== *)
theory Manager_Examples
  imports Manager_Runs Contract_Examples
begin

text \<open>
  A manager of a single operator that sees a deposit request, and the instances of the theorems on the
  contract manager at it.
\<close>

section \<open>A deposit request\<close>

definition demo_request :: transaction where
  "demo_request = create_tx [plain_in] (create_tx_outs [(p2tr_tweaked_script 0, 2000000000),
     (OP_RETURN # 37 # [7, 7, 7, 7] @ replicate 32 7 @ [1], 0)])"

definition demo_cfg :: execution_config where
  "demo_cfg = \<lparr>ec_operator_table = solo_table, ec_connector_params = example_connector_params,
     ec_graph_params = example_request_params, ec_stake_chain_params = example_stake_params, ec_address_length = 1\<rparr>"

definition demo_inputs :: stake_chain_inputs where
  "demo_inputs = \<lparr>stake_inputs = bt_empty, pre_stake_outpoint = \<lparr>op_txid = 99, op_vout = 0\<rparr>\<rparr>"

definition demo_db :: sqlite_db where
  "demo_db = \<lparr>tbl_wots_public_keys = [], tbl_wots_signatures = [], tbl_signatures = [], tbl_deposits = [],
     tbl_operator_stake_txids = [], tbl_operator_pre_stake_data = [(0, \<lparr>op_txid = 99, op_vout = 0\<rparr>)],
     tbl_operator_stake_data = [], tbl_claim_txids = [], tbl_post_assert_txids = [], tbl_assert_data_txids = [],
     tbl_pre_assert_txids = [], tbl_pub_nonces = [], tbl_aggregated_nonces = [], tbl_partial_signatures = [],
     tbl_witnesses = []\<rparr>"

definition demo_call :: db_call where
  "demo_call = \<lparr>max_retry_count = 0, attempt_error = (\<lambda>_. None)\<rparr>"

definition demo_start :: contract_manager where
  "demo_start = \<lparr>active_contracts = bt_empty, claim_index = bt_empty,
     mgr_stake_chains = (stake_chain_sm_new solo_table example_stake_params)\<lparr>stake_chains := bt_insert [1] demo_inputs bt_empty\<rparr>,
     es_operator_table = solo_table, contract_rows = [], stake_db = demo_db\<rparr>"

definition demo_block :: block where
  "demo_block = \<lparr>prev_blockhash = 0, header_rest = [], txdata = [demo_request]\<rparr>"

text \<open>Serialisers that know the given values only.\<close>

definition demo_persist :: "covenant_tx \<Rightarrow> machine_state \<Rightarrow> persist_env" where
  "demo_persist tx s = \<lparr>ser_deposit_tx = (\<lambda>x. if x = tx then Some [] else None), de_deposit_tx = (\<lambda>_. Some tx),
     ser_operator_table = (\<lambda>x. if x = solo_table then Some [] else None), de_operator_table = (\<lambda>_. Some solo_table),
     ser_state = (\<lambda>x. if x = s then Some [] else None), de_state = (\<lambda>_. Some s)\<rparr>"

definition demo_env :: "persist_env \<Rightarrow> manager_env" where
  "demo_env p = \<lparr>mgr_csm = example_csm_env, mgr_persist = p, block_bip34_height = (\<lambda>_. Some 10),
     rollup_params_valid = True, taproot_leaf_script = (\<lambda>_. None), envelope_payloads = (\<lambda>_. None),
     decode_signed_checkpoint = (\<lambda>_. None), verify_checkpoint_sig = (\<lambda>_. False), decode_chainstate = (\<lambda>_. None)\<rparr>"

lemma demo_simps [simp]:
  "mgr_csm (demo_env p) = example_csm_env" "mgr_persist (demo_env p) = p" "block_bip34_height (demo_env p) blk = Some 10"
  "ec_operator_table demo_cfg = solo_table"
  by (simp_all add: demo_env_def demo_cfg_def)

lemma demo_persist_ok: "persist_env_ok (demo_persist tx s)"
  by (simp add: persist_env_ok_def demo_persist_def)

lemma demo_call_ok: "db_call_ok demo_call"
  by (simp add: db_call_ok_def demo_call_def)

lemma demo_context: "tx_build_context example_bridge_env solo_table = (Ok example_ctx_0 :: ('e, _) outcome)"
  by (simp add: tx_build_context_def get_aggregated_pubkey_def example_bridge_env_def example_ctx_0_def pov_idx_def solo_table_def
      x_only_public_key_def)

lemma demo_request_info:
  "\<exists>data. deposit_request_info example_bridge_env demo_request 1 example_request_params example_ctx_0 idx = Ok (Some data)"
proof -
  have "deposit_amount example_request_params = 1000000000" "tag example_request_params = [7, 7, 7, 7]"
    by (simp_all add: example_request_params_def example_graph_params_def)
  then show ?thesis
    unfolding demo_request_def deposit_request_info_def create_tx_simps create_tx_outs_Cons list_get_Cons
      One_nat_def option.case
    by (simp add: example_magic [simplified] example_recovery [simplified] example_validate Let_def)
qed

lemma demo_deposit:
  assumes "deposit_request_info example_bridge_env demo_request 1 example_request_params example_ctx_0 idx = Ok (Some data)"
  shows "\<exists>ct i. deposit_tx_new example_bridge_env data example_ctx_0 example_request_params 1 = Ok ct \<and>
     tx_input (unsigned_tx (ct_psbt ct)) = [i]"
proof -
  note info = deposit_request_infoD [OF assms]
  obtain takeback where takeback:
    "miniscript_take_back example_bridge_env (drd_x_only_public_key data) (refund_delay example_request_params) = Some takeback"
    by (rule deposit_request_validateD [OF info(1)])
  have tag4: "length (tag example_request_params) = 4"
    by (simp add: example_request_params_def)
  show ?thesis
    by (rule deposit_tx_new_ok [OF info(1) example_taproot_ok tag4 info(7) takeback])
      (simp add: built_ct_def built_psbt_def create_tx_ins_def)
qed

lemma demo_accepted:
  "\<exists>sm duty. (\<forall>p. process_deposit_request (demo_env p) demo_cfg demo_start 10 [1] 0 demo_request = Ok (RequestAccepted sm duty)) \<and>
     cfg_operator_table (csm_cfg sm) = solo_table"
proof -
  obtain data where info:
    "deposit_request_info example_bridge_env demo_request 1 example_request_params example_ctx_0 0 = Ok (Some data)"
    using demo_request_info by blast
  obtain ct i where ct: "deposit_tx_new example_bridge_env data example_ctx_0 example_request_params 1 = Ok ct"
    "tx_input (unsigned_tx (ct_psbt ct)) = [i]"
    using demo_deposit [OF info] by blast
  have abort: "\<exists>h. add_u64 example_csm_env 10 (ucast (refund_delay example_request_params)) = (Ok h :: (manager_err, _) outcome)"
    by (simp add: add_u64_def example_csm_env_def example_request_params_def example_graph_params_def)
  show ?thesis
    using abort ct info
    by (auto simp: process_deposit_request_def demo_env_def demo_cfg_def demo_start_def example_csm_env_def demo_context Let_def
        contract_sm_new_def cfg_deposit_request_txid_def)
qed

lemma demo_pov: "pov_p2p_key solo_table = (Ok [1] :: ('e, _) outcome)"
  by (simp add: pov_p2p_key_def solo_table_def)

lemma demo_no_checkpoint: "process_assignments (demo_env p) demo_cfg m demo_request = (m, Ok [])"
  by (simp add: process_assignments_def parse_strata_checkpoint_def demo_env_def demo_request_def list_get_def)

lemma demo_block_processed:
  "\<exists>p sm duty rows. persist_env_ok p \<and> cfg_operator_table (csm_cfg sm) = solo_table \<and>
     process_block (demo_env p) demo_cfg demo_call demo_start demo_block =
       (demo_start\<lparr>active_contracts := bt_insert (cfg_deposit_txid example_csm_env (csm_cfg sm)) sm bt_empty,
          contract_rows := rows\<rparr>, Ok [duty]) \<and>
     p = demo_persist (cfg_deposit_tx (csm_cfg sm)) (csm_state sm)"
proof -
  obtain sm duty where sm: "\<And>p. process_deposit_request (demo_env p) demo_cfg demo_start 10 [1] 0 demo_request =
      Ok (RequestAccepted sm duty)" "cfg_operator_table (csm_cfg sm) = solo_table"
    using demo_accepted by blast
  define p where "p = demo_persist (cfg_deposit_tx (csm_cfg sm)) (csm_state sm)"
  define active where "active = bt_insert (cfg_deposit_txid example_csm_env (csm_cfg sm)) sm bt_empty"
  have offset: "deposit_idx_offset example_csm_env demo_start = Ok 0"
    by (simp add: deposit_idx_offset_def demo_start_def bt_values_def)
  have zero: "add_u32 example_csm_env 0 0 = (Ok 0 :: (manager_err, _) outcome)"
    by (simp add: add_u32_def)
  have txs: "process_block_txs (demo_env p) demo_cfg 10 [1] 0 [demo_request] demo_start [] [] = (demo_start, Ok ([sm], [duty]))"
    using sm(1) [of p] zero
    by (simp add: process_block_tx_def demo_no_checkpoint and_then_def route_block_tx_def)
  have blocks: "for_contracts (announce_block (demo_env p) 10) demo_start = (demo_start, Ok [])"
    by (simp add: for_contracts_def demo_start_def bt_keys_def)
  have ins: "insert_contracts example_csm_env [sm] (active_contracts demo_start) = active"
    by (simp add: insert_contracts_def demo_start_def active_def)
  have entries: "bt_entries active = [(cfg_deposit_txid example_csm_env (csm_cfg sm), sm)]"
    by (simp add: active_def btree_simps)
  obtain row where row: "serialize_entry p (cfg_deposit_txid example_csm_env (csm_cfg sm), sm) = Ok row"
    using sm(2) by (simp add: serialize_entry_def Let_def serialize_contract_def p_def demo_persist_def ok_or_def)
  have commit: "persister_commit_all p demo_call [] active = ([row], Ok ())"
    using row demo_call_ok
    by (simp add: persister_commit_all_def entries persist_call_ok persist_tx_def replace_row_def)
  have "process_block (demo_env p) demo_cfg demo_call demo_start demo_block =
      (demo_start\<lparr>active_contracts := active, contract_rows := [row]\<rparr>, Ok [duty])"
    unfolding process_block_def
    using offset txs blocks ins commit
    by (simp add: demo_pov demo_block_def and_then_def commit_contracts_def Let_def) (simp add: demo_start_def)
  then show ?thesis
    using sm(2) demo_persist_ok unfolding active_def p_def by blast
qed

section \<open>Instances\<close>

definition demo_event :: loop_event where
  "demo_event = BlockNotice \<lparr>ev_block = demo_block, blk_status = BlockBuried\<rparr> demo_call"

lemma demo_event_facts: "event_txs demo_event = 1" "demo_event \<noteq> ShutdownSignal"
  by (simp_all add: demo_event_def demo_block_def)

lemma demo_run:
  assumes "process_block (demo_env p) demo_cfg demo_call demo_start demo_block = (m, Ok duties)"
  shows "loop_run (demo_env p) demo_cfg demo_start [demo_event] = m"
  using assms by (simp add: loop_run_def demo_event_def Let_def)

lemma demo_fresh: "fresh_manager demo_start"
  by (simp add: fresh_manager_def demo_start_def)

theorem deposit_indices_unique_witness:
  "\<exists>p sm key. bt_get (active_contracts (loop_run (demo_env p) demo_cfg demo_start [demo_event])) key = Some sm \<and>
     cfg_deposit_txid example_csm_env (csm_cfg sm) = key \<and> load_params_of (csm_cfg sm) = config_params demo_cfg"
proof -
  obtain p sm duty rows where b: "process_block (demo_env p) demo_cfg demo_call demo_start demo_block =
       (demo_start\<lparr>active_contracts := bt_insert (cfg_deposit_txid example_csm_env (csm_cfg sm)) sm bt_empty,
          contract_rows := rows\<rparr>, Ok [duty])"
    using demo_block_processed by blast
  let ?m = "loop_run (demo_env p) demo_cfg demo_start [demo_event]"
  have get: "bt_get (active_contracts ?m) (cfg_deposit_txid example_csm_env (csm_cfg sm)) = Some sm"
    unfolding demo_run [OF b] by simp
  from deposit_indices_unique [OF demo_fresh _ _ refl this this] have
    "load_params_of (csm_cfg sm) = config_params demo_cfg"
    using demo_event_facts by simp
  with get show ?thesis by blast
qed

theorem contracts_survive_restart_witness:
  "\<exists>p m duties. process_block (demo_env p) demo_cfg demo_call demo_start demo_block = (m, Ok duties) \<and>
     bt_len (active_contracts m) = 1 \<and>
     load_contracts (demo_env p) demo_cfg demo_call (contract_rows m) = Ok (bt_map_values clear_pog_cache (active_contracts m))"
proof -
  obtain p sm duty rows where p: "persist_env_ok p" and b: "process_block (demo_env p) demo_cfg demo_call demo_start demo_block =
       (demo_start\<lparr>active_contracts := bt_insert (cfg_deposit_txid example_csm_env (csm_cfg sm)) sm bt_empty,
          contract_rows := rows\<rparr>, Ok [duty])" (is "_ = (?m, _)")
    using demo_block_processed by blast
  have run: "demo_start = loop_run (demo_env p) demo_cfg demo_start []"
    by (simp add: loop_run_def)
  have "load_contracts (demo_env p) demo_cfg demo_call (contract_rows ?m) = Ok (bt_map_values clear_pog_cache (active_contracts ?m))"
    using contracts_survive_restart [OF demo_fresh _ _ run b _ demo_call_ok] p by (simp add: demo_block_def)
  moreover have "bt_len (active_contracts ?m) = 1"
    by (simp add: bt.len_insert)
  ultimately show ?thesis
    using b by blast
qed

lemma demo_wf: "operator_table_wf solo_table"
  by (rule operator_table_new_wf [OF solo_table_new])

lemma demo_disk: "stake_disk_ok solo_table (stake_chains (mgr_stake_chains demo_start)) demo_db"
  by (simp add: stake_disk_ok_def demo_start_def demo_db_def demo_inputs_def solo_table_def bt_keys_def btree_simps
      p2p_key_to_idx_def idx_to_p2p_key_def operator_idxs_def sql_select_def)

lemma solo_context: "\<exists>ctx. build_context_of example_bridge_env solo_table = Some ctx"
  by (simp add: build_context_of_def example_bridge_env_def)

lemma demo_commit:
  assumes "cfg_operator_table (csm_cfg sm) = solo_table" and "p = demo_persist (cfg_deposit_tx (csm_cfg sm)) (csm_state sm)"
  shows "\<exists>rows'. persister_commit_all p demo_call rows (bt_insert key sm bt_empty) = (rows', Ok ())"
proof -
  have "\<exists>row. serialize_entry p (key, sm) = Ok row"
    using assms by (simp add: serialize_entry_def Let_def serialize_contract_def demo_persist_def ok_or_def)
  then show ?thesis
    using demo_call_ok by (auto simp: persister_commit_all_def btree_simps persist_call_ok persist_tx_def)
qed


theorem nag_exact_witness:
  "nag demo_cfg (demo_start\<lparr>mgr_stake_chains := stake_chain_sm_new solo_table example_stake_params\<rparr>) =
     [ReqStakeChainExchange 0 [1]] \<and>
   \<not> received (demo_start\<lparr>mgr_stake_chains := stake_chain_sm_new solo_table example_stake_params\<rparr>)
     (ReqStakeChainExchange 0 [1]) \<and> nag demo_cfg demo_start = []"
proof -
  let ?m = "demo_start\<lparr>mgr_stake_chains := stake_chain_sm_new solo_table example_stake_params\<rparr>"
  have keys: "p2p_keys solo_table = [[1]]"
    by (simp add: p2p_keys_def solo_table_def bt_keys_def btree_simps)
  have one: "nag demo_cfg ?m = [ReqStakeChainExchange 0 [1]]"
    by (simp add: nag_def keys missing_keys_def stake_chain_sm_new_def bt_keys_def demo_start_def)
  then have "\<not> received ?m (ReqStakeChainExchange 0 [1])"
    using nag_exact [of demo_cfg ?m, THEN conjunct1] by (metis list.set_intros(1))
  moreover have "nag demo_cfg demo_start = []"
    using nag_exact [of demo_cfg demo_start, THEN conjunct2] keys by (simp add: demo_start_def bt_values_def)
  ultimately show ?thesis
    using one by blast
qed

theorem root_signature_request_unguarded_witness:
  "\<exists>agg. process_root_signatures_request signing_env 1 (contract_of example_table) =
      (Ok (Some (PublishRootSignature 1 agg 6 WitnessKey None)) :: (manager_err, _) outcome) \<and>
    snd (process_root_nonce signing_env (contract_of example_table) [2] [7]) = Ok None"
proof -
  let ?r = "case contract_state_new 1 20 of Requested r \<Rightarrow> r"
  have st: "the_state (contract_of example_table) = Requested ?r" "csm_cfg (contract_of example_table) = contract_cfg_of example_table"
    "root_nonces ?r = bt_empty" "root_partials ?r = bt_empty"
    by (simp_all add: contract_of_def contract_state_new_def)
  have table: "cardinality example_table = 2"
    by (simp add: example_table_eq cardinality_def bt.len_insert bt.len_empty bt.get_empty bt.get_insert)
  have conv: "convert_map_p2p_to_btc example_table (bt_empty :: (p2p_key, pub_nonce) btree_map) = Ok bt_empty"
    by (simp add: convert_map_p2p_to_btc_def convert_map_def bt_collect_def)
  have "\<exists>k. pov_p2p_key example_table = (Ok k :: (manager_err, _) outcome)"
    by (simp add: pov_p2p_key_def example_table_eq)
  then obtain k where k: "pov_p2p_key example_table = (Ok k :: (manager_err, _) outcome)"
    by blast
  show ?thesis
    using root_signature_request_unguarded [OF st(1), of k signing_env 6 WitnessKey bt_empty "[2]" 1 "[7]"]
    by (simp add: st k conv table signing_facts bt.get_empty bt.len_empty)
qed

end
