(* ===== verification/Spec2Isabelle.thy ===== *)
theory Spec2Isabelle
  imports Operator_Table Pog_Musig Graph_Generation Stake_Runs Contract_Examples Btc_Client Manager_Examples
begin

text \<open>
  Verification of the strata bridge, the operator's node of a Bitcoin bridge.

  \<^bold>\<open>The program.\<close> Users lock funds in a deposit that a fixed set of operators controls jointly. For each
  deposit the operators sign in advance a graph of transactions, the peg-out graph, one per operator.
  An operator who is assigned a withdrawal pays the user out of pocket, publishes the claim of its graph
  and is reimbursed: at once when nobody challenges, or after an assertion that nobody can disprove. The
  stake of the operator moves along a chain of transactions, one per deposit. A node consists of a
  tracker of the chain that feeds subscribers (\<open>crates/btc-notify\<close>), a contract manager
  (\<open>crates/duty-tracker\<close>) that turns blocks and peer messages into events of one state machine per
  deposit and of the stake chains and writes both to disk (\<open>crates/db\<close>), and the libraries that build
  transactions and scripts (\<open>crates/tx-graph\<close>, \<open>crates/connectors\<close>, \<open>crates/stake-chain\<close>,
  \<open>crates/primitives\<close>). The machines answer an event with duties, which executors carry out.

  \<^bold>\<open>Conventions.\<close> A fallible Rust function returns \<open>Ok\<close>, \<open>Err\<close> or \<open>Panic\<close>; every \<open>expect\<close>, index and
  early return of the source is a branch. A handler that mutates its receiver returns the state it
  leaves together with its result, also when it fails. Machine integers are words; where the build
  decides between wrapping and panicking, the environment carries \<open>debug_assertions\<close>. A \<open>BTreeMap\<close> is a
  strictly sorted association list. Library code (the \<open>bitcoin\<close>, \<open>musig2\<close> and bitvm crates, the
  serialisers, the secret service, the checkpoints of the side system) is a record of functions passed
  as an argument; what is relied on is a named predicate such as \<open>graph_env_ok\<close> or \<open>persist_env_ok\<close>, and
  example environments show that it can hold.

  \<^bold>\<open>Theories and sources.\<close>

    \<^item> \<open>Prelude\<close>, \<open>BTree_Map\<close>: outcomes, words, lists; ordered maps with the interface \<open>finite_map\<close>; the
      interface \<open>invariant_machine\<close> of state machines with an invariant.
    \<^item> \<open>Algebra\<close> (\<open>crates/algebra\<close>): semigroups, monoids, two-way lookups, the retry loop.
    \<^item> \<open>Operator_Table\<close> (\<open>primitives/src/operator_table.rs\<close>), \<open>Pog_Musig\<close>
      (\<open>tx-graph/src/pog_musig_functor.rs\<close>): the operators with their three kinds of keys; one value per
      input to sign of a peg-out graph.
    \<^item> \<open>Bitcoin\<close>, \<open>Connectors\<close>, \<open>Tx_Graph\<close>, \<open>Graph_Generation\<close> (\<open>primitives/src/scripts\<close>,
      \<open>crates/connectors\<close>, \<open>tx-graph/src/peg_out_graph.rs\<close> and \<open>tx-graph/src/transactions\<close>): scripts,
      taproot outputs, every transaction of the graph, and that the generated graph is linked, balanced
      and built without a panic.
    \<^item> \<open>Deposit\<close>, \<open>Witness_Parsing\<close> (\<open>tx-graph/src/transactions\<close>, \<open>duty-tracker/src/predicates.rs\<close>,
      \<open>primitives/src/scripts/parse_witness.rs\<close>): deposit requests, deposits, fulfillments and how they
      are recognised; commitments read back from witnesses.
    \<^item> \<open>Wots\<close>, \<open>Wots_Keys\<close> (\<open>primitives/src/wots.rs\<close>, \<open>scripts/commitments.rs\<close>,
      \<open>executors/wots_handler.rs\<close>): the one-time keys of a deposit, their derivation, use and
      serialisation.
    \<^item> \<open>Stake_Chain\<close>, \<open>Stake_Correctness\<close>, \<open>Stake_Machine\<close>, \<open>Stake_Runs\<close> (\<open>crates/stake-chain\<close>,
      \<open>duty-tracker/src/stake_chain_state_machine.rs\<close>): the chain of stake transactions and the machine
      that caches it, which refines the chain that is built in one go.
    \<^item> \<open>Contract_State\<close>, \<open>Contract_Signing\<close>, \<open>Contract_SM\<close>
      (\<open>duty-tracker/src/contract_state_machine.rs\<close>): states, events, duties and handlers.
      \<open>Contract_Steps\<close> gives the life cycle as an inductive step relation and proves that the handlers
      refine it; \<open>Contract_Invariants\<close>, \<open>Contract_Runs\<close>, \<open>Contract_Safety\<close> derive invariants and safety
      of runs, \<open>Contract_Progress\<close> and \<open>Contract_Dispute\<close> that withdrawals complete;
      \<open>Contract_Examples\<close> has a concrete contract.
    \<^item> \<open>Btc_Notify\<close>, \<open>Btc_Client\<close> (\<open>btc-notify/src/state_machine.rs\<close>, \<open>event.rs\<close>, \<open>client.rs\<close>): the
      tracker of blocks and transactions, and the client that serves subscribers, with what a subscriber
      receives.
    \<^item> \<open>Database\<close>, \<open>Persistence\<close> (\<open>db/src/persistent/sqlite.rs\<close>, the schema under \<open>migrations\<close>,
      \<open>duty-tracker/src/contract_persister.rs\<close>, \<open>stake_chain_persister.rs\<close>): tables with the conflict
      clauses of their inserts, retries, and that what is committed is loaded.
    \<^item> \<open>Contract_Manager\<close>, \<open>Manager_Requests\<close>, \<open>Manager_Runs\<close> (\<open>duty-tracker/src/contract_manager.rs\<close>,
      \<open>shutdown.rs\<close>): blocks, gossip, requests and nags; start, event loop and shutdown.
      \<open>Manager_Examples\<close> has a concrete manager.

  \<^bold>\<open>What is shown.\<close> Of a contract: its handlers refine the life cycle; it is resolved only after the
  deposit, the assignment, a fulfillment that pays the user, the claim and the payout; it never goes
  back; disputed and undisputed withdrawals complete; the filter passes every relevant transaction;
  duties under a timelock come at the right block; the deposit is published only with the signatures of
  all. Of the graphs and stakes: every input spends the right output with the committed value and
  script. Of the manager: contracts are kept apart by their indices, and they survive a crash after a
  block and a clean shutdown; nags ask exactly for what is missing. Of the tracker: subscribers receive
  exactly the transactions they asked for, as mined and then as buried, whatever the order of the
  streams. Of the stores and the keys: what is written is read, one-time keys have distinct secrets,
  signatures verify. Some theorems prove where the code departs from its documentation or intent.

  \<^bold>\<open>Bounds.\<close> No definition needs fuel. The loops are structural recursions with three exceptions. The
  synchronisation \<open>rpc_sync\<close> ends because the distance to the current height decreases. The loop of
  \<open>log_base_ceil\<close> and the retry loop of \<open>crates/algebra\<close> need not end; they are partial functions, and
  it is proved that the first ends for every base from 2 on and the second under a strategy with a
  maximal number of retries. The database retries are bounded by their configuration. Deposit indices
  are 32 bit wide, so the theorems on runs of the manager assume fewer than \<open>2 ^ 32\<close> transactions in all
  its blocks together.

  \<^bold>\<open>Not modelled.\<close> The executors of duties, the transaction driver and the wallet (calls to external
  services), the finalisation of witnesses, the peer-to-peer transport, the secret service, the proof
  program, the RPC server and the binaries, logging, serde and \<open>Display\<close> other than the serialisation of
  the one-time keys. The encodings of database columns are the identity. Tasks are modelled by the
  order in which they handle messages: a machine is locked while it handles one.
\<close>

end
